(* ===== verification/Prelude.thy ===== *)
theory Prelude
  imports Complex_Main "HOL-Library.AList"
begin

text \<open>
  Prelude of the HybridStream development: Python results and exceptions, insertion-ordered
  dictionaries, bounded deques, decimal printing of integers, and the hint collections the component
  theories share.  Python floats are modelled by \<open>real\<close> (no rounding, no NaN, no infinities; the one
  place where the source stores an infinity has a type of its own), Python integers by \<open>int\<close> or, where
  the source only counts upwards from zero, by \<open>nat\<close>.
\<close>

section \<open>Exceptions and results\<close>

text \<open>
  An exception that the source raises or lets through is a value of \<open>py_error\<close>; a call that may
  raise has type \<open>'a res\<close>, with \<open>Inl\<close> for the exception.  \<open>Exc\<close> stands for an exception of a library
  with its message.
\<close>

datatype py_error =
    ValueError string
  | KeyError string
  | IndexError
  | TypeError string
  | AttributeError string
  | RuntimeError string
  | ZeroDivisionError
  | StructError string
  | Exc string

type_synonym 'a res = "py_error + 'a"

text \<open>\<open>str(e)\<close> of an exception: the message, in quotes for a \<open>KeyError\<close> (Python prints its repr).\<close>

fun str_of_error :: "py_error \<Rightarrow> string" where
  "str_of_error (ValueError m) = m"
| "str_of_error (KeyError k) = CHR 39 # k @ [CHR 39]"
| "str_of_error IndexError = ''list index out of range''"
| "str_of_error (TypeError m) = m"
| "str_of_error (AttributeError m) = m"
| "str_of_error (RuntimeError m) = m"
| "str_of_error ZeroDivisionError = ''float division by zero''"
| "str_of_error (StructError m) = m"
| "str_of_error (Exc m) = m"

fun bind_res :: "'a res \<Rightarrow> ('a \<Rightarrow> 'b res) \<Rightarrow> 'b res" where
  "bind_res (Inl e) f = Inl e"
| "bind_res (Inr x) f = f x"

named_theorems res_simps \<open>rewriting of computations that may raise\<close>

lemma bind_res_eq_Inr [res_simps]:
  "bind_res m f = Inr y \<longleftrightarrow> (\<exists>x. m = Inr x \<and> f x = Inr y)"
  by (cases m) auto

lemma bind_res_eq_Inl [res_simps]:
  "bind_res m f = Inl e \<longleftrightarrow> m = Inl e \<or> (\<exists>x. m = Inr x \<and> f x = Inl e)"
  by (cases m) auto

lemma bind_res_assoc: "bind_res (bind_res m f) g = bind_res m (\<lambda>x. bind_res (f x) g)"
  by (cases m) auto

text \<open>A list comprehension whose body may raise: left to right, stopping at the first exception.\<close>

fun mapM_res :: "('a \<Rightarrow> 'b res) \<Rightarrow> 'a list \<Rightarrow> 'b list res" where
  "mapM_res f [] = Inr []"
| "mapM_res f (x # xs) =
     bind_res (f x) (\<lambda>y. bind_res (mapM_res f xs) (\<lambda>ys. Inr (y # ys)))"

lemma mapM_res_Inr: "mapM_res (\<lambda>x. Inr (f x)) xs = Inr (map f xs)"
  by (induction xs) auto

lemma mapM_res_cong: "(\<And>x. x \<in> set xs \<Longrightarrow> f x = g x) \<Longrightarrow> mapM_res f xs = mapM_res g xs"
  by (induction xs) auto

lemma mapM_res_length: "mapM_res f xs = Inr ys \<Longrightarrow> length ys = length xs"
  by (induction xs arbitrary: ys) (auto simp: res_simps)

lemma mapM_res_nth:
  "mapM_res f xs = Inr ys \<Longrightarrow> i < length xs \<Longrightarrow> f (xs ! i) = Inr (ys ! i)"
  by (induction xs arbitrary: ys i) (auto simp: res_simps nth_Cons split: nat.splits)

lemma distinct_middle: "distinct (xs @ x # ys) \<Longrightarrow> x \<notin> set xs"
  by (induction xs) auto

lemma distinct_map_middle:
  assumes "distinct (map f (xs @ x # ys))"
  shows "f x \<notin> f ` set xs"
proof -
  have "distinct (map f xs @ f x # map f ys)" using assms by (simp only: map_append list.map)
  then have "f x \<notin> set (map f xs)" by (rule distinct_middle)
  then show ?thesis by simp
qed

section \<open>Dictionaries\<close>

text \<open>
  A Python dictionary keeps its insertion order: updating a present key keeps its place, a new key
  goes to the end.  That is the association list of \<open>AList\<close>; \<open>wf_dict\<close> says that no key occurs twice.
\<close>

type_synonym ('k, 'v) dict = "('k \<times> 'v) list"

abbreviation dict_get :: "('k, 'v) dict \<Rightarrow> 'k \<Rightarrow> 'v option" where
  "dict_get d k \<equiv> map_of d k"

abbreviation dict_set :: "'k \<Rightarrow> 'v \<Rightarrow> ('k, 'v) dict \<Rightarrow> ('k, 'v) dict" where
  "dict_set k v d \<equiv> AList.update k v d"

abbreviation dict_pop :: "'k \<Rightarrow> ('k, 'v) dict \<Rightarrow> ('k, 'v) dict" where
  "dict_pop k d \<equiv> AList.delete k d"

abbreviation dict_keys :: "('k, 'v) dict \<Rightarrow> 'k list" where
  "dict_keys d \<equiv> map fst d"

definition wf_dict :: "('k, 'v) dict \<Rightarrow> bool" where
  "wf_dict d \<longleftrightarrow> distinct (map fst d)"

definition dict_get_default :: "('k, 'v) dict \<Rightarrow> 'k \<Rightarrow> 'v \<Rightarrow> 'v" where
  "dict_get_default d k v = (case map_of d k of Some x \<Rightarrow> x | None \<Rightarrow> v)"

fun dict_of :: "('k \<times> 'v) list \<Rightarrow> ('k, 'v) dict \<Rightarrow> ('k, 'v) dict" where
  "dict_of [] d = d"
| "dict_of ((k, v) # kvs) d = dict_of kvs (dict_set k v d)"

named_theorems dict_simps \<open>lookups after updates of a dictionary\<close>

lemma get_set [dict_simps]: "map_of (AList.update k v d) k' = (if k' = k then Some v else map_of d k')"
  by (simp add: update_conv')

lemma get_pop [dict_simps]: "map_of (AList.delete k d) k' = (if k' = k then None else map_of d k')"
  by (simp add: delete_conv')

lemma keys_set [dict_simps]:
  "map fst (AList.update k v d) = (if k \<in> fst ` set d then map fst d else map fst d @ [k])"
  by (simp add: update_keys)

lemma keys_pop [dict_simps]: "map fst (AList.delete k d) = filter (\<lambda>x. x \<noteq> k) (map fst d)"
  by (induction d) auto

lemma wf_dict_Nil [simp, intro]: "wf_dict []"
  by (simp add: wf_dict_def)

lemma wf_dict_set [simp, intro]: "wf_dict d \<Longrightarrow> wf_dict (AList.update k v d)"
  by (simp add: wf_dict_def distinct_update)

lemma wf_dict_pop [simp, intro]: "wf_dict d \<Longrightarrow> wf_dict (AList.delete k d)"
  by (simp add: wf_dict_def distinct_delete)

lemma wf_dict_dict_of: "wf_dict d \<Longrightarrow> wf_dict (dict_of kvs d)"
  by (induction kvs d rule: dict_of.induct) auto

lemma dict_set_new: "k \<notin> fst ` set d \<Longrightarrow> dict_set k v d = d @ [(k, v)]"
  by (induction d) auto

lemma dict_of_append_distinct:
  "distinct (map fst (d @ kvs)) \<Longrightarrow> dict_of kvs d = d @ kvs"
proof (induction kvs arbitrary: d)
  case (Cons kv kvs)
  obtain k v where kv: "kv = (k, v)" by (rule prod.exhaust)
  have "dict_set k v d = d @ [(k, v)]" using Cons.prems by (intro dict_set_new) (auto simp: kv)
  then show ?case using Cons.IH [of "d @ [(k, v)]"] Cons.prems by (simp add: kv)
qed simp

lemma dict_of_distinct: "distinct (map fst kvs) \<Longrightarrow> dict_of kvs [] = kvs"
  using dict_of_append_distinct [of "[]" kvs] by simp

lemma set_update_wf:
  "wf_dict d \<Longrightarrow> set (AList.update k v d) = insert (k, v) {p \<in> set d. fst p \<noteq> k}"
  by (induction d) (auto simp: wf_dict_def image_iff)

lemma set_delete_dict: "set (AList.delete k d) = {p \<in> set d. fst p \<noteq> k}"
  by (auto simp: AList.delete_eq)

lemma get_in_set: "map_of d k = Some v \<Longrightarrow> (k, v) \<in> set d"
  by (rule map_of_SomeD)

lemma in_set_get: "wf_dict d \<Longrightarrow> (k, v) \<in> set d \<Longrightarrow> map_of d k = Some v"
  by (simp add: wf_dict_def)

lemma map_of_dict_of [dict_simps]:
  "map_of (dict_of kvs d) k =
     (case map_of (rev kvs) k of Some v \<Rightarrow> Some v | None \<Rightarrow> map_of d k)"
  by (induction kvs d rule: dict_of.induct)
     (auto simp: dict_simps map_add_def split: option.splits)

lemma ex_value_iff:
  assumes "wf_dict d"
  shows "(\<exists>p \<in> set d. P (snd p)) \<longleftrightarrow> (\<exists>k v. map_of d k = Some v \<and> P v)"
  using in_set_get [OF assms] get_in_set by (metis prod.collapse snd_conv)

lemma list_all_dict_set: "list_all P d \<Longrightarrow> P (k, v) \<Longrightarrow> list_all P (dict_set k v d)"
  by (induction d) auto

section \<open>Bounded deques\<close>

text \<open>\<open>collections.deque(maxlen=n).append(x)\<close>: elements fall out on the left.\<close>

definition deque_append :: "nat \<Rightarrow> 'a list \<Rightarrow> 'a \<Rightarrow> 'a list" where
  "deque_append maxlen xs x = drop (Suc (length xs) - maxlen) (xs @ [x])"

text \<open>\<open>collections.deque(xs, maxlen=n)\<close>: the constructor keeps the last \<open>n\<close> elements.\<close>

definition deque_of :: "nat \<Rightarrow> 'a list \<Rightarrow> 'a list" where
  "deque_of maxlen xs = drop (length xs - maxlen) xs"

lemma deque_append_length:
  "length xs \<le> n \<Longrightarrow> length (deque_append n xs x) = min n (Suc (length xs))"
  by (auto simp: deque_append_def)

lemma deque_append_bound [intro]: "length xs \<le> n \<Longrightarrow> length (deque_append n xs x) \<le> n"
  by (simp add: deque_append_length)

lemma deque_of_id [simp]: "length xs \<le> n \<Longrightarrow> deque_of n xs = xs"
  by (simp add: deque_of_def)

lemma deque_of_bound: "length (deque_of n xs) \<le> n"
  by (simp add: deque_of_def)

text \<open>A bounded deque holds the last \<open>n\<close> elements of everything appended to it.\<close>

lemma deque_append_deque_of: "deque_append n (deque_of n xs) x = deque_of n (xs @ [x])"
  by (cases "length xs \<le> n") (auto simp: deque_append_def deque_of_def Suc_diff_le)

lemma deque_append_nonempty: "0 < n \<Longrightarrow> length xs \<le> n \<Longrightarrow> deque_append n xs x \<noteq> []"
  by (metis deque_append_length length_0_conv min_def nat.distinct(1) not_less_eq_eq zero_le zero_less_iff_neq_zero)

lemma set_deque_append: "set (deque_append n xs x) \<subseteq> insert x (set xs)"
  unfolding deque_append_def using set_drop_subset [of _ "xs @ [x]"] by fastforce

section \<open>Printing integers\<close>

fun digit :: "nat \<Rightarrow> char" where
  "digit n = char_of (48 + n)"

fun show_nat :: "nat \<Rightarrow> string" where
  "show_nat n = (if n < 10 then [digit n] else show_nat (n div 10) @ [digit (n mod 10)])"

declare show_nat.simps [simp del]

definition show_int :: "int \<Rightarrow> string" where
  "show_int i = (if i < 0 then CHR ''-'' # show_nat (nat (- i)) else show_nat (nat i))"

text \<open>The format \<open>{:0wd}\<close> of a number that is not negative: at least \<open>w\<close> characters.\<close>

definition pad0 :: "nat \<Rightarrow> string \<Rightarrow> string" where
  "pad0 w s = replicate (w - length s) (CHR ''0'') @ s"

definition digit_val :: "char \<Rightarrow> nat" where
  "digit_val c = of_char c - 48"

definition nat_of_digits :: "string \<Rightarrow> nat" where
  "nat_of_digits = foldl (\<lambda>a c. 10 * a + digit_val c) 0"

lemma digit_val_digit: "n < 10 \<Longrightarrow> digit_val (digit n) = n"
  by (simp add: digit_val_def of_char_of)

lemma nat_of_digits_show_nat [simp]: "nat_of_digits (show_nat n) = n"
proof (induction n rule: show_nat.induct)
  case (1 n)
  show ?case
  proof (cases "n < 10")
    case True
    then show ?thesis
      by (simp add: show_nat.simps nat_of_digits_def digit_val_digit del: digit.simps)
  next
    case False
    then have "nat_of_digits (show_nat n) =
        10 * nat_of_digits (show_nat (n div 10)) + digit_val (digit (n mod 10))"
      by (subst show_nat.simps) (simp add: nat_of_digits_def)
    with "1.IH" False show ?thesis
      by (simp add: digit_val_digit del: digit.simps)
  qed
qed

lemma show_nat_inj [simp]: "show_nat m = show_nat n \<longleftrightarrow> m = n"
  by (metis nat_of_digits_show_nat)

lemma nat_of_digits_pad0 [simp]: "nat_of_digits (pad0 w s) = nat_of_digits s"
proof -
  have "foldl (\<lambda>a c. 10 * a + digit_val c) 0 (replicate k (CHR ''0'') @ s) = nat_of_digits s" for k
    by (induction k) (auto simp: nat_of_digits_def digit_val_def)
  then show ?thesis by (simp add: nat_of_digits_def pad0_def)
qed

lemma pad0_show_nat_inj [simp]: "pad0 w (show_nat m) = pad0 w (show_nat n) \<longleftrightarrow> m = n"
  by (metis nat_of_digits_pad0 nat_of_digits_show_nat)

lemma show_nat_digits: "c \<in> set (show_nat n) \<Longrightarrow> \<exists>d < 10. c = digit d"
proof (induction n rule: show_nat.induct)
  case (1 n)
  then show ?case
    by (subst (asm) show_nat.simps) (auto split: if_splits simp del: digit.simps intro: exI [of _ "n mod 10"])
qed

section \<open>Joining strings\<close>

fun join_with :: "string \<Rightarrow> string list \<Rightarrow> string" where
  "join_with sep [] = []"
| "join_with sep [s] = s"
| "join_with sep (s # t # ss) = s @ sep @ join_with sep (t # ss)"

text \<open>The repr of a list of strings without quotes or backslashes in them.\<close>

definition list_repr :: "string list \<Rightarrow> string" where
  "list_repr ss = ''['' @ join_with '', '' (map (\<lambda>s. [CHR 39] @ s @ [CHR 39]) ss) @ '']''"

section \<open>Splitting and parsing strings\<close>

text \<open>\<open>s.split(c)\<close> for a one-character separator: empty parts are kept, the result is never empty.\<close>

fun py_split :: "char \<Rightarrow> string \<Rightarrow> string list" where
  "py_split c [] = [[]]"
| "py_split c (x # xs) =
     (if x = c then [] # py_split c xs
      else case py_split c xs of [] \<Rightarrow> [[x]] | p # ps \<Rightarrow> (x # p) # ps)"

lemma py_split_nonempty [simp]: "py_split c s \<noteq> []"
  by (induction s) (auto split: list.splits)

lemma py_split_no_sep: "c \<notin> set s \<Longrightarrow> py_split c s = [s]"
  by (induction s) auto

lemma py_split_sep: "c \<notin> set s \<Longrightarrow> py_split c (s @ c # t) = s # py_split c t"
  by (induction s) auto

text \<open>
  \<open>int(s)\<close> of a string: surrounding blanks, an optional sign, decimal digits.  Underscores between digits
  and digits outside ASCII are not modelled.
\<close>

definition strip_blanks :: "string \<Rightarrow> string" where
  "strip_blanks s =
     (let blank = (\<lambda>c. c \<in> {CHR '' '', CHR 0x09, CHR 0x0A, CHR 0x0B, CHR 0x0C, CHR 0x0D})
      in rev (dropWhile blank (rev (dropWhile blank s))))"

definition is_digits :: "string \<Rightarrow> bool" where
  "is_digits s \<longleftrightarrow> s \<noteq> [] \<and> list_all (\<lambda>c. c \<in> set ''0123456789'') s"

definition int_of_string :: "string \<Rightarrow> int res" where
  "int_of_string s =
     (let t = strip_blanks s;
          bad = Inl (ValueError (''invalid literal for int() with base 10: '' @ [CHR 39] @ s @ [CHR 39]))
      in case t of
           [] \<Rightarrow> bad
         | c # r \<Rightarrow>
             if c = CHR ''-'' then (if is_digits r then Inr (- int (nat_of_digits r)) else bad)
             else if c = CHR ''+'' then (if is_digits r then Inr (int (nat_of_digits r)) else bad)
             else (if is_digits t then Inr (int (nat_of_digits t)) else bad))"

lemma digit_cases: "d < 10 \<Longrightarrow> digit d \<in> set ''0123456789''"
proof -
  have "list_all (\<lambda>d. digit d \<in> set ''0123456789'') [0..<10]" by code_simp
  then show "d < 10 \<Longrightarrow> digit d \<in> set ''0123456789''"
    unfolding list_all_iff set_upt using atLeast0LessThan by blast
qed

lemma show_int_inj: "show_int i = show_int j \<longleftrightarrow> i = j"
proof -
  have no_sign: "show_nat n \<noteq> CHR ''-'' # s" for n s using show_nat_digits [of "CHR ''-''" n] digit_cases by force
  then have "CHR ''-'' # s \<noteq> show_nat n" for n s by metis
  then show ?thesis by (auto simp: show_int_def no_sign)
qed

lemma show_nat_nonempty [simp]: "show_nat n \<noteq> []"
  by (subst show_nat.simps) simp

lemma is_digits_show_nat [simp]: "is_digits (show_nat n)"
proof -
  have "c \<in> set ''0123456789''" if "c \<in> set (show_nat n)" for c
    using show_nat_digits [OF that] digit_cases by metis
  then show ?thesis unfolding is_digits_def list_all_iff using show_nat_nonempty by blast
qed

lemma dropWhile_none: "\<forall>c \<in> set s. \<not> P c \<Longrightarrow> dropWhile P s = s"
  by (cases s) auto

lemma strip_blanks_id:
  assumes "\<forall>c \<in> set s. c \<notin> {CHR '' '', CHR 0x09, CHR 0x0A, CHR 0x0B, CHR 0x0C, CHR 0x0D}"
  shows "strip_blanks s = s"
  unfolding strip_blanks_def Let_def using assms by (subst dropWhile_none, simp)+ simp

lemma int_of_string_show_nat [simp]: "int_of_string (show_nat n) = Inr (int n)"
proof -
  have d: "\<forall>c \<in> set (show_nat n). c \<in> set ''0123456789''"
    using is_digits_show_nat [of n] unfolding is_digits_def list_all_iff by blast
  then have s: "strip_blanks (show_nat n) = show_nat n"
    by (intro strip_blanks_id) (use d in force)
  obtain c r where e: "show_nat n = c # r" by (metis show_nat_nonempty list.exhaust)
  then have "c \<in> set ''0123456789''" using d by simp
  then have "c \<noteq> CHR ''-''" "c \<noteq> CHR ''+''" by auto
  then show ?thesis using s e is_digits_show_nat [of n] nat_of_digits_show_nat [of n]
    by (simp add: int_of_string_def)
qed

section \<open>Rounding\<close>

text \<open>Python's \<open>round\<close>: to the nearest, ties to even.\<close>

definition round_half_even :: "real \<Rightarrow> int" where
  "round_half_even x =
     (let f = \<lfloor>x\<rfloor>; d = x - of_int f
      in if d < 1/2 then f else if 1/2 < d then f + 1 else if even f then f else f + 1)"

definition py_round :: "nat \<Rightarrow> real \<Rightarrow> real" where
  "py_round n x = of_int (round_half_even (x * 10 ^ n)) / 10 ^ n"

lemma round_half_even_bound: "\<bar>of_int (round_half_even x) - x\<bar> \<le> 1/2"
proof -
  have f: "of_int \<lfloor>x\<rfloor> \<le> x" "x < of_int \<lfloor>x\<rfloor> + 1" by linarith+
  consider "x - of_int \<lfloor>x\<rfloor> < 1/2" | "1/2 < x - of_int \<lfloor>x\<rfloor>" | "x - of_int \<lfloor>x\<rfloor> = 1/2" by linarith
  then show ?thesis
  proof cases
    case 1
    then have "round_half_even x = \<lfloor>x\<rfloor>" by (simp add: round_half_even_def Let_def)
    with 1 f show ?thesis by linarith
  next
    case 2
    then have "of_int (round_half_even x) = of_int \<lfloor>x\<rfloor> + (1 :: real)" by (simp add: round_half_even_def Let_def)
    with 2 f show ?thesis by linarith
  next
    case 3
    then have "round_half_even x = \<lfloor>x\<rfloor> \<or> round_half_even x = \<lfloor>x\<rfloor> + 1" by (simp add: round_half_even_def Let_def)
    then have "of_int (round_half_even x) = (of_int \<lfloor>x\<rfloor> :: real) \<or> of_int (round_half_even x) = of_int \<lfloor>x\<rfloor> + (1 :: real)"
      by auto
    with 3 show ?thesis by linarith
  qed
qed

lemma py_round_bound: "\<bar>py_round n x - x\<bar> \<le> 1 / (2 * 10 ^ n)"
proof -
  have "\<bar>py_round n x - x\<bar> = \<bar>of_int (round_half_even (x * 10 ^ n)) - x * 10 ^ n\<bar> / 10 ^ n"
    by (simp add: py_round_def divide_simps abs_if)
  also have "\<dots> \<le> (1/2) / 10 ^ n" by (intro divide_right_mono round_half_even_bound) simp
  finally show ?thesis by simp
qed

section \<open>Handlers of the gRPC servers\<close>

text \<open>
  A handler runs in a thread of the server.  \<open>he_loop\<close> is \<open>asyncio.get_event_loop()\<close> in the thread of the handler, \<open>he_result\<close> the exception of a future
  that does not answer in time, and \<open>he_started\<close> tells whether the loop had begun the coroutine by then.
\<close>

record handler_env =
  he_loop :: "unit res"
  he_result :: "unit res"
  he_started :: bool

end
