(* ===== verification/Weights.thy ===== *)
theory Weights
  imports Prelude
begin

text \<open>
  Weight presets of \<open>aode/aode/scoring/weights.py\<close>: a preset is a named vector of four weights whose
  construction checks that they sum to one within a tolerance, and a table of three named presets.
\<close>

record WeightPreset =
  preset_name :: string
  w_lat :: real
  w_res :: real
  w_net :: real
  w_slo :: real

text \<open>\<open>math.isclose(a, b, abs_tol=t)\<close> with the default relative tolerance of \<open>1e-09\<close>.\<close>

definition isclose :: "real \<Rightarrow> real \<Rightarrow> real \<Rightarrow> bool" where
  "isclose a b abs_tol \<longleftrightarrow> \<bar>a - b\<bar> \<le> max (1 / 10 ^ 9 * max \<bar>a\<bar> \<bar>b\<bar>) abs_tol"

text \<open>
  The dataclass constructor with its \<open>__post_init__\<close>.  The total that the source prints at the end of the
  message is left out: printing of floats is not modelled.
\<close>

definition WeightPreset_new :: "string \<Rightarrow> real \<Rightarrow> real \<Rightarrow> real \<Rightarrow> real \<Rightarrow> WeightPreset res" where
  "WeightPreset_new name wl wr wn ws =
     (let total = wl + wr + wn + ws
      in if \<not> isclose total 1 (1 / 100)
         then Inl (ValueError (''Weight preset '' @ [CHR 39] @ name @ [CHR 39] @
                               '': weights must sum to 1.0''))
         else Inr \<lparr>preset_name = name, w_lat = wl, w_res = wr, w_net = wn, w_slo = ws\<rparr>)"

definition WEIGHT_PRESETS :: "(string, WeightPreset res) dict" where
  "WEIGHT_PRESETS =
     [(''latency-first'', WeightPreset_new ''latency-first'' (55/100) (10/100) (20/100) (15/100)),
      (''balanced'', WeightPreset_new ''balanced'' (30/100) (30/100) (20/100) (20/100)),
      (''resource-efficient'', WeightPreset_new ''resource-efficient'' (20/100) (50/100) (20/100) (10/100))]"

definition get_weight_preset :: "string \<Rightarrow> WeightPreset res" where
  "get_weight_preset name =
     (case dict_get WEIGHT_PRESETS name of
        None \<Rightarrow> Inl (ValueError (''Unknown weight preset '' @ [CHR 39] @ name @ [CHR 39] @ ''. Available: '' @
                   list_repr (dict_keys WEIGHT_PRESETS)))
      | Some p \<Rightarrow> p)"

definition create_custom_preset ::
    "string \<Rightarrow> real \<Rightarrow> real \<Rightarrow> real \<Rightarrow> real \<Rightarrow> WeightPreset res" where
  "create_custom_preset name wl wr wn ws = WeightPreset_new name wl wr wn ws"

text \<open>\<open>WeightConfig.from_preset\<close> builds the preset anew, through the same check.\<close>

definition from_preset :: "string \<Rightarrow> WeightPreset res" where
  "from_preset name =
     bind_res (get_weight_preset name) (\<lambda>p.
       WeightPreset_new (preset_name p) (w_lat p) (w_res p) (w_net p) (w_slo p))"

definition valid_preset :: "WeightPreset \<Rightarrow> bool" where
  "valid_preset p \<longleftrightarrow> \<bar>w_lat p + w_res p + w_net p + w_slo p - 1\<bar> \<le> 1 / 100"

section \<open>Lemmas\<close>

text \<open>
  Against one the absolute tolerance decides: where the relative one is the larger of the two, the
  totals are far from one.
\<close>

lemma isclose_one_iff: "isclose x 1 (1 / 100) \<longleftrightarrow> \<bar>x - 1\<bar> \<le> 1 / 100"
proof
  assume "isclose x 1 (1 / 100)"
  then have "\<bar>x - 1\<bar> \<le> 1 / 10 ^ 9 * max \<bar>x\<bar> 1 \<or> \<bar>x - 1\<bar> \<le> 1 / 100"
    unfolding isclose_def by (simp add: le_max_iff_disj)
  then show "\<bar>x - 1\<bar> \<le> 1 / 100" by (auto simp: max_def abs_if split: if_splits)
qed (simp add: isclose_def le_max_iff_disj)

lemma WeightPreset_new_Inr:
  "WeightPreset_new name wl wr wn ws = Inr p \<longleftrightarrow>
     \<bar>wl + wr + wn + ws - 1\<bar> \<le> 1 / 100 \<and>
     p = \<lparr>preset_name = name, w_lat = wl, w_res = wr, w_net = wn, w_slo = ws\<rparr>"
  by (auto simp: WeightPreset_new_def Let_def isclose_one_iff)

lemma get_weight_preset_values:
  "get_weight_preset ''balanced'' =
     Inr \<lparr>preset_name = ''balanced'', w_lat = 3/10, w_res = 3/10, w_net = 2/10, w_slo = 2/10\<rparr>"
  "get_weight_preset ''latency-first'' =
     Inr \<lparr>preset_name = ''latency-first'', w_lat = 55/100, w_res = 1/10, w_net = 2/10, w_slo = 15/100\<rparr>"
  "get_weight_preset ''resource-efficient'' =
     Inr \<lparr>preset_name = ''resource-efficient'', w_lat = 2/10, w_res = 5/10, w_net = 2/10, w_slo = 1/10\<rparr>"
  by (simp_all add: get_weight_preset_def WEIGHT_PRESETS_def WeightPreset_new_Inr)

lemma get_weight_preset_Inr:
  assumes "get_weight_preset name = Inr p"
  shows "preset_name p = name" "valid_preset p" "w_net p = 2/10"
    "0 < w_lat p" "0 < w_res p" "0 < w_slo p" "w_lat p + w_res p + w_net p + w_slo p = 1"
proof -
  have "name = ''latency-first'' \<or> name = ''balanced'' \<or> name = ''resource-efficient''"
    using assms by (auto simp: get_weight_preset_def WEIGHT_PRESETS_def split: if_splits)
  then show "preset_name p = name" "valid_preset p" "w_net p = 2/10"
    "0 < w_lat p" "0 < w_res p" "0 < w_slo p" "w_lat p + w_res p + w_net p + w_slo p = 1"
    using assms by (auto simp: get_weight_preset_values valid_preset_def)
qed

lemma from_preset_eq: "from_preset name = get_weight_preset name"
proof (cases "get_weight_preset name")
  case (Inr p)
  then show ?thesis
    using get_weight_preset_Inr(1,2,7) [OF Inr]
    by (simp add: from_preset_def WeightPreset_new_Inr valid_preset_def)
qed (simp add: from_preset_def)

end
