(* ===== verification/Telemetry.thy ===== *)
theory Telemetry
  imports Prelude
begin

text \<open>
  The telemetry collector of \<open>aode/aode/telemetry/collector.py\<close> and the settings of
  \<open>aode/aode/config.py\<close> that the decision engine reads.  The answer of an edge node's RPC, the measured
  latency and the wall clock are inputs; everything the collector does with them is modelled.
\<close>

section \<open>Settings\<close>

record AODEConfig =
  instance_id :: string
  cluster_id :: string
  aode_grpc_port :: int
  etcd_endpoints :: "string list"
  etcd_key_prefix :: string
  leader_election_ttl :: int
  telemetry_interval_s :: int
  telemetry_timeout_s :: int
  recalibration_interval_s :: int
  recalibration_enabled :: bool
  kappa :: real
  delta_h :: real
  lookahead_horizon_s :: int
  slo_penalty_factor :: int
  default_weight_preset :: string
  hea_discovery_method :: string
  hea_endpoints :: "string list"
  flink_connector_endpoint :: string
  migration_timeout_s :: int
  drain_timeout_s :: int
  aode_minio_endpoint :: string
  aode_minio_access_key :: string
  aode_minio_secret_key :: string
  aode_minio_bucket :: string

text \<open>The defaults of the fields, with no environment variable set.\<close>

definition AODEConfig_default :: AODEConfig where
  "AODEConfig_default =
     \<lparr>instance_id = ''aode-1'', cluster_id = ''default'', aode_grpc_port = 50055,
      etcd_endpoints = [''http://etcd:2379''], etcd_key_prefix = ''/aode/'', leader_election_ttl = 30,
      telemetry_interval_s = 5, telemetry_timeout_s = 2,
      recalibration_interval_s = 5, recalibration_enabled = True,
      kappa = 2, delta_h = 15/100, lookahead_horizon_s = 30, slo_penalty_factor = 10,
      default_weight_preset = ''balanced'', hea_discovery_method = ''static'',
      hea_endpoints = [''hea-node-1:50051'', ''hea-node-2:50051'', ''hea-node-3:50051'', ''hea-node-4:50051''],
      flink_connector_endpoint = ''flink-connector:50053'', migration_timeout_s = 300, drain_timeout_s = 60,
      aode_minio_endpoint = ''http://minio:9000'', aode_minio_access_key = ''hybridstream'',
      aode_minio_secret_key = ''hybridstream123'', aode_minio_bucket = ''hybridstream-snapshots''\<rparr>"

section \<open>State\<close>

record HEATelemetry =
  hea_id :: string
  cpu_utilization :: real
  memory_utilization :: real
  rtt_ms :: real
  ingest_rate_eps :: real
  operator_p95_ms :: "(string, real) dict"
  timestamp_ms :: int
  reachable :: bool
  collection_latency_ms :: real

text \<open>The message an edge node answers with (\<open>TelemetryResponse\<close> of the protocol).\<close>

record TelemetryResponse =
  r_cpu_utilization :: real
  r_memory_utilization :: real
  r_ingest_rate_eps :: real
  r_operator_p95_ms :: "(string, real) dict"
  r_timestamp_ms :: int
  r_reachable :: bool

text \<open>The collector's \<open>_last_telemetry\<close>.\<close>

type_synonym collector = "(string, HEATelemetry) dict"

definition unreachable_telemetry :: "string \<Rightarrow> int \<Rightarrow> HEATelemetry" where
  "unreachable_telemetry hid ts =
     \<lparr>hea_id = hid, cpu_utilization = 0, memory_utilization = 0, rtt_ms = 1000, ingest_rate_eps = 0,
      operator_p95_ms = [], timestamp_ms = ts, reachable = False, collection_latency_ms = 0\<rparr>"

definition register_hea :: "string \<Rightarrow> collector \<Rightarrow> collector" where
  "register_hea hid tel =
     (if dict_get tel hid = None then dict_set hid (unreachable_telemetry hid 0) tel else tel)"

text \<open>\<open>hea_endpoint.split(":")[0]\<close>\<close>

definition endpoint_host :: "string \<Rightarrow> string" where
  "endpoint_host ep = takeWhile (\<lambda>c. c \<noteq> CHR '':'') ep"

definition TelemetryCollector_init :: "AODEConfig \<Rightarrow> collector" where
  "TelemetryCollector_init cfg =
     foldl (\<lambda>tel ep. register_hea (endpoint_host ep) tel) [] (hea_endpoints cfg)"

definition get_latest_telemetry :: "collector \<Rightarrow> (string, HEATelemetry) dict" where
  "get_latest_telemetry tel = tel"

definition get_reachable_heas :: "collector \<Rightarrow> string list" where
  "get_reachable_heas tel = map fst (filter (\<lambda>p. reachable (snd p)) tel)"

definition get_tier_utilization :: "collector \<Rightarrow> string \<Rightarrow> real \<times> real" where
  "get_tier_utilization tel hid =
     (case dict_get tel hid of
        None \<Rightarrow> (9/10, 9/10)
      | Some t \<Rightarrow> if \<not> reachable t then (9/10, 9/10) else (cpu_utilization t, memory_utilization t))"

definition operator_latencies :: "collector \<Rightarrow> string \<Rightarrow> real list" where
  "operator_latencies tel oid =
     List.map_filter (\<lambda>t. if reachable t then dict_get (operator_p95_ms t) oid else None) (map snd tel)"

definition get_operator_latency :: "collector \<Rightarrow> string \<Rightarrow> real option" where
  "get_operator_latency tel oid =
     (let latencies = operator_latencies tel oid
      in if latencies = [] then None else Some (Max (set latencies)))"

section \<open>Collection\<close>

text \<open>
  \<open>_collect_one\<close>: \<open>answer\<close> is what awaiting the node's RPC gives (\<open>Inl\<close>: the exception, which also
  covers a node without a stub), \<open>lat\<close> the measured round trip, \<open>now\<close> the wall clock in milliseconds.
\<close>

definition collect_one :: "string \<Rightarrow> TelemetryResponse res \<Rightarrow> real \<Rightarrow> int \<Rightarrow> HEATelemetry" where
  "collect_one hid answer lat now =
     (case answer of
        Inr r \<Rightarrow>
          \<lparr>hea_id = hid, cpu_utilization = r_cpu_utilization r,
           memory_utilization = r_memory_utilization r, rtt_ms = lat,
           ingest_rate_eps = r_ingest_rate_eps r, operator_p95_ms = r_operator_p95_ms r,
           timestamp_ms = r_timestamp_ms r, reachable = r_reachable r, collection_latency_ms = lat\<rparr>
      | Inl e \<Rightarrow> unreachable_telemetry hid now)"

text \<open>\<open>_collect_all\<close>: one node after the other, over the keys as they were at the start.\<close>

definition collect_all ::
    "(string \<Rightarrow> TelemetryResponse res \<times> real \<times> int) \<Rightarrow> collector \<Rightarrow> collector" where
  "collect_all probe tel =
     foldl (\<lambda>t hid. case probe hid of (answer, lat, now) \<Rightarrow> dict_set hid (collect_one hid answer lat now) t)
       tel (dict_keys tel)"

section \<open>Invariant and lemmas\<close>

text \<open>Every entry is filed under its own identifier, once.\<close>

definition wf_collector :: "collector \<Rightarrow> bool" where
  "wf_collector tel \<longleftrightarrow> wf_dict tel \<and> list_all (\<lambda>p. hea_id (snd p) = fst p) tel"

lemma hea_id_simps [simp]:
  "hea_id (unreachable_telemetry hid ts) = hid"
  "hea_id (collect_one hid answer lat now) = hid"
  by (auto simp: unreachable_telemetry_def collect_one_def split: sum.splits)

lemma wf_collector_set:
  "wf_collector tel \<Longrightarrow> hea_id t = hid \<Longrightarrow> wf_collector (AList.update hid t tel)"
  by (auto simp: wf_collector_def list_all_iff set_update_wf)

lemma wf_collector_register: "wf_collector tel \<Longrightarrow> wf_collector (register_hea hid tel)"
  by (simp add: register_hea_def wf_collector_set)

lemma wf_collector_init: "wf_collector (TelemetryCollector_init cfg)"
proof -
  have "wf_collector (foldl (\<lambda>tel ep. register_hea (endpoint_host ep) tel) tel eps)"
    if "wf_collector tel" for tel eps
    using that by (induction eps arbitrary: tel) (auto simp: wf_collector_register)
  then show ?thesis by (simp add: TelemetryCollector_init_def wf_collector_def)
qed

lemma fold_collect_get:
  "map_of (foldl (\<lambda>t hid. case probe hid of (answer, lat, now) \<Rightarrow>
       AList.update hid (collect_one hid answer lat now) t) tel hids) k =
   (if k \<in> set hids then (case probe k of (answer, lat, now) \<Rightarrow> Some (collect_one k answer lat now))
    else map_of tel k)"
  by (induction hids arbitrary: tel) (auto simp: dict_simps split: prod.splits)

lemma fold_collect_keys:
  "set hids \<subseteq> fst ` set tel \<Longrightarrow>
   map fst (foldl (\<lambda>t hid. case probe hid of (answer, lat, now) \<Rightarrow>
       AList.update hid (collect_one hid answer lat now) t) tel hids) = map fst tel"
proof (induction hids arbitrary: tel)
  case (Cons hid hids)
  obtain a l n where p: "probe hid = (a, l, n)" by (cases "probe hid") auto
  have k: "map fst (AList.update hid (collect_one hid a l n) tel) = map fst tel"
    using Cons.prems by (simp add: dict_simps)
  then have "fst ` set (AList.update hid (collect_one hid a l n) tel) = fst ` set tel"
    by (metis list.set_map)
  with Cons k p show ?case by simp
qed simp

lemma collect_all_get:
  "map_of (collect_all probe tel) k =
   (if k \<in> fst ` set tel then (case probe k of (answer, lat, now) \<Rightarrow> Some (collect_one k answer lat now))
    else None)"
  unfolding collect_all_def fold_collect_get by (simp add: map_of_eq_None_iff)

lemma collect_all_keys: "map fst (collect_all probe tel) = map fst tel"
  unfolding collect_all_def by (rule fold_collect_keys) simp

lemma wf_collector_collect_all: "wf_collector tel \<Longrightarrow> wf_collector (collect_all probe tel)"
proof -
  assume wf: "wf_collector tel"
  have "wf_collector (foldl (\<lambda>t hid. case probe hid of (answer, lat, now) \<Rightarrow>
      AList.update hid (collect_one hid answer lat now) t) t hids)" if "wf_collector t" for t hids
    using that by (induction hids arbitrary: t) (auto simp: wf_collector_set split: prod.splits)
  with wf show ?thesis by (simp add: collect_all_def)
qed

lemma operator_latencies_set:
  "wf_dict tel \<Longrightarrow> x \<in> set (operator_latencies tel oid) \<longleftrightarrow>
     (\<exists>hid t. dict_get tel hid = Some t \<and> reachable t \<and> dict_get (operator_p95_ms t) oid = Some x)"
proof -
  assume wf: "wf_dict tel"
  have "x \<in> set (operator_latencies tel oid) \<longleftrightarrow>
      (\<exists>p \<in> set tel. reachable (snd p) \<and> dict_get (operator_p95_ms (snd p)) oid = Some x)"
    unfolding operator_latencies_def by (induction tel) (auto split: option.splits)
  also have "\<dots> \<longleftrightarrow>
      (\<exists>hid t. dict_get tel hid = Some t \<and> reachable t \<and> dict_get (operator_p95_ms t) oid = Some x)"
    by (rule ex_value_iff [OF wf])
  finally show ?thesis .
qed

text \<open>
  The latency of an operator is the worst one any reachable node reports; unreachable nodes do not
  count.
\<close>

lemma get_operator_latency_Some:
  assumes "wf_dict tel" "get_operator_latency tel oid = Some x"
  shows "(\<exists>hid t. dict_get tel hid = Some t \<and> reachable t \<and> dict_get (operator_p95_ms t) oid = Some x)"
    and "dict_get tel hid = Some t \<Longrightarrow> reachable t \<Longrightarrow> dict_get (operator_p95_ms t) oid = Some y \<Longrightarrow> y \<le> x"
proof -
  have ne: "operator_latencies tel oid \<noteq> []" and x: "x = Max (set (operator_latencies tel oid))"
    using assms(2) by (auto simp: get_operator_latency_def Let_def split: if_splits)
  then have "x \<in> set (operator_latencies tel oid)" by simp
  then show "\<exists>hid t. dict_get tel hid = Some t \<and> reachable t \<and> dict_get (operator_p95_ms t) oid = Some x"
    using operator_latencies_set [OF assms(1)] by simp
  assume "dict_get tel hid = Some t" "reachable t" "dict_get (operator_p95_ms t) oid = Some y"
  then have "y \<in> set (operator_latencies tel oid)"
    using operator_latencies_set [OF assms(1)] by blast
  then show "y \<le> x" by (simp add: x)
qed

end
