(* ===== verification/Scoring.thy ===== *)
theory Scoring
  imports Weights Telemetry "HOL-Library.Product_Lexorder" "HOL-Library.Multiset"
begin

text \<open>
  Scores and placement of \<open>aode/aode/scoring/algorithm.py\<close>: the four cost terms of an operator on a tier,
  the score matrix, and the greedy assignment of operators to tiers under capacities.
\<close>

section \<open>The scoring algorithm\<close>

record ScoringAlgorithm =
  s_config :: AODEConfig
  s_weights :: WeightPreset

definition ScoringAlgorithm_init :: "AODEConfig \<Rightarrow> ScoringAlgorithm res" where
  "ScoringAlgorithm_init cfg =
     bind_res (get_weight_preset (default_weight_preset cfg)) (\<lambda>w.
       Inr \<lparr>s_config = cfg, s_weights = w\<rparr>)"

text \<open>\<open>set_weights\<close> raises before it assigns, so a failed call leaves the weights alone.\<close>

definition set_weights :: "string \<Rightarrow> ScoringAlgorithm \<Rightarrow> ScoringAlgorithm res" where
  "set_weights name sc = bind_res (get_weight_preset name) (\<lambda>w. Inr (sc\<lparr>s_weights := w\<rparr>))"

definition lambda_weights :: "(string, real) dict" where
  "lambda_weights = [(''critical'', 3), (''standard'', 1), (''batch'', 1/10)]"

text \<open>\<open>get_operator_latency(op) or 1.0\<close>: also a latency of zero counts as missing.\<close>

definition observed_latency :: "collector \<Rightarrow> string \<Rightarrow> real" where
  "observed_latency tel op =
     (case get_operator_latency tel op of None \<Rightarrow> 1 | Some x \<Rightarrow> if x = 0 then 1 else x)"

definition compute_phi_lat :: "collector \<Rightarrow> string \<Rightarrow> string \<Rightarrow> string \<Rightarrow> real" where
  "compute_phi_lat tel op tier lclass =
     dict_get_default lambda_weights lclass 1 * observed_latency tel op"

definition compute_phi_res :: "AODEConfig \<Rightarrow> collector \<Rightarrow> string \<Rightarrow> real" where
  "compute_phi_res cfg tel tier =
     (let (cpu, mem) = get_tier_utilization tel tier;
          rho = min (max cpu mem) (99/100)
      in kappa cfg * rho / (1 - rho))"

definition compute_phi_net :: "collector \<Rightarrow> string \<Rightarrow> real" where
  "compute_phi_net tel tier =
     (if tier = ''cloud'' then 0
      else case dict_get (get_latest_telemetry tel) tier of
             Some t \<Rightarrow> if reachable t then rtt_ms t else 1000
           | None \<Rightarrow> 1000)"

text \<open>An objective of zero milliseconds divides by zero as soon as any latency is above it.\<close>

definition compute_phi_slo :: "AODEConfig \<Rightarrow> collector \<Rightarrow> string \<Rightarrow> string \<Rightarrow> real option \<Rightarrow> real res" where
  "compute_phi_slo cfg tel op tier slo =
     (let slo = (case slo of None \<Rightarrow> 3600 * 1000 | Some s \<Rightarrow> s);
          observed = observed_latency tel op
      in if observed \<le> slo then Inr 0
         else if slo = 0 then Inl ZeroDivisionError
         else Inr (of_int (slo_penalty_factor cfg) * ((observed - slo) / slo)))"

definition score_cell :: "ScoringAlgorithm \<Rightarrow> collector \<Rightarrow> string \<Rightarrow> string \<Rightarrow> real option \<Rightarrow> string \<Rightarrow> real res" where
  "score_cell sc tel op lclass slo tier =
     bind_res (compute_phi_slo (s_config sc) tel op tier slo) (\<lambda>phi_slo.
       Inr (w_lat (s_weights sc) * compute_phi_lat tel op tier lclass
          + w_res (s_weights sc) * compute_phi_res (s_config sc) tel tier
          + w_net (s_weights sc) * compute_phi_net tel tier
          + w_slo (s_weights sc) * phi_slo))"

text \<open>\<open>slo_map.get(op)\<close> is \<open>None\<close> both for a missing operator and for one stored with \<open>None\<close>.\<close>

definition compute_scores ::
    "ScoringAlgorithm \<Rightarrow> collector \<Rightarrow> string list \<Rightarrow> string list \<Rightarrow>
     (string, real option) dict \<Rightarrow> (string, string) dict \<Rightarrow> real list list res" where
  "compute_scores sc tel ops tiers slo_map lambda_map =
     mapM_res (\<lambda>op. mapM_res
       (score_cell sc tel op (dict_get_default lambda_map op ''standard'')
          (dict_get_default slo_map op None)) tiers) ops"

section \<open>Greedy placement\<close>

definition row_min :: "real list list \<Rightarrow> nat \<Rightarrow> real res" where
  "row_min scores i =
     (if length scores \<le> i then Inl IndexError
      else if scores ! i = [] then
        Inl (ValueError ''zero-size array to reduction operation minimum which has no identity'')
      else Inr (Min (set (scores ! i))))"

definition score_at :: "real list list \<Rightarrow> nat \<Rightarrow> nat \<Rightarrow> real res" where
  "score_at scores i j =
     (if length scores \<le> i \<or> length (scores ! i) \<le> j then Inl IndexError else Inr (scores ! i ! j))"

text \<open>The search for the first tier, in order of score, that still has room.\<close>

fun pick_tier :: "string list \<Rightarrow> (string, int) dict \<Rightarrow> (string, int) dict \<Rightarrow> (real \<times> nat) list \<Rightarrow>
    string option res" where
  "pick_tier tiers caps usage [] = Inr None"
| "pick_tier tiers caps usage ((s, j) # rest) =
     (let tier = tiers ! j
      in case (dict_get usage tier, dict_get caps tier) of
           (Some u, Some c) \<Rightarrow> if u < c then Inr (Some tier) else pick_tier tiers caps usage rest
         | _ \<Rightarrow> Inl (KeyError tier))"

fun place_ops :: "real list list \<Rightarrow> string list \<Rightarrow> string list \<Rightarrow> (string, int) dict \<Rightarrow> nat list \<Rightarrow>
    (string, string) dict \<times> (string, int) dict \<Rightarrow> ((string, string) dict \<times> (string, int) dict) res" where
  "place_ops scores ops tiers caps [] (placement, usage) = Inr (placement, usage)"
| "place_ops scores ops tiers caps (i # is) (placement, usage) =
     bind_res (mapM_res (\<lambda>j. bind_res (score_at scores i j) (\<lambda>s. Inr (s, j))) [0..<length tiers]) (\<lambda>row.
     bind_res (pick_tier tiers caps usage (sort row)) (\<lambda>choice.
       place_ops scores ops tiers caps is
         (case choice of
            Some tier \<Rightarrow>
              (dict_set (ops ! i) tier placement,
               dict_set tier (dict_get_default usage tier 0 + 1) usage)
          | None \<Rightarrow> (dict_set (ops ! i) ''cloud'' placement, usage))))"

text \<open>
  The operators in descending order of their cheapest tier; Python's sort with \<open>reverse=True\<close> keeps the
  order of equal elements, as a stable sort by the negated key does.
\<close>

definition priority_order :: "(nat \<times> real) list \<Rightarrow> nat list" where
  "priority_order mins = map fst (sort_key (\<lambda>x. - snd x) mins)"

definition find_optimal_placement ::
    "real list list \<Rightarrow> string list \<Rightarrow> string list \<Rightarrow> (string, int) dict \<Rightarrow> (string, string) dict res" where
  "find_optimal_placement scores ops tiers caps =
     bind_res (mapM_res (\<lambda>i. bind_res (row_min scores i) (\<lambda>m. Inr (i, m))) [0..<length ops]) (\<lambda>mins.
     bind_res (place_ops scores ops tiers caps (priority_order mins)
                 ([], dict_of (map (\<lambda>t. (t, 0)) tiers) [])) (\<lambda>(placement, usage).
       Inr placement))"

section \<open>Lemmas on scores\<close>

lemma score_cell_Inr:
  "score_cell sc tel op lclass slo tier = Inr x \<longleftrightarrow>
     (\<exists>p. compute_phi_slo (s_config sc) tel op tier slo = Inr p \<and>
       x = w_lat (s_weights sc) * compute_phi_lat tel op tier lclass
         + w_res (s_weights sc) * compute_phi_res (s_config sc) tel tier
         + w_net (s_weights sc) * compute_phi_net tel tier + w_slo (s_weights sc) * p)"
  by (auto simp: score_cell_def res_simps)

lemma compute_phi_slo_tier: "compute_phi_slo cfg tel op tier slo = compute_phi_slo cfg tel op tier' slo"
  by (simp add: compute_phi_slo_def)

lemma compute_phi_slo_ok: "slo \<noteq> Some 0 \<Longrightarrow> \<exists>p. compute_phi_slo cfg tel op tier slo = Inr p"
  by (auto simp: compute_phi_slo_def Let_def split: option.splits)

lemma score_cell_diff:
  assumes "score_cell sc tel op lclass slo t1 = Inr x" "score_cell sc tel op lclass slo t2 = Inr y"
  shows "x - y =
      w_res (s_weights sc) * (compute_phi_res (s_config sc) tel t1 - compute_phi_res (s_config sc) tel t2)
    + w_net (s_weights sc) * (compute_phi_net tel t1 - compute_phi_net tel t2)"
  using assms compute_phi_slo_tier [of "s_config sc" tel op t1 slo t2]
  by (auto simp: score_cell_Inr compute_phi_lat_def algebra_simps)

lemma compute_scores_nth:
  assumes "compute_scores sc tel ops tiers slo_map lambda_map = Inr scores" "i < length ops"
  shows "length scores = length ops" "length (scores ! i) = length tiers"
    and "j < length tiers \<Longrightarrow>
      score_cell sc tel (ops ! i) (dict_get_default lambda_map (ops ! i) ''standard'')
        (dict_get_default slo_map (ops ! i) None) (tiers ! j) = Inr (scores ! i ! j)"
proof -
  have row: "mapM_res (score_cell sc tel (ops ! i) (dict_get_default lambda_map (ops ! i) ''standard'')
      (dict_get_default slo_map (ops ! i) None)) tiers = Inr (scores ! i)"
    using mapM_res_nth [OF assms(1) [unfolded compute_scores_def] assms(2)] .
  show "length scores = length ops"
    using assms(1) unfolding compute_scores_def by (rule mapM_res_length)
  show "length (scores ! i) = length tiers"
    using row by (rule mapM_res_length)
  show "j < length tiers \<Longrightarrow>
      score_cell sc tel (ops ! i) (dict_get_default lambda_map (ops ! i) ''standard'')
        (dict_get_default slo_map (ops ! i) None) (tiers ! j) = Inr (scores ! i ! j)"
    using mapM_res_nth [OF row] .
qed

lemma mapM_res_total:
  "(\<And>x. x \<in> set xs \<Longrightarrow> \<exists>y. f x = Inr y) \<Longrightarrow> \<exists>ys. mapM_res f xs = Inr ys"
proof (induction xs)
  case (Cons x xs)
  obtain y where "f x = Inr y" using Cons.prems by auto
  moreover obtain ys where "mapM_res f xs = Inr ys" using Cons by auto
  ultimately show ?case by simp
qed simp

lemma compute_scores_total:
  assumes "\<And>op. op \<in> set ops \<Longrightarrow> dict_get_default slo_map op None \<noteq> Some 0"
  shows "\<exists>scores. compute_scores sc tel ops tiers slo_map lambda_map = Inr scores"
  unfolding compute_scores_def
proof (intro mapM_res_total)
  fix op tier assume "op \<in> set ops"
  then obtain p where "compute_phi_slo (s_config sc) tel op tier (dict_get_default slo_map op None) = Inr p"
    using compute_phi_slo_ok assms by blast
  then show "\<exists>y. score_cell sc tel op (dict_get_default lambda_map op ''standard'')
      (dict_get_default slo_map op None) tier = Inr y"
    by (auto simp: score_cell_Inr)
qed

definition tier_load_factor :: "collector \<Rightarrow> string \<Rightarrow> real" where
  "tier_load_factor tel t =
     min (max (fst (get_tier_utilization tel t)) (snd (get_tier_utilization tel t))) (99/100)"

lemma compute_phi_res_eq:
  "compute_phi_res cfg tel t = kappa cfg * (tier_load_factor tel t / (1 - tier_load_factor tel t))"
  by (cases "get_tier_utilization tel t") (simp add: compute_phi_res_def tier_load_factor_def Let_def)

lemma queue_factor_mono: "x \<le> y \<Longrightarrow> y \<le> 99/100 \<Longrightarrow> x / (1 - x) \<le> y / (1 - y :: real)"
  by (simp add: divide_simps) (simp add: algebra_simps)

lemma compute_phi_res_mono:
  assumes "0 \<le> kappa cfg" "tier_load_factor tel t \<le> tier_load_factor tel' t'"
  shows "compute_phi_res cfg tel t \<le> compute_phi_res cfg tel' t'"
  unfolding compute_phi_res_eq
  by (intro mult_left_mono queue_factor_mono assms) (simp add: tier_load_factor_def)

lemma compute_phi_res_bounds:
  assumes "0 \<le> kappa cfg" "0 \<le> tier_load_factor tel t"
  shows "0 \<le> compute_phi_res cfg tel t" "compute_phi_res cfg tel t \<le> 99 * kappa cfg"
proof -
  have le: "tier_load_factor tel t \<le> 99/100" by (simp add: tier_load_factor_def)
  have "0 \<le> tier_load_factor tel t / (1 - tier_load_factor tel t)"
    using assms(2) le by (intro divide_nonneg_pos) auto
  moreover have "tier_load_factor tel t / (1 - tier_load_factor tel t) \<le> 99"
    using queue_factor_mono [OF le order_refl] by simp
  ultimately show "0 \<le> compute_phi_res cfg tel t" "compute_phi_res cfg tel t \<le> 99 * kappa cfg"
    unfolding compute_phi_res_eq mult.commute [of 99]
    using mult_nonneg_nonneg [OF assms(1)] mult_left_mono [OF _ assms(1)] by blast+
qed

section \<open>Lemmas on the greedy loop\<close>

definition full_tier :: "(string, int) dict \<Rightarrow> (string, int) dict \<Rightarrow> string \<Rightarrow> bool" where
  "full_tier caps usage t \<longleftrightarrow>
     (case (dict_get usage t, dict_get caps t) of (Some u, Some c) \<Rightarrow> c \<le> u | _ \<Rightarrow> False)"

definition tier_load :: "(string, string) dict \<Rightarrow> string \<Rightarrow> nat" where
  "tier_load placement t = length (filter (\<lambda>p. snd p = t) placement)"

lemma pick_tier_None:
  "pick_tier tiers caps usage row = Inr None \<Longrightarrow> (s, j) \<in> set row \<Longrightarrow> full_tier caps usage (tiers ! j)"
proof (induction tiers caps usage row rule: pick_tier.induct)
  case (2 tiers caps usage s' j' rest)
  obtain u c where uc: "dict_get usage (tiers ! j') = Some u" "dict_get caps (tiers ! j') = Some c"
    using "2.prems" by (auto simp: Let_def split: option.splits)
  with "2.prems" have "\<not> u < c" "pick_tier tiers caps usage rest = Inr None"
    by (auto simp: Let_def split: if_splits)
  with "2.IH" "2.prems" uc show ?case by (auto simp: full_tier_def)
qed simp

lemma pick_tier_Some:
  assumes "pick_tier tiers caps usage row = Inr (Some t)"
  shows "\<exists>s j pre post u c. row = pre @ (s, j) # post \<and> t = tiers ! j \<and>
     dict_get usage t = Some u \<and> dict_get caps t = Some c \<and> u < c \<and>
     (\<forall>(s', j') \<in> set pre. full_tier caps usage (tiers ! j'))"
  using assms
proof (induction tiers caps usage row rule: pick_tier.induct)
  case (2 tiers caps usage s j rest)
  obtain u c where uc: "dict_get usage (tiers ! j) = Some u" "dict_get caps (tiers ! j) = Some c"
    using "2.prems" by (auto simp: Let_def split: option.splits)
  show ?case
  proof (cases "u < c")
    case True
    with "2.prems" uc have "t = tiers ! j" by (simp add: Let_def)
    with True uc show ?thesis
      by (intro exI [of _ s] exI [of _ j] exI [of _ "[]"] exI [of _ rest]) auto
  next
    case False
    with "2.prems" uc have "pick_tier tiers caps usage rest = Inr (Some t)" by (simp add: Let_def)
    from "2.IH" [OF refl refl uc False this] obtain s' j' pre post u' c' where
      *: "rest = pre @ (s', j') # post" "t = tiers ! j'" "dict_get usage t = Some u'"
        "dict_get caps t = Some c'" "u' < c'" "\<forall>(s', j') \<in> set pre. full_tier caps usage (tiers ! j')"
      by blast
    moreover have "full_tier caps usage (tiers ! j)" using False uc by (simp add: full_tier_def)
    ultimately show ?thesis
      by (intro exI [of _ s'] exI [of _ j'] exI [of _ "(s, j) # pre"] exI [of _ post]
          exI [of _ u'] exI [of _ c']) simp
  qed
qed simp

text \<open>The row of one operator, as the loop builds it.\<close>

lemma score_row:
  assumes "mapM_res (\<lambda>j. bind_res (score_at scores i j) (\<lambda>s. Inr (s, j))) [0..<m] = Inr row"
  shows "row = map (\<lambda>j. (scores ! i ! j, j)) [0..<m]"
proof (rule nth_equalityI)
  show len: "length row = length (map (\<lambda>j. (scores ! i ! j, j)) [0..<m])"
    using mapM_res_length [OF assms] by simp
  fix j assume "j < length row"
  then show "row ! j = map (\<lambda>j. (scores ! i ! j, j)) [0..<m] ! j"
    using mapM_res_nth [OF assms, of j] len
    by (auto simp: res_simps score_at_def split: if_splits)
qed

text \<open>
  What one pass of the loop chooses: a tier with room, all strictly cheaper tiers being full; or, when
  every tier is full, the fallback.
\<close>

lemma choice_cases:
  assumes row: "mapM_res (\<lambda>j. bind_res (score_at scores i j) (\<lambda>s. Inr (s, j))) [0..<length tiers] = Inr row"
    and pick: "pick_tier tiers caps usage (sort row) = Inr choice"
  shows "(choice = None \<and> (\<forall>t \<in> set tiers. full_tier caps usage t)) \<or>
    (\<exists>j u c. choice = Some (tiers ! j) \<and> j < length tiers \<and> dict_get usage (tiers ! j) = Some u \<and>
       dict_get caps (tiers ! j) = Some c \<and> u < c \<and>
       (\<forall>j' < length tiers. scores ! i ! j' < scores ! i ! j \<longrightarrow> full_tier caps usage (tiers ! j')))"
proof (cases choice)
  case None
  have "full_tier caps usage (tiers ! j)" if "j < length tiers" for j
    using pick_tier_None [of tiers caps usage "sort row" "scores ! i ! j" j] pick None that
    by (simp add: score_row [OF row])
  then show ?thesis using None by (auto simp: in_set_conv_nth)
next
  case (Some t)
  from pick_tier_Some [OF pick [unfolded Some]] obtain s j pre post u c where
    *: "sort row = pre @ (s, j) # post" "t = tiers ! j" "dict_get usage t = Some u"
      "dict_get caps t = Some c" "u < c" "\<forall>(s', j') \<in> set pre. full_tier caps usage (tiers ! j')"
    by blast
  have "(s, j) \<in> set row" using *(1) by (metis in_set_conv_decomp set_sort)
  then have sj: "j < length tiers" "s = scores ! i ! j" by (auto simp: score_row [OF row])
  have "full_tier caps usage (tiers ! j')" if j': "j' < length tiers" "scores ! i ! j' < s" for j'
  proof -
    have "(scores ! i ! j', j') \<in> set (sort row)" using j' by (simp add: score_row [OF row])
    moreover have "sorted (pre @ (s, j) # post)" by (metis *(1) sorted_sort)
    ultimately have "(scores ! i ! j', j') \<in> set pre"
      using j'(2) *(1) by (auto simp: sorted_append less_eq_prod_def)
    with *(6) show ?thesis by auto
  qed
  with * sj Some show ?thesis by blast
qed

lemma place_ops_step:
  assumes "place_ops scores ops tiers caps (i # is) (P, U) = Inr r"
  obtains row choice where
    "mapM_res (\<lambda>j. bind_res (score_at scores i j) (\<lambda>s. Inr (s, j))) [0..<length tiers] = Inr row"
    and "pick_tier tiers caps U (sort row) = Inr choice"
    and "place_ops scores ops tiers caps is
         (case choice of
            Some tier \<Rightarrow> (dict_set (ops ! i) tier P, dict_set tier (dict_get_default U tier 0 + 1) U)
          | None \<Rightarrow> (dict_set (ops ! i) ''cloud'' P, U)) = Inr r"
  using assms by (auto simp: res_simps)

lemma update_fresh: "k \<notin> fst ` set d \<Longrightarrow> AList.update k v d = d @ [(k, v)]"
  by (induction d) auto

text \<open>
  The loop invariant.  \<open>done\<close> lists the operators already placed, in the order of their placement; usage
  counts the load of a tier (the fallback to the cloud is not counted) and stays within capacity; and
  whatever was full when an operator passed it by is still full, with no later arrival.
\<close>

definition settled :: "real list list \<Rightarrow> string list \<Rightarrow> (string, int) dict \<Rightarrow> (string, string) dict \<Rightarrow>
    (string, int) dict \<Rightarrow> nat \<Rightarrow> nat \<Rightarrow> bool" where
  "settled scores tiers caps P U k i \<longleftrightarrow>
     (\<forall>t'. t' \<in> set tiers \<and>
        (snd (P ! k) \<notin> set tiers \<or>
         (\<exists>j j'. j < length tiers \<and> j' < length tiers \<and> snd (P ! k) = tiers ! j \<and> t' = tiers ! j' \<and>
            scores ! i ! j' < scores ! i ! j)) \<longrightarrow>
        full_tier caps U t' \<and>
        (t' \<noteq> ''cloud'' \<longrightarrow> (\<forall>k'. k < k' \<and> k' < length P \<longrightarrow> snd (P ! k') \<noteq> t')))"

definition usage_ok :: "string list \<Rightarrow> (string, int) dict \<Rightarrow> (string, string) dict \<Rightarrow> (string, int) dict \<Rightarrow> bool" where
  "usage_ok tiers caps P U \<longleftrightarrow>
     (\<forall>t. map_of U t \<noteq> None \<longleftrightarrow> t \<in> set tiers) \<and>
     (\<forall>t u. map_of U t = Some u \<longrightarrow>
        u \<le> int (tier_load P t) \<and> (t \<noteq> ''cloud'' \<longrightarrow> u = int (tier_load P t)) \<and>
        (\<forall>c. map_of caps t = Some c \<longrightarrow> u \<le> max 0 c)) \<and>
     (\<forall>p \<in> set P. snd p \<in> set tiers \<or> snd p = ''cloud'')"

definition greedy_inv :: "real list list \<Rightarrow> string list \<Rightarrow> string list \<Rightarrow> (string, int) dict \<Rightarrow> nat list \<Rightarrow>
    (string, string) dict \<Rightarrow> (string, int) dict \<Rightarrow> bool" where
  "greedy_inv scores ops tiers caps done P U \<longleftrightarrow>
     map fst P = map ((!) ops) done \<and> usage_ok tiers caps P U \<and>
     (\<forall>k < length done. settled scores tiers caps P U k (done ! k))"

lemma tier_load_snoc:
  "tier_load (P @ [(k, t)]) t' = tier_load P t' + (if t = t' then 1 else 0)"
  by (simp add: tier_load_def)

lemma usage_ok_fallback:
  "usage_ok tiers caps P U \<Longrightarrow> usage_ok tiers caps (P @ [(k, ''cloud'')]) U"
  unfolding usage_ok_def tier_load_snoc by fastforce

lemma usage_ok_assign:
  assumes ok: "usage_ok tiers caps P U" and t: "t \<in> set tiers"
    and u: "map_of U t = Some u" "map_of caps t = Some c" "u < c"
  shows "usage_ok tiers caps (P @ [(k, t)]) (AList.update t (u + 1) U)"
proof -
  have "\<forall>t'. map_of (AList.update t (u + 1) U) t' \<noteq> None \<longleftrightarrow> t' \<in> set tiers"
    using ok t by (auto simp: usage_ok_def dict_simps)
  moreover have "u' \<le> int (tier_load (P @ [(k, t)]) t') \<and>
      (t' \<noteq> ''cloud'' \<longrightarrow> u' = int (tier_load (P @ [(k, t)]) t')) \<and>
      (\<forall>c. map_of caps t' = Some c \<longrightarrow> u' \<le> max 0 c)"
    if "map_of (AList.update t (u + 1) U) t' = Some u'" for t' u'
  proof (cases "t' = t")
    case True
    with that have "u' = u + 1" by (simp add: dict_simps)
    moreover have "u \<le> int (tier_load P t)" "t \<noteq> ''cloud'' \<longrightarrow> u = int (tier_load P t)"
      using ok u(1) by (auto simp: usage_ok_def)
    ultimately show ?thesis using True u by (auto simp: tier_load_snoc)
  next
    case False
    with that have "map_of U t' = Some u'" by (simp add: dict_simps)
    with ok False show ?thesis by (auto simp: usage_ok_def tier_load_snoc)
  qed
  ultimately show ?thesis using ok t by (auto simp: usage_ok_def)
qed

lemma settled_snoc:
  assumes old: "settled scores tiers caps P U k i" and k: "k < length P"
    and keep: "\<And>t. full_tier caps U t \<Longrightarrow> full_tier caps U' t"
    and new: "\<And>t'. full_tier caps U t' \<Longrightarrow> t' \<noteq> ''cloud'' \<Longrightarrow> t \<noteq> t'"
  shows "settled scores tiers caps (P @ [(key, t)]) U' k i"
proof -
  have P: "(P @ [(key, t)]) ! k = P ! k" using k by (simp add: nth_append)
  show ?thesis
    unfolding settled_def P
  proof (intro allI impI)
    fix t'
    assume "t' \<in> set tiers \<and> (snd (P ! k) \<notin> set tiers \<or>
       (\<exists>j j'. j < length tiers \<and> j' < length tiers \<and> snd (P ! k) = tiers ! j \<and> t' = tiers ! j' \<and>
          scores ! i ! j' < scores ! i ! j))"
    with old have f: "full_tier caps U t'"
      and l: "t' \<noteq> ''cloud'' \<longrightarrow> (\<forall>k'. k < k' \<and> k' < length P \<longrightarrow> snd (P ! k') \<noteq> t')"
      unfolding settled_def by blast+
    have "snd ((P @ [(key, t)]) ! k') \<noteq> t'" if "t' \<noteq> ''cloud''" "k < k'" "k' < length (P @ [(key, t)])" for k'
      using l new [OF f] that by (cases "k' < length P") (auto simp: nth_append less_Suc_eq)
    with keep [OF f] show "full_tier caps U' t' \<and> (t' \<noteq> ''cloud'' \<longrightarrow>
        (\<forall>k'. k < k' \<and> k' < length (P @ [(key, t)]) \<longrightarrow> snd ((P @ [(key, t)]) ! k') \<noteq> t'))"
      by blast
  qed
qed

lemma greedy_inv_step:
  assumes inv: "greedy_inv scores ops tiers caps done P U"
    and dist: "distinct tiers"
    and fresh: "ops ! i \<notin> (!) ops ` set done"
    and row: "mapM_res (\<lambda>j. bind_res (score_at scores i j) (\<lambda>s. Inr (s, j))) [0..<length tiers] = Inr row"
    and pick: "pick_tier tiers caps U (sort row) = Inr choice"
    and PU: "(P', U') = (case choice of
        Some tier \<Rightarrow> (dict_set (ops ! i) tier P, dict_set tier (dict_get_default U tier 0 + 1) U)
      | None \<Rightarrow> (dict_set (ops ! i) ''cloud'' P, U))"
  shows "greedy_inv scores ops tiers caps (done @ [i]) P' U'"
proof -
  have keys: "map fst P = map ((!) ops) done" and ok: "usage_ok tiers caps P U"
    and st: "\<forall>k < length done. settled scores tiers caps P U k (done ! k)"
    using inv by (auto simp: greedy_inv_def)
  have len: "length P = length done" using keys by (metis length_map)
  have "fst ` set P = (!) ops ` set done" using keys by (metis list.set_map)
  then have upd: "AList.update (ops ! i) t P = P @ [(ops ! i, t)]" for t
    using fresh by (simp add: update_fresh)
  define t where "t = (case choice of Some t \<Rightarrow> t | None \<Rightarrow> ''cloud'')"
  have P': "P' = P @ [(ops ! i, t)]" using PU upd by (auto simp: t_def split: option.splits)
  have ok': "usage_ok tiers caps P' U'"
    and keep: "\<And>t. full_tier caps U t \<Longrightarrow> full_tier caps U' t"
    and new: "\<And>t'. full_tier caps U t' \<Longrightarrow> t' \<noteq> ''cloud'' \<Longrightarrow> t \<noteq> t'"
    and here: "\<And>t'. t' \<in> set tiers \<Longrightarrow> (t \<notin> set tiers \<or> (\<exists>j j'. j < length tiers \<and> j' < length tiers \<and>
        t = tiers ! j \<and> t' = tiers ! j' \<and> scores ! i ! j' < scores ! i ! j)) \<Longrightarrow> full_tier caps U t'"
    using choice_cases [OF row pick]
  proof (atomize (full), elim disjE exE conjE, goal_cases)
    case 1
    then have "U' = U" "t = ''cloud''" using PU by (auto simp: t_def)
    then show ?case using 1 ok P' usage_ok_fallback by auto
  next
    case (2 j u c)
    then have t: "t = tiers ! j" and U': "U' = AList.update t (u + 1) U"
      using PU by (auto simp: t_def dict_get_default_def)
    have tin: "t \<in> set tiers" using 2 t by simp
    have nf: "\<not> full_tier caps U t" using 2 t by (simp add: full_tier_def)
    have "full_tier caps U' t'" if "full_tier caps U t'" for t'
      using that nf U' by (cases "t' = t") (auto simp: full_tier_def dict_simps)
    moreover have "usage_ok tiers caps P' U'"
      using usage_ok_assign [OF ok tin] 2 t U' P' by simp
    moreover have "j'' = j" if "j'' < length tiers" "t = tiers ! j''" for j''
      using that t 2 dist by (simp add: nth_eq_iff_index_eq)
    ultimately show ?case using 2 nf tin by blast
  qed
  have "settled scores tiers caps P' U' k ((done @ [i]) ! k)" if "k < length (done @ [i])" for k
  proof (cases "k < length done")
    case True
    have "settled scores tiers caps (P @ [(ops ! i, t)]) U' k (done ! k)"
      by (rule settled_snoc [OF _ _ keep new]) (use st True len in auto)
    then show ?thesis using True P' by (simp add: nth_append)
  next
    case False
    with that have k: "k = length done" by simp
    then have "P' ! k = (ops ! i, t)" "length P' = Suc k" using P' len by (auto simp: nth_append)
    then show ?thesis unfolding settled_def using k here keep by fastforce
  qed
  moreover have "map fst P' = map ((!) ops) (done @ [i])" using keys P' by simp
  ultimately show ?thesis using ok' by (simp add: greedy_inv_def)
qed

lemma place_ops_inv:
  assumes "place_ops scores ops tiers caps is (P, U) = Inr (P', U')"
    and "greedy_inv scores ops tiers caps done P U"
    and "distinct tiers" "distinct (map ((!) ops) (done @ is))"
  shows "greedy_inv scores ops tiers caps (done @ is) P' U'"
  using assms
proof (induction "is" arbitrary: P U "done")
  case Nil
  then show ?case by simp
next
  case (Cons i "is")
  obtain row choice where
    row: "mapM_res (\<lambda>j. bind_res (score_at scores i j) (\<lambda>s. Inr (s, j))) [0..<length tiers] = Inr row"
    and pick: "pick_tier tiers caps U (sort row) = Inr choice"
    and run: "place_ops scores ops tiers caps is
         (case choice of
            Some tier \<Rightarrow> (dict_set (ops ! i) tier P, dict_set tier (dict_get_default U tier 0 + 1) U)
          | None \<Rightarrow> (dict_set (ops ! i) ''cloud'' P, U)) = Inr (P', U')"
    using place_ops_step [OF Cons.prems(1)] by blast
  let ?next = "case choice of
        Some tier \<Rightarrow> (dict_set (ops ! i) tier P, dict_set tier (dict_get_default U tier 0 + 1) U)
      | None \<Rightarrow> (dict_set (ops ! i) ''cloud'' P, U)"
  have PU: "(fst ?next, snd ?next) = ?next" by (rule prod.collapse)
  have "ops ! i \<notin> (!) ops ` set done"
    using Cons.prems(4) by (rule distinct_map_middle)
  from greedy_inv_step [OF Cons.prems(2,3) this row pick PU]
  have inv: "greedy_inv scores ops tiers caps (done @ [i]) (fst ?next) (snd ?next)" .
  have run': "place_ops scores ops tiers caps is (fst ?next, snd ?next) = Inr (P', U')"
    unfolding PU by (rule run)
  have "distinct (map ((!) ops) ((done @ [i]) @ is))" using Cons.prems(4) by simp
  from Cons.IH [OF run' inv Cons.prems(3) this] show ?case by simp
qed

text \<open>The order of processing is a permutation of the operators, dearest minimum first.\<close>

lemma priority_order_props:
  assumes "mapM_res (\<lambda>i. bind_res (row_min scores i) (\<lambda>m. Inr (i, m))) [0..<n] = Inr mins"
  shows "distinct (priority_order mins)" "set (priority_order mins) = {..<n}"
    and "k < k' \<Longrightarrow> k' < n \<Longrightarrow>
      Min (set (scores ! (priority_order mins ! k'))) \<le> Min (set (scores ! (priority_order mins ! k)))"
proof -
  have len: "length mins = n" using mapM_res_length [OF assms] by simp
  have m: "mins = map (\<lambda>i. (i, Min (set (scores ! i)))) [0..<n]"
  proof (rule nth_equalityI)
    fix i assume "i < length mins"
    then show "mins ! i = map (\<lambda>i. (i, Min (set (scores ! i)))) [0..<n] ! i"
      using mapM_res_nth [OF assms, of i] len by (auto simp: res_simps row_min_def split: if_splits)
  qed (simp add: len)
  let ?s = "sort_key (\<lambda>x. - snd x) mins"
  have "map fst mins = [0..<n]" by (simp add: m comp_def)
  moreover have "mset (priority_order mins) = mset (map fst mins)" by (simp add: priority_order_def)
  ultimately have "mset (priority_order mins) = mset [0..<n]" by metis
  then show "distinct (priority_order mins)" "set (priority_order mins) = {..<n}"
    by (metis mset_eq_imp_distinct_iff distinct_upt) (metis \<open>mset (priority_order mins) = mset [0..<n]\<close> set_mset_mset atLeast_upt)
  have len': "length ?s = n" by (simp add: len)
  have el: "snd (?s ! k) = Min (set (scores ! (priority_order mins ! k)))" if "k < n" for k
  proof -
    have "?s ! k \<in> set mins" using that len' by (metis nth_mem set_sort)
    then show ?thesis using that len' by (auto simp: m priority_order_def)
  qed
  assume "k < k'" "k' < n"
  moreover have "sorted (map (\<lambda>x. - snd x) ?s)" by simp
  ultimately have "- snd (?s ! k) \<le> - snd (?s ! k')"
    using len' sorted_nth_mono [of "map (\<lambda>x. - snd x) ?s" k k'] by simp
  then show "Min (set (scores ! (priority_order mins ! k'))) \<le> Min (set (scores ! (priority_order mins ! k)))"
    using el \<open>k < k'\<close> \<open>k' < n\<close> by simp
qed

lemma init_usage_get:
  "map_of (dict_of (map (\<lambda>t. (t, 0 :: int)) tiers) []) t = (if t \<in> set tiers then Some 0 else None)"
proof -
  have "map_of (rev (map (\<lambda>t. (t, 0 :: int)) tiers)) t = (if t \<in> set tiers then Some 0 else None)"
    by (induction tiers) (auto simp: map_add_def split: option.splits if_splits)
  then show ?thesis by (simp add: dict_simps)
qed

lemma greedy_inv_init:
  "greedy_inv scores ops tiers caps [] [] (dict_of (map (\<lambda>t. (t, 0)) tiers) [])"
  by (auto simp: greedy_inv_def usage_ok_def init_usage_get tier_load_def)

lemma find_optimal_placement_inv:
  assumes "find_optimal_placement scores ops tiers caps = Inr P"
    and "distinct ops" "distinct tiers"
  obtains order U where "greedy_inv scores ops tiers caps order P U"
    and "distinct order" "set order = {..<length ops}" "length order = length ops"
    and "\<forall>k k'. k < k' \<longrightarrow> k' < length ops \<longrightarrow>
      Min (set (scores ! (order ! k'))) \<le> Min (set (scores ! (order ! k)))"
proof -
  obtain mins U where
    m: "mapM_res (\<lambda>i. bind_res (row_min scores i) (\<lambda>m. Inr (i, m))) [0..<length ops] = Inr mins"
    and r: "place_ops scores ops tiers caps (priority_order mins)
        ([], dict_of (map (\<lambda>t. (t, 0)) tiers) []) = Inr (P, U)"
    using assms(1) by (auto simp: find_optimal_placement_def res_simps)
  note order = priority_order_props [OF m]
  have "distinct (map ((!) ops) ([] @ priority_order mins))"
    using order(1,2) assms(2) by (auto simp: distinct_map inj_on_def nth_eq_iff_index_eq)
  from place_ops_inv [OF r greedy_inv_init assms(3) this]
  have "greedy_inv scores ops tiers caps (priority_order mins) P U" by simp
  moreover have "length (priority_order mins) = length ops"
    using order(1,2) by (metis card_lessThan distinct_card)
  ultimately show ?thesis using order that by blast
qed

lemma placement_nth:
  assumes "greedy_inv scores ops tiers caps order P U" "distinct ops" "distinct order"
    and "set order = {..<length ops}" "length order = length ops" "a < length ops"
  shows "\<exists>k < length ops. order ! k = a \<and> map_of P (ops ! a) = Some (snd (P ! k)) \<and> P ! k \<in> set P"
proof -
  obtain k where k: "k < length ops" "order ! k = a"
    using assms(4-6) by (metis in_set_conv_nth lessThan_iff)
  have keys: "map fst P = map ((!) ops) order" using assms(1) by (simp add: greedy_inv_def)
  then have len: "length P = length ops" using assms(5) by (metis length_map)
  have "fst (P ! k) = ops ! a"
    using k len assms(5) nth_map [of k P fst] nth_map [of k order "(!) ops"] keys by simp
  moreover have "distinct (map fst P)"
    unfolding keys using assms(2,3,4) by (auto simp: distinct_map inj_on_def nth_eq_iff_index_eq)
  ultimately have "map_of P (ops ! a) = Some (snd (P ! k))"
    using k len by (metis map_of_eq_Some_iff nth_mem prod.collapse)
  with k len show ?thesis by auto
qed

section \<open>Properties\<close>

text \<open>C4: No edge tier is ever given more operators than its capacity: in the placement that
  \<open>find_optimal_placement\<close> returns, the load of every tier other than the cloud is at most its capacity.\<close>

theorem placement_within_capacity:
  assumes "distinct ops" "distinct tiers"
    and "find_optimal_placement scores ops tiers caps = Inr placement"
    and "t \<noteq> ''cloud''" "dict_get caps t = Some c"
  shows "int (tier_load placement t) \<le> max 0 c"
proof -
  obtain order U where g: "greedy_inv scores ops tiers caps order placement U"
    and d: "distinct order" and s: "set order = {..<length ops}" and l: "length order = length ops"
    and mono: "\<forall>k k'. k < k' \<longrightarrow> k' < length ops \<longrightarrow>
      Min (set (scores ! (order ! k'))) \<le> Min (set (scores ! (order ! k)))"
    by (rule find_optimal_placement_inv [OF assms(3,1,2)])
  have ok: "usage_ok tiers caps placement U" using g by (simp add: greedy_inv_def)
  show ?thesis
  proof (cases "map_of U t")
    case (Some u)
    with ok assms(4,5) show ?thesis unfolding usage_ok_def by metis
  next
    case None
    with ok have "t \<notin> set tiers" unfolding usage_ok_def by metis
    then have "\<forall>p \<in> set placement. snd p \<noteq> t" using ok assms(4) unfolding usage_ok_def by metis
    then have "filter (\<lambda>p. snd p = t) placement = []" by (simp add: filter_empty_conv)
    then show ?thesis by (simp add: tier_load_def)
  qed
qed

definition sample_scores :: "real list list" where
  "sample_scores = [[1, 2, 9], [1, 5, 9], [1, 3, 4]]"

definition sample_caps :: "(string, int) dict" where
  "sample_caps = [(''edge-1'', 1), (''edge-2'', 1), (''cloud'', 9)]"

lemma sample_placement:
  "find_optimal_placement sample_scores [''a'', ''b'', ''c''] [''edge-1'', ''edge-2'', ''cloud''] sample_caps
   = Inr [(''a'', ''edge-1''), (''b'', ''edge-2''), (''c'', ''cloud'')]"
  by code_simp

theorem placement_within_capacity_witness:
  "int (tier_load [(''a'', ''edge-1''), (''b'', ''edge-2''), (''c'', ''cloud'')] ''edge-2'') \<le> max 0 1"
  by (rule placement_within_capacity [OF _ _ sample_placement]) (simp_all add: sample_caps_def)

lemma placement_is_complete:
  assumes "distinct ops" "distinct tiers"
    and "find_optimal_placement scores ops tiers caps = Inr placement"
  shows "mset (map fst placement) = mset ops \<and> snd ` set placement \<subseteq> set tiers \<union> {''cloud''}"
proof -
  obtain order U where g: "greedy_inv scores ops tiers caps order placement U"
    and d: "distinct order" and s: "set order = {..<length ops}" and l: "length order = length ops"
    and mono: "\<forall>k k'. k < k' \<longrightarrow> k' < length ops \<longrightarrow>
      Min (set (scores ! (order ! k'))) \<le> Min (set (scores ! (order ! k)))"
    by (rule find_optimal_placement_inv [OF assms(3,1,2)])
  have "mset order = mset [0..<length ops]"
    using d s set_eq_iff_mset_eq_distinct [of order "[0..<length ops]"] by (simp add: atLeast0LessThan)
  then have "mset (map ((!) ops) order) = mset (map ((!) ops) [0..<length ops])" by (simp only: mset_map)
  with g show ?thesis by (auto simp: greedy_inv_def usage_ok_def map_nth simp del: mset_map)
qed

text \<open>C5: The placement is complete: exactly the given operators are placed, each once, and each on one of
  the given tiers or on the cloud fallback.\<close>

theorem placement_complete:
  assumes "distinct ops" "distinct tiers"
    and "find_optimal_placement scores ops tiers caps = Inr placement"
  shows "mset (map fst placement) = mset ops \<and> snd ` set placement \<subseteq> set tiers \<union> {''cloud''}"
  using placement_is_complete [OF assms] .

theorem placement_complete_witness:
  "mset (map fst [(''a'', ''edge-1''), (''b'', ''edge-2''), (''c'', ''cloud'')]) = mset [''a'', ''b'', ''c''] \<and>
   snd ` set [(''a'', ''edge-1''), (''b'', ''edge-2''), (''c'', ''cloud'')] \<subseteq>
     set [''edge-1'', ''edge-2'', ''cloud''] \<union> {''cloud''}"
  by (rule placement_complete [OF _ _ sample_placement]) simp_all

lemma cheaper_tier_is_full:
  assumes "distinct ops" "distinct tiers"
    and "find_optimal_placement scores ops tiers caps = Inr placement"
    and "a < length ops" "dict_get placement (ops ! a) = Some (tiers ! j)"
    and "j < length tiers" "j' < length tiers" "scores ! a ! j' < scores ! a ! j"
  shows "(\<exists>c. dict_get caps (tiers ! j') = Some c \<and> c \<le> int (tier_load placement (tiers ! j'))) \<and>
    (tiers ! j' \<noteq> ''cloud'' \<longrightarrow>
      (\<forall>b < length ops. dict_get placement (ops ! b) = Some (tiers ! j') \<longrightarrow>
         Min (set (scores ! a)) \<le> Min (set (scores ! b))))"
proof -
  obtain order U where g: "greedy_inv scores ops tiers caps order placement U"
    and d: "distinct order" and s: "set order = {..<length ops}" and l: "length order = length ops"
    and mono: "\<forall>k k'. k < k' \<longrightarrow> k' < length ops \<longrightarrow>
      Min (set (scores ! (order ! k'))) \<le> Min (set (scores ! (order ! k)))"
    by (rule find_optimal_placement_inv [OF assms(3,1,2)])
  note nth = placement_nth [OF g assms(1) d s l]
  have ok: "usage_ok tiers caps placement U" using g by (simp add: greedy_inv_def)
  have len: "length placement = length ops"
    using g l unfolding greedy_inv_def by (metis length_map)
  obtain k where k: "k < length ops" "order ! k = a" "snd (placement ! k) = tiers ! j"
    using nth [OF assms(4)] assms(5) by auto
  have "settled scores tiers caps placement U k a"
    using g k(1,2) l unfolding greedy_inv_def by metis
  then have f: "full_tier caps U (tiers ! j')" and later: "tiers ! j' \<noteq> ''cloud'' \<Longrightarrow>
      (\<forall>k'. k < k' \<and> k' < length placement \<longrightarrow> snd (placement ! k') \<noteq> tiers ! j')"
    unfolding settled_def using k(3) assms(6-8) by (metis nth_mem)+
  obtain u c where "map_of U (tiers ! j') = Some u" "map_of caps (tiers ! j') = Some c" "c \<le> u"
    using f by (auto simp: full_tier_def split: option.splits)
  moreover have "u \<le> int (tier_load placement (tiers ! j'))"
    using ok \<open>map_of U (tiers ! j') = Some u\<close> unfolding usage_ok_def by blast
  moreover have "Min (set (scores ! a)) \<le> Min (set (scores ! b))"
    if b: "b < length ops" "map_of placement (ops ! b) = Some (tiers ! j')" and nc: "tiers ! j' \<noteq> ''cloud''" for b
  proof -
    obtain kb where kb: "kb < length ops" "order ! kb = b"
      and P: "map_of placement (ops ! b) = Some (snd (placement ! kb))"
      using nth [OF b(1)] by blast
    have t: "snd (placement ! kb) = tiers ! j'" using P b(2) by simp
    have "\<not> k < kb"
    proof
      assume "k < kb"
      with later [OF nc] kb(1) len have "snd (placement ! kb) \<noteq> tiers ! j'" by simp
      with t show False by simp
    qed
    then have "kb = k \<or> kb < k" by linarith
    then show ?thesis using mono [rule_format, of kb k] k(1,2) kb(2) by blast
  qed
  ultimately show ?thesis by (meson order_trans)
qed

text \<open>C6: The placement has no justified envy.  If some tier would be strictly cheaper for an operator than
  the tier it got, that tier is filled to its capacity, and (the cloud with its fallback aside) only by
  operators of at least the same priority, the priority being the cost of the cheapest tier.\<close>

theorem placement_no_justified_envy:
  assumes "distinct ops" "distinct tiers"
    and "find_optimal_placement scores ops tiers caps = Inr placement"
    and "a < length ops" "dict_get placement (ops ! a) = Some (tiers ! j)"
    and "j < length tiers" "j' < length tiers" "scores ! a ! j' < scores ! a ! j"
  shows "(\<exists>c. dict_get caps (tiers ! j') = Some c \<and> c \<le> int (tier_load placement (tiers ! j'))) \<and>
    (tiers ! j' \<noteq> ''cloud'' \<longrightarrow>
      (\<forall>b < length ops. dict_get placement (ops ! b) = Some (tiers ! j') \<longrightarrow>
         Min (set (scores ! a)) \<le> Min (set (scores ! b))))"
  using cheaper_tier_is_full [OF assms] .

theorem placement_no_justified_envy_witness:
  "(\<exists>c. dict_get sample_caps ''edge-1'' = Some c \<and>
      c \<le> int (tier_load [(''a'', ''edge-1''), (''b'', ''edge-2''), (''c'', ''cloud'')] ''edge-1''))"
  using placement_no_justified_envy [OF _ _ sample_placement, of 1 1 0]
  by (simp add: sample_scores_def)

section \<open>The pipeline from telemetry to placement never raises\<close>

lemma pick_tier_total:
  assumes "\<forall>p \<in> set row. dict_get usage (tiers ! snd p) \<noteq> None \<and> dict_get caps (tiers ! snd p) \<noteq> None"
  shows "\<exists>choice. pick_tier tiers caps usage row = Inr choice"
  using assms
proof (induction tiers caps usage row rule: pick_tier.induct)
  case (2 tiers caps usage s j rest)
  then obtain u c where uc: "dict_get usage (tiers ! j) = Some u" "dict_get caps (tiers ! j) = Some c" by auto
  show ?case
  proof (cases "u < c")
    case False
    with "2.IH" [OF refl refl uc False] "2.prems" uc show ?thesis by (simp add: Let_def)
  qed (use uc in \<open>simp add: Let_def\<close>)
qed simp

lemma place_ops_total:
  assumes shape: "\<forall>i \<in> set is. i < length scores \<and> length tiers \<le> length (scores ! i)"
    and caps: "\<forall>t \<in> set tiers. dict_get caps t \<noteq> None"
    and usage: "\<forall>t \<in> set tiers. dict_get usage t \<noteq> None"
  shows "\<exists>r. place_ops scores ops tiers caps is (placement, usage) = Inr r"
  using shape usage
proof (induction "is" arbitrary: placement usage)
  case (Cons i "is")
  have "mapM_res (\<lambda>j. bind_res (score_at scores i j) (\<lambda>s. Inr (s, j))) [0..<length tiers] =
      mapM_res (\<lambda>j. Inr (scores ! i ! j, j)) [0..<length tiers]"
    using Cons.prems(1) by (intro mapM_res_cong) (simp add: score_at_def)
  then have row: "mapM_res (\<lambda>j. bind_res (score_at scores i j) (\<lambda>s. Inr (s, j))) [0..<length tiers] =
      Inr (map (\<lambda>j. (scores ! i ! j, j)) [0..<length tiers])" (is "_ = Inr ?row")
    by (simp add: mapM_res_Inr)
  have "\<forall>p \<in> set (sort ?row). dict_get usage (tiers ! snd p) \<noteq> None \<and> dict_get caps (tiers ! snd p) \<noteq> None"
    using Cons.prems(2) caps by simp
  from pick_tier_total [OF this] obtain choice where
    pick: "pick_tier tiers caps usage (sort ?row) = Inr choice" by blast
  have rest: "\<forall>j \<in> set is. j < length scores \<and> length tiers \<le> length (scores ! j)" using Cons.prems(1) by simp
  have "\<exists>r. place_ops scores ops tiers caps is (P, U) = Inr r"
    if "\<forall>t \<in> set tiers. dict_get U t \<noteq> None" for P U
    by (rule Cons.IH [OF rest that])
  moreover have "\<forall>t \<in> set tiers. dict_get (AList.update t' n usage) t \<noteq> None" for t' n
    using Cons.prems(2) by (simp add: dict_simps)
  ultimately show ?case using row pick Cons.prems(2) by (simp split: option.split)
qed simp

lemma find_optimal_placement_total:
  assumes "length scores = length ops" "\<forall>row \<in> set scores. length row = length tiers" "tiers \<noteq> []"
    and caps: "\<forall>t \<in> set tiers. dict_get caps t \<noteq> None"
  shows "\<exists>placement. find_optimal_placement scores ops tiers caps = Inr placement"
proof -
  have ne: "scores ! i \<noteq> []" if "i < length ops" for i
    using that assms(1-3) by (metis length_0_conv nth_mem)
  have "mapM_res (\<lambda>i. bind_res (row_min scores i) (\<lambda>m. Inr (i, m))) [0..<length ops] =
      mapM_res (\<lambda>i. Inr (i, Min (set (scores ! i)))) [0..<length ops]"
    using assms(1) ne by (intro mapM_res_cong) (simp add: row_min_def)
  then have m: "mapM_res (\<lambda>i. bind_res (row_min scores i) (\<lambda>m. Inr (i, m))) [0..<length ops] =
      Inr (map (\<lambda>i. (i, Min (set (scores ! i)))) [0..<length ops])" (is "_ = Inr ?mins")
    by (simp add: mapM_res_Inr)
  have "\<forall>i \<in> set (priority_order ?mins). i < length scores \<and> length tiers \<le> length (scores ! i)"
    using priority_order_props(2) [OF m] assms(1,2) by simp
  from place_ops_total [OF this caps, of "dict_of (map (\<lambda>t. (t, 0)) tiers) []" ops "[]"]
  obtain r where "place_ops scores ops tiers caps (priority_order ?mins)
      ([], dict_of (map (\<lambda>t. (t, 0)) tiers) []) = Inr r"
    by (auto simp: init_usage_get)
  with m show ?thesis by (cases r) (simp add: find_optimal_placement_def)
qed

text \<open>Scoring and placement always return.  With no objective of zero milliseconds, at least one tier and
  a capacity for every tier, \<open>compute_scores\<close> yields a matrix of the right shape and
  \<open>find_optimal_placement\<close> a placement, whatever the telemetry says.\<close>

theorem scoring_pipeline_returns:
  assumes "\<forall>op \<in> set ops. dict_get_default slo_map op None \<noteq> Some 0"
    and "tiers \<noteq> []" "\<forall>t \<in> set tiers. dict_get caps t \<noteq> None"
  shows "\<exists>scores placement. compute_scores sc tel ops tiers slo_map lambda_map = Inr scores \<and>
    length scores = length ops \<and> (\<forall>row \<in> set scores. length row = length tiers) \<and>
    find_optimal_placement scores ops tiers caps = Inr placement"
proof -
  obtain scores where s: "compute_scores sc tel ops tiers slo_map lambda_map = Inr scores"
    using compute_scores_total assms(1) by blast
  have len: "length scores = length ops"
    using s unfolding compute_scores_def by (rule mapM_res_length)
  have rows: "\<forall>row \<in> set scores. length row = length tiers"
    using compute_scores_nth(2) [OF s] len by (metis in_set_conv_nth)
  from find_optimal_placement_total [OF len rows assms(2,3)] s len rows show ?thesis by blast
qed

definition sample_scoring :: ScoringAlgorithm where
  "sample_scoring = \<lparr>s_config = AODEConfig_default,
     s_weights = \<lparr>preset_name = ''balanced'', w_lat = 3/10, w_res = 3/10, w_net = 2/10, w_slo = 2/10\<rparr>\<rparr>"

theorem scoring_pipeline_returns_witness:
  "\<exists>scores placement. compute_scores sample_scoring [] [''RiskCheck''] [''edge-1'', ''cloud'']
      [(''RiskCheck'', Some 1)] [(''RiskCheck'', ''critical'')] = Inr scores \<and>
    length scores = length [''RiskCheck''] \<and> (\<forall>row \<in> set scores. length row = length [''edge-1'', ''cloud'']) \<and>
    find_optimal_placement scores [''RiskCheck''] [''edge-1'', ''cloud''] [(''edge-1'', 1), (''cloud'', 9)] = Inr placement"
  by (rule scoring_pipeline_returns) (simp_all add: dict_get_default_def)

text \<open>C7: The latency and the objective terms never choose the tier.  The difference between the scores of two
  tiers is the same for every operator, whatever its latency, objective or latency class: both terms are
  computed from the operator alone, so only the load and the network of the tiers decide.\<close>

theorem tier_ranking_ignores_operator:
  assumes "score_cell sc tel op lclass slo t1 = Inr x1" "score_cell sc tel op lclass slo t2 = Inr x2"
    and "score_cell sc tel op' lclass' slo' t1 = Inr y1" "score_cell sc tel op' lclass' slo' t2 = Inr y2"
  shows "x1 - x2 = y1 - y2"
  using score_cell_diff [OF assms(1,2)] score_cell_diff [OF assms(3,4)] by simp

text \<open>With no telemetry at all, a critical operator with an objective of one millisecond and a batch
  operator without one see the same gap of 200 between an edge tier and the cloud.\<close>

theorem tier_ranking_ignores_operator_witness:
  "(3/10 * 3 + 3/10 * 18 + 2/10 * 1000 + 2/10 * 0 :: real) - (3/10 * 3 + 3/10 * 18 + 2/10 * 0 + 2/10 * 0) =
   (3/10 * (1/10) + 3/10 * 18 + 2/10 * 1000 + 2/10 * 0) - (3/10 * (1/10) + 3/10 * 18 + 2/10 * 0 + 2/10 * 0)"
  by (rule tier_ranking_ignores_operator
      [of sample_scoring "[]" "''RiskCheck''" "''critical''" "Some 1" "''edge-1''" _ "''cloud''" _
          "''StatAggregator''" "''batch''" None])
     (simp_all add: score_cell_def sample_scoring_def compute_phi_slo_def compute_phi_lat_def compute_phi_res_def
        compute_phi_net_def observed_latency_def get_operator_latency_def operator_latencies_def
        get_tier_utilization_def get_latest_telemetry_def dict_get_default_def lambda_weights_def AODEConfig_default_def)

text \<open>The load term grows with the load of the tier and stays between zero and \<open>99 * kappa\<close>: the cap at
  0.99 keeps it finite on a saturated tier.\<close>

theorem load_term_bounds:
  assumes "0 \<le> kappa cfg" "0 \<le> tier_load_factor tel t" "tier_load_factor tel t \<le> tier_load_factor tel' t'"
  shows "0 \<le> compute_phi_res cfg tel t \<and> compute_phi_res cfg tel t \<le> compute_phi_res cfg tel' t' \<and>
    compute_phi_res cfg tel' t' \<le> 99 * kappa cfg"
  using compute_phi_res_bounds(1) [OF assms(1,2)] compute_phi_res_mono [OF assms(1,3)]
    compute_phi_res_bounds(2) [OF assms(1), of tel' t'] assms(2,3) by simp

definition sample_collector :: collector where
  "sample_collector =
     [(''n1'', collect_one ''n1'' (Inr \<lparr>r_cpu_utilization = 1/2, r_memory_utilization = 1/4,
         r_ingest_rate_eps = 10, r_operator_p95_ms = [(''RiskCheck'', 3)], r_timestamp_ms = 7,
         r_reachable = True\<rparr>) 4 7)]"

theorem load_term_bounds_witness:
  "0 \<le> compute_phi_res AODEConfig_default sample_collector ''n1'' \<and>
   compute_phi_res AODEConfig_default sample_collector ''n1'' \<le> compute_phi_res AODEConfig_default [] ''n2'' \<and>
   compute_phi_res AODEConfig_default [] ''n2'' \<le> 99 * kappa AODEConfig_default"
  by (rule load_term_bounds)
     (simp_all add: AODEConfig_default_def tier_load_factor_def get_tier_utilization_def sample_collector_def
        collect_one_def)

end
