(* ===== verification/Etcd.thy ===== *)
theory Etcd
  imports Prelude
begin

text \<open>
  The etcd client and the leader election of \<open>aode/aode/etcd/client.py\<close>.  The \<open>etcd3\<close> package is not part
  of the repository: its client object is a parameter, a record of the calls the source makes, over a
  state \<open>'c\<close> of the server.  What the code relies on is stated as the two contracts below, after the
  documentation of the package.
\<close>

section \<open>The calls of the etcd3 package\<close>

text \<open>
  \<open>transaction\<close> is called with one comparison (the key has never been created) and one put on success.
  Its result is a Python value that the source tests for truth: the package documents a pair of the
  status and the responses; the repository's tests answer a plain bool.
\<close>

datatype tx_result = TxBool bool | TxTuple bool "string list"

fun tx_truth :: "tx_result \<Rightarrow> bool" where
  "tx_truth (TxBool b) = b"
| "tx_truth (TxTuple b responses) = True"

record 'c etcd3_api =
  api_client :: "string \<Rightarrow> int \<Rightarrow> 'c res"
  api_put :: "string \<Rightarrow> string \<Rightarrow> 'c \<Rightarrow> 'c"
  api_get :: "string \<Rightarrow> 'c \<Rightarrow> string option"
  api_delete :: "string \<Rightarrow> 'c \<Rightarrow> 'c"
  api_get_prefix :: "string \<Rightarrow> 'c \<Rightarrow> (string \<times> string) list"
  api_lease :: "int \<Rightarrow> 'c \<Rightarrow> nat \<times> 'c"
  api_revoke :: "nat \<Rightarrow> 'c \<Rightarrow> 'c"
  api_create_if_absent :: "string \<Rightarrow> string \<Rightarrow> nat \<Rightarrow> 'c \<Rightarrow> tx_result res \<times> 'c"

section \<open>EtcdClient\<close>

record 'c EtcdClient =
  ec_endpoints :: "string list"
  ec_prefix :: string
  ec_client :: "'c option"
  ec_lease :: "nat option"

definition EtcdClient_new :: "string list \<Rightarrow> string \<Rightarrow> 'c EtcdClient" where
  "EtcdClient_new endpoints prefix =
     \<lparr>ec_endpoints = endpoints, ec_prefix = prefix, ec_client = None, ec_lease = None\<rparr>"

text \<open>\<open>connect\<close> unpacks \<open>endpoints[0].split(":")\<close> into exactly a host and a port.\<close>

definition etcd_connect :: "'c etcd3_api \<Rightarrow> 'c EtcdClient \<Rightarrow> 'c EtcdClient res" where
  "etcd_connect api ec =
     (case ec_endpoints ec of
        [] \<Rightarrow> Inl IndexError
      | ep # _ \<Rightarrow>
          (case py_split (CHR '':'') ep of
             [host, port] \<Rightarrow>
               bind_res (int_of_string port) (\<lambda>p.
               bind_res (api_client api host p) (\<lambda>c. Inr (ec\<lparr>ec_client := Some c\<rparr>)))
           | [_] \<Rightarrow> Inl (ValueError ''not enough values to unpack (expected 2, got 1)'')
           | _ \<Rightarrow> Inl (ValueError ''too many values to unpack (expected 2)'')))"

definition no_client :: "string \<Rightarrow> py_error" where
  "no_client method =
     AttributeError ([CHR 39] @ ''NoneType'' @ [CHR 39] @ '' object has no attribute '' @ [CHR 39] @ method @ [CHR 39])"

definition etcd_put :: "'c etcd3_api \<Rightarrow> string \<Rightarrow> string \<Rightarrow> 'c EtcdClient \<Rightarrow> unit res \<times> 'c EtcdClient" where
  "etcd_put api key val ec =
     (case ec_client ec of
        None \<Rightarrow> (Inl (no_client ''put''), ec)
      | Some c \<Rightarrow> (Inr (), ec\<lparr>ec_client := Some (api_put api (ec_prefix ec @ key) val c)\<rparr>))"

text \<open>An empty value is falsy bytes, which \<open>get\<close> turns into \<open>None\<close>.\<close>

definition etcd_get :: "'c etcd3_api \<Rightarrow> string \<Rightarrow> 'c EtcdClient \<Rightarrow> string option res" where
  "etcd_get api key ec =
     (case ec_client ec of
        None \<Rightarrow> Inl (no_client ''get'')
      | Some c \<Rightarrow> Inr (case api_get api (ec_prefix ec @ key) c of
                        None \<Rightarrow> None | Some v \<Rightarrow> if v = [] then None else Some v))"

definition etcd_delete :: "'c etcd3_api \<Rightarrow> string \<Rightarrow> 'c EtcdClient \<Rightarrow> unit res \<times> 'c EtcdClient" where
  "etcd_delete api key ec =
     (case ec_client ec of
        None \<Rightarrow> (Inl (no_client ''delete''), ec)
      | Some c \<Rightarrow> (Inr (), ec\<lparr>ec_client := Some (api_delete api (ec_prefix ec @ key) c)\<rparr>))"

text \<open>The loop of \<open>get_dict\<close>: strip the prefix and the slashes after it, skip what is empty then.\<close>

definition key_suffix :: "string \<Rightarrow> string \<Rightarrow> string" where
  "key_suffix full_prefix key = dropWhile (\<lambda>c. c = CHR ''/'') (drop (length full_prefix) key)"

fun collect_dict :: "string \<Rightarrow> (string \<times> string) list \<Rightarrow> (string, string) dict \<Rightarrow> (string, string) dict" where
  "collect_dict full_prefix [] kv = kv"
| "collect_dict full_prefix ((val, key) # results) kv =
     collect_dict full_prefix results
       (if key_suffix full_prefix key \<noteq> [] then dict_set (key_suffix full_prefix key) val kv else kv)"

definition etcd_get_dict :: "'c etcd3_api \<Rightarrow> string \<Rightarrow> 'c EtcdClient \<Rightarrow> (string, string) dict res" where
  "etcd_get_dict api key_prefix ec =
     (case ec_client ec of
        None \<Rightarrow> Inl (no_client ''get_prefix'')
      | Some c \<Rightarrow>
          Inr (collect_dict (ec_prefix ec @ key_prefix) (api_get_prefix api (ec_prefix ec @ key_prefix) c) []))"

text \<open>\<open>close\<close> revokes the lease; the client and the lease stay in their attributes.\<close>

definition etcd_close :: "'c etcd3_api \<Rightarrow> 'c EtcdClient \<Rightarrow> 'c EtcdClient" where
  "etcd_close api ec =
     (case ec_lease ec of None \<Rightarrow> ec | Some l \<Rightarrow> ec\<lparr>ec_client := map_option (api_revoke api l) (ec_client ec)\<rparr>)"

section \<open>Leader lock\<close>

text \<open>
  \<open>acquire_leader_lock\<close>: the new lease is stored before the transaction, whatever its outcome; an
  exception of the transaction is logged and answered with \<open>False\<close>.  \<open>now\<close> is \<open>int(time.time())\<close>.
\<close>

definition acquire_leader_lock ::
    "'c etcd3_api \<Rightarrow> string \<Rightarrow> int \<Rightarrow> int \<Rightarrow> 'c EtcdClient \<Rightarrow> bool res \<times> 'c EtcdClient" where
  "acquire_leader_lock api lock_name ttl now ec =
     (case ec_client ec of
        None \<Rightarrow> (Inl (no_client ''lease''), ec)
      | Some c \<Rightarrow>
          (let (lease, c1) = api_lease api ttl c;
               (r, c2) = api_create_if_absent api (ec_prefix ec @ ''leaders/'' @ lock_name)
                           (''leader-'' @ show_int now) lease c1;
               ec' = ec\<lparr>ec_client := Some c2, ec_lease := Some lease\<rparr>
           in case r of
                Inl e \<Rightarrow> (Inr False, ec')
              | Inr tx \<Rightarrow> (Inr (tx_truth tx), ec')))"

text \<open>A lease can only have been stored by a connected client, so revoking goes through the client.\<close>

definition release_leader_lock :: "'c etcd3_api \<Rightarrow> 'c EtcdClient \<Rightarrow> 'c EtcdClient" where
  "release_leader_lock api ec =
     (case ec_lease ec of
        None \<Rightarrow> ec
      | Some l \<Rightarrow> ec\<lparr>ec_client := map_option (api_revoke api l) (ec_client ec), ec_lease := None\<rparr>)"

text \<open>\<open>maintain_leadership\<close>: an error without a lease, else a refresh every so many seconds, for ever.\<close>

definition refresh_interval :: "int \<Rightarrow> 'c EtcdClient \<Rightarrow> int res" where
  "refresh_interval ttl ec =
     (if ec_lease ec = None then Inl (ValueError ''No active lease to maintain'') else Inr (ttl div 3))"

section \<open>Leader election\<close>

text \<open>\<open>le_task\<close>: a task running \<open>maintain_leadership\<close> has been created.\<close>

record LeaderElection =
  le_instance_id :: string
  le_is_leader :: bool
  le_task :: bool

definition LeaderElection_new :: "string \<Rightarrow> LeaderElection" where
  "LeaderElection_new inst = \<lparr>le_instance_id = inst, le_is_leader = False, le_task = False\<rparr>"

definition start_election ::
    "'c etcd3_api \<Rightarrow> int \<Rightarrow> LeaderElection \<times> 'c EtcdClient \<Rightarrow> bool res \<times> LeaderElection \<times> 'c EtcdClient" where
  "start_election api now = (\<lambda>(le, ec).
     (case acquire_leader_lock api ''aode'' 30 now ec of
        (Inl e, ec') \<Rightarrow> (Inl e, le, ec')
      | (Inr is_leader, ec') \<Rightarrow>
          (Inr is_leader, (if is_leader then le\<lparr>le_is_leader := True, le_task := True\<rparr> else le), ec')))"

text \<open>
  \<open>stop_election\<close>: the task is cancelled and awaited (the cancellation is swallowed), the lock released
  only by a leader.  The attribute still refers to the cancelled task afterwards.
\<close>

definition stop_election ::
    "'c etcd3_api \<Rightarrow> LeaderElection \<times> 'c EtcdClient \<Rightarrow> LeaderElection \<times> 'c EtcdClient" where
  "stop_election api = (\<lambda>(le, ec).
     (if le_is_leader le then (le\<lparr>le_is_leader := False\<rparr>, release_leader_lock api ec) else (le, ec)))"

definition is_leader :: "LeaderElection \<Rightarrow> bool" where
  "is_leader le = le_is_leader le"

section \<open>Contracts of the package\<close>

text \<open>
  The key-value part: \<open>view\<close> is the server's map.  A put and a delete change one key, a get reads one, a
  prefix query lists every entry below the prefix once.
\<close>

definition etcd_kv_contract :: "'c etcd3_api \<Rightarrow> ('c \<Rightarrow> string \<Rightarrow> string option) \<Rightarrow> bool" where
  "etcd_kv_contract api view \<longleftrightarrow>
     (\<forall>k v c. view (api_put api k v c) = (view c)(k \<mapsto> v)) \<and>
     (\<forall>k c. view (api_delete api k c) = (view c)(k := None)) \<and>
     (\<forall>k c. api_get api k c = view c k) \<and>
     (\<forall>p c. distinct (map snd (api_get_prefix api p c)) \<and>
        (\<forall>v k. (v, k) \<in> set (api_get_prefix api p c) \<longleftrightarrow> take (length p) k = p \<and> view c k = Some v))"

text \<open>
  The lock part: granting a lease leaves the map alone, and the transaction is a compare-and-put whose
  status is true exactly if the key was absent.  \<open>wrap\<close> is how the status is packed into the result:
  \<open>TxTuple\<close> in the package, \<open>TxBool\<close> in the repository's test doubles.
\<close>

definition etcd_lock_contract ::
    "(bool \<Rightarrow> tx_result) \<Rightarrow> 'c etcd3_api \<Rightarrow> ('c \<Rightarrow> string \<Rightarrow> string option) \<Rightarrow> bool" where
  "etcd_lock_contract wrap api view \<longleftrightarrow>
     (\<forall>ttl c. view (snd (api_lease api ttl c)) = view c) \<and>
     (\<forall>k v l c. fst (api_create_if_absent api k v l c) = Inr (wrap (view c k = None)) \<and>
        view (snd (api_create_if_absent api k v l c)) = (if view c k = None then (view c)(k \<mapsto> v) else view c))"

section \<open>Endpoints\<close>

lemma digit_not_colon: "d < 10 \<Longrightarrow> digit d \<noteq> CHR '':''"
proof
  assume "d < 10" "digit d = CHR '':''"
  then have "of_char (digit d) = (of_char (CHR '':'') :: nat)" by simp
  with \<open>d < 10\<close> show False by (simp add: of_char_of)
qed

lemma show_nat_no_colon: "CHR '':'' \<notin> set (show_nat n)"
  using show_nat_digits digit_not_colon by metis

text \<open>
  \<open>connect\<close> splits at every colon.  A plain \<open>host:port\<close> endpoint reaches the package with the host and
  the parsed port.
\<close>

lemma etcd_connect_plain:
  assumes "ec_endpoints ec = (host @ CHR '':'' # show_nat n) # eps" "CHR '':'' \<notin> set host"
  shows "etcd_connect api ec = bind_res (api_client api host (int n)) (\<lambda>c. Inr (ec\<lparr>ec_client := Some c\<rparr>))"
  using assms by (simp add: etcd_connect_def py_split_sep py_split_no_sep show_nat_no_colon)

lemma etcd_connect_url:
  assumes "ec_endpoints ec = (scheme @ CHR '':'' # host @ CHR '':'' # port) # eps"
    and "CHR '':'' \<notin> set scheme" "CHR '':'' \<notin> set host"
  shows "etcd_connect api ec = Inl (ValueError ''too many values to unpack (expected 2)'')"
proof -
  obtain p ps where "py_split (CHR '':'') port = p # ps" by (metis py_split_nonempty list.exhaust)
  with assms show ?thesis by (simp add: etcd_connect_def py_split_sep)
qed

text \<open>An endpoint is understood in the form \<open>host:port\<close> only.  Such an endpoint makes \<open>connect\<close> open
  the package's client on the host and the parsed port; an endpoint with a scheme (like the default
  \<open>http://etcd:2379\<close>) always raises a \<open>ValueError\<close>.\<close>

theorem etcd_connect_endpoints:
  assumes "CHR '':'' \<notin> set host" "CHR '':'' \<notin> set scheme"
  shows "etcd_connect api (EtcdClient_new ((host @ CHR '':'' # show_nat n) # eps) prefix) =
      bind_res (api_client api host (int n)) (\<lambda>c.
        Inr ((EtcdClient_new ((host @ CHR '':'' # show_nat n) # eps) prefix)\<lparr>ec_client := Some c\<rparr>)) \<and>
    etcd_connect api (EtcdClient_new ((scheme @ '':'' @ host @ '':'' @ port) # eps) prefix) =
      Inl (ValueError ''too many values to unpack (expected 2)'')"
  using etcd_connect_plain [of "EtcdClient_new ((host @ CHR '':'' # show_nat n) # eps) prefix" host n eps api]
    etcd_connect_url [of "EtcdClient_new ((scheme @ '':'' @ host @ '':'' @ port) # eps) prefix" scheme host port eps api]
    assms by (simp add: EtcdClient_new_def)

text \<open>A server in memory: the map and the next lease, for the witnesses.\<close>

definition map_server_api :: "(bool \<Rightarrow> tx_result) \<Rightarrow> ((string, string) dict \<times> nat) etcd3_api" where
  "map_server_api wrap =
     \<lparr>api_client = (\<lambda>host port. Inr ([], 0)),
      api_put = (\<lambda>k v (d, n). (dict_set k v d, n)),
      api_get = (\<lambda>k (d, n). dict_get d k),
      api_delete = (\<lambda>k (d, n). (dict_pop k d, n)),
      api_get_prefix = (\<lambda>p (d, n). map (\<lambda>k. (the (dict_get d k), k))
         (filter (\<lambda>k. take (length p) k = p) (remdups (map fst d)))),
      api_lease = (\<lambda>ttl (d, n). (n, (d, Suc n))),
      api_revoke = (\<lambda>l c. c),
      api_create_if_absent = (\<lambda>k v l (d, n).
         (Inr (wrap (dict_get d k = None)), (if dict_get d k = None then dict_set k v d else d, n)))\<rparr>"

definition map_server_view :: "(string, string) dict \<times> nat \<Rightarrow> string \<Rightarrow> string option" where
  "map_server_view = (\<lambda>(d, n). dict_get d)"

lemma map_server_kv: "etcd_kv_contract (map_server_api wrap) map_server_view"
proof -
  have "distinct (map snd (map (\<lambda>k. (the (map_of d k), k)) ks)) \<longleftrightarrow> distinct ks"
    for d :: "(string, string) dict" and ks by (simp add: comp_def)
  moreover have "k \<in> fst ` set d \<longleftrightarrow> (\<exists>v. map_of d k = Some v)" for d :: "(string, string) dict" and k
    by (metis map_of_eq_None_iff not_Some_eq)
  ultimately show ?thesis
    by (auto simp: etcd_kv_contract_def map_server_api_def map_server_view_def fun_eq_iff dict_simps
        intro!: image_eqI)
qed

lemma map_server_lock: "etcd_lock_contract wrap (map_server_api wrap) map_server_view"
  by (auto simp: etcd_lock_contract_def map_server_api_def map_server_view_def fun_eq_iff dict_simps)

theorem etcd_connect_endpoints_witness:
  "etcd_connect (map_server_api TxBool) (EtcdClient_new ((''etcd'' @ CHR '':'' # show_nat 2379) # []) ''/aode/'') =
      bind_res (api_client (map_server_api TxBool) ''etcd'' (int 2379)) (\<lambda>c.
        Inr ((EtcdClient_new ((''etcd'' @ CHR '':'' # show_nat 2379) # []) ''/aode/'')\<lparr>ec_client := Some c\<rparr>)) \<and>
    etcd_connect (map_server_api TxBool) (EtcdClient_new ((''http'' @ '':'' @ ''etcd'' @ '':'' @ ''2379'') # []) ''/aode/'') =
      Inl (ValueError ''too many values to unpack (expected 2)'')"
  by (rule etcd_connect_endpoints) simp_all

section \<open>Who leads\<close>

text \<open>Several fresh instances run their election one after the other on one server.\<close>

fun run_elections ::
    "'c etcd3_api \<Rightarrow> string \<Rightarrow> (string \<times> int) list \<Rightarrow> 'c \<Rightarrow> LeaderElection list \<times> 'c" where
  "run_elections api prefix [] c = ([], c)"
| "run_elections api prefix ((inst, now) # insts) c =
     (case start_election api now (LeaderElection_new inst, (EtcdClient_new [] prefix)\<lparr>ec_client := Some c\<rparr>) of
        (r, le, ec) \<Rightarrow>
          (case run_elections api prefix insts (case ec_client ec of Some c' \<Rightarrow> c' | None \<Rightarrow> c) of
             (les, c') \<Rightarrow> (le # les, c')))"

definition lock_key :: "string \<Rightarrow> string" where
  "lock_key prefix = prefix @ ''leaders/'' @ ''aode''"

lemma start_election_step:
  assumes "etcd_lock_contract wrap api view"
  obtains ec' c' where
    "start_election api now (LeaderElection_new inst, (EtcdClient_new [] prefix)\<lparr>ec_client := Some c\<rparr>) =
       (Inr (tx_truth (wrap (view c (lock_key prefix) = None))),
        \<lparr>le_instance_id = inst, le_is_leader = tx_truth (wrap (view c (lock_key prefix) = None)),
         le_task = tx_truth (wrap (view c (lock_key prefix) = None))\<rparr>, ec')"
    "ec_client ec' = Some c'" "view c' (lock_key prefix) \<noteq> None" "ec_lease ec' \<noteq> None"
proof -
  obtain l c1 where l: "api_lease api 30 c = (l, c1)" by (rule prod.exhaust)
  let ?k = "lock_key prefix" and ?v = "''leader-'' @ show_int now"
  obtain r c2 where t: "api_create_if_absent api ?k ?v l c1 = (r, c2)" by (rule prod.exhaust)
  have v1: "view c1 = view c" using assms l unfolding etcd_lock_contract_def by (metis snd_conv)
  have r: "r = Inr (wrap (view c ?k = None))"
    using assms t v1 unfolding etcd_lock_contract_def by (metis fst_conv)
  have v2: "view c2 = (if view c ?k = None then (view c)(?k \<mapsto> ?v) else view c)"
    using assms t v1 unfolding etcd_lock_contract_def by (metis snd_conv)
  show ?thesis
    by (rule that [of "(EtcdClient_new [] prefix)\<lparr>ec_client := Some c2, ec_lease := Some l\<rparr>" c2])
       (use l t r v2 in \<open>simp_all add: start_election_def acquire_leader_lock_def EtcdClient_new_def
          LeaderElection_new_def lock_key_def Let_def\<close>)
qed

lemma run_elections_leaders:
  assumes "etcd_lock_contract wrap api view"
  shows "map le_is_leader (fst (run_elections api prefix insts c)) =
    (case insts of [] \<Rightarrow> []
     | _ # rest \<Rightarrow> tx_truth (wrap (view c (lock_key prefix) = None)) #
         replicate (length rest) (tx_truth (wrap False)))"
proof (induction insts arbitrary: c)
  case (Cons i insts)
  obtain inst now where i: "i = (inst, now)" by (rule prod.exhaust)
  obtain ec' c' where s: "start_election api now (LeaderElection_new inst, (EtcdClient_new [] prefix)\<lparr>ec_client := Some c\<rparr>) =
       (Inr (tx_truth (wrap (view c (lock_key prefix) = None))),
        \<lparr>le_instance_id = inst, le_is_leader = tx_truth (wrap (view c (lock_key prefix) = None)),
         le_task = tx_truth (wrap (view c (lock_key prefix) = None))\<rparr>, ec')"
    "ec_client ec' = Some c'" "view c' (lock_key prefix) \<noteq> None"
    by (rule start_election_step [OF assms])
  from Cons.IH [of c'] s i show ?case
    by (auto split: prod.splits list.splits)
qed simp

text \<open>With a plain bool as the status of the transaction, a lock is a lock.  Of all the instances that
  run for it on one server at most one leads, and none if the lock was already taken.\<close>

theorem at_most_one_leader:
  assumes "etcd_lock_contract TxBool api view"
  shows "length (filter le_is_leader (fst (run_elections api prefix insts c))) =
    (if view c (lock_key prefix) = None \<and> insts \<noteq> [] then 1 else 0)"
proof -
  have n: "length (filter le_is_leader les) = length (filter id (map le_is_leader les))" for les
    by (simp add: filter_map comp_def)
  show ?thesis
    unfolding n run_elections_leaders [OF assms] by (cases insts) simp_all
qed

theorem at_most_one_leader_witness:
  "length (filter le_is_leader (fst (run_elections (map_server_api TxBool) ''/aode/''
     [(''aode-1'', 10), (''aode-2'', 11), (''aode-3'', 12)] ([], 0)))) = 1"
  using at_most_one_leader [OF map_server_lock, of "''/aode/''" "[(''aode-1'', 10), (''aode-2'', 11), (''aode-3'', 12)]" "([], 0)"]
  by (simp add: map_server_view_def)

text \<open>With the pair that the package documents as the result, every instance leads.  The source tests
  the pair for truth, which it always is, so the lock excludes nobody.\<close>

theorem every_instance_leads:
  assumes "etcd_lock_contract (\<lambda>ok. TxTuple ok responses) api view"
  shows "list_all le_is_leader (fst (run_elections api prefix insts c)) \<and>
    length (fst (run_elections api prefix insts c)) = length insts"
proof -
  have "length (map le_is_leader (fst (run_elections api prefix insts c))) = length insts"
    unfolding run_elections_leaders [OF assms] by (simp split: list.splits)
  then have "length (fst (run_elections api prefix insts c)) = length insts" by simp
  moreover have "list_all id (map le_is_leader (fst (run_elections api prefix insts c)))"
    unfolding run_elections_leaders [OF assms] by (cases insts) (simp_all add: list_all_iff)
  ultimately show ?thesis by (simp add: list_all_iff)
qed

theorem every_instance_leads_witness:
  "list_all le_is_leader (fst (run_elections (map_server_api (\<lambda>ok. TxTuple ok [])) ''/aode/''
     [(''aode-1'', 10), (''aode-2'', 11)] ([], 0)))"
  using every_instance_leads [OF map_server_lock, of "[]" "''/aode/''" "[(''aode-1'', 10), (''aode-2'', 11)]" "([], 0)"]
  by simp

section \<open>Reading the map back\<close>

lemma collect_dict_get:
  "map_of (collect_dict P results kv) s =
     (case filter (\<lambda>(v, k). key_suffix P k = s \<and> s \<noteq> []) (rev results) of
        [] \<Rightarrow> map_of kv s | (v, k) # _ \<Rightarrow> Some v)"
proof (induction P results kv rule: collect_dict.induct)
  case (2 P val key results kv)
  show ?case
    unfolding collect_dict.simps "2.IH"
    by (auto simp: dict_simps split: list.splits)
qed simp

lemma collect_dict_wf: "wf_dict kv \<Longrightarrow> wf_dict (collect_dict P results kv)"
  by (induction P results kv rule: collect_dict.induct) auto

lemma case_first_value:
  "(case F of [] \<Rightarrow> None | (v, k) # _ \<Rightarrow> Some v) = Some x \<Longrightarrow> \<exists>k. (x, k) \<in> set F"
  "(v, k) \<in> set F \<Longrightarrow> (case F of [] \<Rightarrow> None | (v, k) # _ \<Rightarrow> Some v) \<noteq> None"
  by (cases F; auto)+

text \<open>
  What \<open>get_dict\<close> holds after any history: a name is bound exactly if some key below the prefix has it
  as its suffix, and then to the value of such a key.
\<close>

lemma etcd_get_dict_spec:
  assumes "etcd_kv_contract api view" "ec_client ec = Some c" "etcd_get_dict api kp ec = Inr d"
  shows "dict_get d s = Some v \<Longrightarrow>
      \<exists>k. take (length (ec_prefix ec @ kp)) k = ec_prefix ec @ kp \<and> key_suffix (ec_prefix ec @ kp) k = s \<and> view c k = Some v"
    and "s \<noteq> [] \<Longrightarrow> take (length (ec_prefix ec @ kp)) k = ec_prefix ec @ kp \<Longrightarrow>
      key_suffix (ec_prefix ec @ kp) k = s \<Longrightarrow> view c k \<noteq> None \<Longrightarrow> dict_get d s \<noteq> None"
proof -
  let ?P = "ec_prefix ec @ kp"
  let ?F = "filter (\<lambda>(v, k). key_suffix ?P k = s \<and> s \<noteq> []) (rev (api_get_prefix api ?P c))"
  have d: "d = collect_dict ?P (api_get_prefix api ?P c) []"
    using assms(2,3) by (simp add: etcd_get_dict_def)
  have mem: "(v, k) \<in> set (api_get_prefix api ?P c) \<longleftrightarrow> take (length ?P) k = ?P \<and> view c k = Some v" for v k
    using assms(1) unfolding etcd_kv_contract_def by blast
  show "\<exists>k. take (length ?P) k = ?P \<and> key_suffix ?P k = s \<and> view c k = Some v" if "dict_get d s = Some v"
  proof -
    have "(case ?F of [] \<Rightarrow> None | (v, k) # _ \<Rightarrow> Some v) = Some v"
      using that unfolding d collect_dict_get map_of.simps .
    then have "\<exists>k. (v, k) \<in> set ?F" by (rule case_first_value(1))
    then obtain k where "(v, k) \<in> set ?F" ..
    then show ?thesis using mem by auto
  qed
  show "dict_get d s \<noteq> None"
    if "s \<noteq> []" "take (length ?P) k = ?P" "key_suffix ?P k = s" "view c k \<noteq> None"
  proof -
    note prems = that
    obtain v where "view c k = Some v" using prems(4) by blast
    then have "(v, k) \<in> set ?F" using mem prems(1-3) by auto
    then show ?thesis unfolding d collect_dict_get map_of.simps by (rule case_first_value(2))
  qed
qed

end
