(* ===== verification/Placement.thy ===== *)
theory Placement
  imports Etcd "HOL-Library.RBT_Impl"
begin

text \<open>
  The placement state of \<open>aode/aode/placement/state.py\<close>: a cache of the operators' tiers, written through
  to an etcd client whose calls are awaited, and the fixed tables of objectives, latency classes and
  capacities.  The lock only serialises the three coroutines; each is one step of the model.
\<close>

section \<open>The awaited client\<close>

record 'e placement_api =
  pe_get_dict :: "string \<Rightarrow> 'e \<Rightarrow> (string, string) dict res"
  pe_put :: "string \<Rightarrow> string \<Rightarrow> 'e \<Rightarrow> unit res \<times> 'e"
  pe_delete :: "string \<Rightarrow> 'e \<Rightarrow> unit res \<times> 'e"

text \<open>
  Awaiting a value that is not awaitable raises a \<open>TypeError\<close>, after the call itself has been done.  The
  methods of \<open>EtcdClient\<close> are plain functions, so \<open>await self._etcd.put(...)\<close> awaits \<open>None\<close>.
\<close>

definition not_awaitable :: "string \<Rightarrow> py_error" where
  "not_awaitable type_name =
     TypeError (''object '' @ type_name @ '' can'' @ [CHR 39] @ ''t be used in '' @ [CHR 39] @ ''await'' @ [CHR 39] @ '' expression'')"

fun await_plain :: "string \<Rightarrow> 'a res \<Rightarrow> 'b res" where
  "await_plain type_name (Inl e) = Inl e"
| "await_plain type_name (Inr x) = Inl (not_awaitable type_name)"

definition shipped_etcd :: "'c etcd3_api \<Rightarrow> 'c EtcdClient placement_api" where
  "shipped_etcd api =
     \<lparr>pe_get_dict = (\<lambda>key_prefix ec. await_plain ''dict'' (etcd_get_dict api key_prefix ec)),
      pe_put = (\<lambda>key val ec. apfst (await_plain ''NoneType'') (etcd_put api key val ec)),
      pe_delete = (\<lambda>key ec. apfst (await_plain ''NoneType'') (etcd_delete api key ec))\<rparr>"

text \<open>A client with the same calls as coroutines, which is what the placement state is written for.\<close>

definition coroutine_etcd :: "'c etcd3_api \<Rightarrow> 'c EtcdClient placement_api" where
  "coroutine_etcd api =
     \<lparr>pe_get_dict = etcd_get_dict api, pe_put = etcd_put api, pe_delete = etcd_delete api\<rparr>"

section \<open>PlacementState\<close>

record 'e PlacementState =
  ps_etcd :: 'e
  ps_cache :: "(string, string) dict"

definition PlacementState_new :: "'e \<Rightarrow> 'e PlacementState" where
  "PlacementState_new etcd = \<lparr>ps_etcd = etcd, ps_cache = []\<rparr>"

definition operator_key :: "string \<Rightarrow> string" where
  "operator_key operator_type = ''/placement/operators/'' @ operator_type"

definition load_from_etcd :: "'e placement_api \<Rightarrow> 'e PlacementState \<Rightarrow> unit res \<times> 'e PlacementState" where
  "load_from_etcd pe st =
     (case pe_get_dict pe ''/placement/operators'' (ps_etcd st) of
        Inl e \<Rightarrow> (Inl e, st)
      | Inr placement_data \<Rightarrow> (Inr (), st\<lparr>ps_cache := dict_of placement_data (ps_cache st)\<rparr>))"

text \<open>The cache is written first; an exception of the client leaves it written.\<close>

definition update_operator_placement ::
    "'e placement_api \<Rightarrow> string \<Rightarrow> string \<Rightarrow> 'e PlacementState \<Rightarrow> unit res \<times> 'e PlacementState" where
  "update_operator_placement pe operator_type tier_id st =
     (case pe_put pe (operator_key operator_type) tier_id (ps_etcd st) of
        (r, e') \<Rightarrow> (r, \<lparr>ps_etcd = e', ps_cache = dict_set operator_type tier_id (ps_cache st)\<rparr>))"

definition remove_operator ::
    "'e placement_api \<Rightarrow> string \<Rightarrow> 'e PlacementState \<Rightarrow> unit res \<times> 'e PlacementState" where
  "remove_operator pe operator_type st =
     (case pe_delete pe (operator_key operator_type) (ps_etcd st) of
        (r, e') \<Rightarrow> (r, \<lparr>ps_etcd = e', ps_cache = dict_pop operator_type (ps_cache st)\<rparr>))"

definition get_current_placement :: "'e PlacementState \<Rightarrow> (string, string) dict" where
  "get_current_placement st = ps_cache st"

definition get_operators_on_tier :: "string \<Rightarrow> 'e PlacementState \<Rightarrow> string list" where
  "get_operators_on_tier tier_id st = map fst (filter (\<lambda>p. snd p = tier_id) (ps_cache st))"

definition get_slo_map :: "(string, real option) dict" where
  "get_slo_map =
     [(''VehicleDetector'', Some 2000), (''ZoneAggregator'', None), (''PatternDetector'', None),
      (''RiskCheck'', Some 1), (''AnomalyDetector'', Some 5), (''StatAggregator'', None),
      (''ComplianceLogger'', None), (''NormalizerOperator'', Some 5), (''FeatureAggWindow'', Some 5),
      (''MultiStreamJoin'', Some 5), (''BinaryClassifier'', Some 5)]"

definition get_lambda_map :: "(string, string) dict" where
  "get_lambda_map =
     [(''VehicleDetector'', ''standard''), (''ZoneAggregator'', ''batch''), (''PatternDetector'', ''standard''),
      (''RiskCheck'', ''critical''), (''AnomalyDetector'', ''critical''), (''StatAggregator'', ''batch''),
      (''ComplianceLogger'', ''batch''), (''NormalizerOperator'', ''standard''), (''FeatureAggWindow'', ''standard''),
      (''MultiStreamJoin'', ''standard''), (''BinaryClassifier'', ''critical'')]"

definition get_tier_capacities :: "(string, int) dict" where
  "get_tier_capacities =
     [(''edge-node-1'', 5), (''edge-node-2'', 5), (''edge-node-3'', 5), (''edge-node-4'', 5), (''cloud'', 100)]"

definition get_available_tiers :: "string list" where
  "get_available_tiers = dict_keys get_tier_capacities"

lemma wf_update_operator_placement:
  "wf_dict (ps_cache st) \<Longrightarrow> wf_dict (ps_cache (snd (update_operator_placement pe op t st)))"
  by (simp add: update_operator_placement_def split: prod.splits)

lemma get_operators_on_tier_set:
  "wf_dict (ps_cache st) \<Longrightarrow>
   op \<in> set (get_operators_on_tier t st) \<longleftrightarrow> dict_get (get_current_placement st) op = Some t"
  by (auto simp: get_operators_on_tier_def get_current_placement_def in_set_get intro: get_in_set rev_image_eqI)

lemma operator_key_inj [simp]: "operator_key a = operator_key b \<longleftrightarrow> a = b"
  by (simp add: operator_key_def)

section \<open>Histories of the placement\<close>

datatype placement_step = Place string string | Remove string

fun do_placement :: "'e placement_api \<Rightarrow> placement_step \<Rightarrow> 'e PlacementState \<Rightarrow> 'e PlacementState" where
  "do_placement pe (Place op t) st = snd (update_operator_placement pe op t st)"
| "do_placement pe (Remove op) st = snd (remove_operator pe op st)"

definition run_placement :: "'e placement_api \<Rightarrow> placement_step list \<Rightarrow> 'e PlacementState \<Rightarrow> 'e PlacementState" where
  "run_placement pe steps st = foldl (\<lambda>st s. do_placement pe s st) st steps"

text \<open>
  What the placement state needs of its client is only the effect of the calls on the stored map; whether
  awaiting them then raises does not matter for the agreement of the cache with the store.
\<close>

locale placement_backend =
  fixes pe :: "'e placement_api" and stored :: "'e \<Rightarrow> string \<Rightarrow> string option" and ok :: "'e \<Rightarrow> bool"
  assumes put_stored: "ok e \<Longrightarrow> stored (snd (pe_put pe k v e)) = (stored e)(k \<mapsto> v)"
    and put_ok: "ok e \<Longrightarrow> ok (snd (pe_put pe k v e))"
    and delete_stored: "ok e \<Longrightarrow> stored (snd (pe_delete pe k e)) = (stored e)(k := None)"
    and delete_ok: "ok e \<Longrightarrow> ok (snd (pe_delete pe k e))"
begin

definition mirrors :: "'e PlacementState \<Rightarrow> bool" where
  "mirrors st \<longleftrightarrow> (\<forall>op. dict_get (ps_cache st) op = stored (ps_etcd st) (operator_key op))"

lemma step_mirrors:
  assumes "ok (ps_etcd st)" "mirrors st"
  shows "ok (ps_etcd (do_placement pe s st)) \<and> mirrors (do_placement pe s st)"
proof (cases s)
  case (Place op t)
  obtain r e' where p: "pe_put pe (operator_key op) t (ps_etcd st) = (r, e')" by (rule prod.exhaust)
  have "ok e'" "stored e' = (stored (ps_etcd st))(operator_key op \<mapsto> t)"
    using put_ok [OF assms(1), of "operator_key op" t] put_stored [OF assms(1), of "operator_key op" t] p
    by simp_all
  with Place p assms(2) show ?thesis
    by (simp add: mirrors_def update_operator_placement_def dict_simps)
next
  case (Remove op)
  obtain r e' where p: "pe_delete pe (operator_key op) (ps_etcd st) = (r, e')" by (rule prod.exhaust)
  have "ok e'" "stored e' = (stored (ps_etcd st))(operator_key op := None)"
    using delete_ok [OF assms(1), of "operator_key op"] delete_stored [OF assms(1), of "operator_key op"] p
    by simp_all
  with Remove p assms(2) show ?thesis
    by (simp add: mirrors_def remove_operator_def dict_simps)
qed

lemma run_mirrors:
  "ok (ps_etcd st) \<Longrightarrow> mirrors st \<Longrightarrow>
   ok (ps_etcd (run_placement pe steps st)) \<and> mirrors (run_placement pe steps st)"
  by (induction steps arbitrary: st) (simp_all add: run_placement_def step_mirrors)

end

text \<open>The store as \<open>EtcdClient\<close> sees it: the server's map below the client's key prefix.\<close>

definition client_view :: "('c \<Rightarrow> string \<Rightarrow> string option) \<Rightarrow> 'c EtcdClient \<Rightarrow> string \<Rightarrow> string option" where
  "client_view view ec k =
     (case ec_client ec of None \<Rightarrow> None | Some c \<Rightarrow> view c (ec_prefix ec @ k))"

definition connected :: "'c EtcdClient \<Rightarrow> bool" where
  "connected ec \<longleftrightarrow> ec_client ec \<noteq> None"

locale etcd_server =
  fixes api :: "'c etcd3_api" and view :: "'c \<Rightarrow> string \<Rightarrow> string option"
  assumes kv: "etcd_kv_contract api view"
begin

lemma put_view: "view (api_put api k v c) = (view c)(k \<mapsto> v)"
  using kv unfolding etcd_kv_contract_def by blast

lemma delete_view: "view (api_delete api k c) = (view c)(k := None)"
  using kv unfolding etcd_kv_contract_def by blast

lemma client_put:
  "connected ec \<Longrightarrow> client_view view (snd (etcd_put api k v ec)) = (client_view view ec)(k \<mapsto> v)"
  "connected ec \<Longrightarrow> connected (snd (etcd_put api k v ec))"
  "ec_prefix (snd (etcd_put api k v ec)) = ec_prefix ec"
  by (auto simp: connected_def etcd_put_def client_view_def put_view fun_eq_iff split: option.split)

lemma client_delete:
  "connected ec \<Longrightarrow> client_view view (snd (etcd_delete api k ec)) = (client_view view ec)(k := None)"
  "connected ec \<Longrightarrow> connected (snd (etcd_delete api k ec))"
  "ec_prefix (snd (etcd_delete api k ec)) = ec_prefix ec"
  by (auto simp: connected_def etcd_delete_def client_view_def delete_view fun_eq_iff split: option.split)

end

sublocale etcd_server \<subseteq> shipped: placement_backend "shipped_etcd api" "client_view view" connected
  by unfold_locales (auto simp: shipped_etcd_def client_put client_delete)

sublocale etcd_server \<subseteq> awaited: placement_backend "coroutine_etcd api" "client_view view" connected
  by unfold_locales (auto simp: coroutine_etcd_def client_put client_delete)

context etcd_server
begin

lemma shipped_mirrors:
  assumes "connected (ps_etcd st)"
    and "\<forall>op. dict_get (ps_cache st) op = client_view view (ps_etcd st) (operator_key op)"
  shows "connected (ps_etcd (run_placement (shipped_etcd api) steps st)) \<and>
    (\<forall>op. dict_get (ps_cache (run_placement (shipped_etcd api) steps st)) op =
       client_view view (ps_etcd (run_placement (shipped_etcd api) steps st)) (operator_key op))"
  using shipped.run_mirrors [OF assms(1), of steps] assms(2) by (simp add: shipped.mirrors_def)

lemma awaited_mirrors:
  assumes "connected (ps_etcd st)"
    and "\<forall>op. dict_get (ps_cache st) op = client_view view (ps_etcd st) (operator_key op)"
  shows "connected (ps_etcd (run_placement (coroutine_etcd api) steps st)) \<and>
    (\<forall>op. dict_get (ps_cache (run_placement (coroutine_etcd api) steps st)) op =
       client_view view (ps_etcd (run_placement (coroutine_etcd api) steps st)) (operator_key op))"
  using awaited.run_mirrors [OF assms(1), of steps] assms(2) by (simp add: awaited.mirrors_def)

end

interpretation map_server: etcd_server "map_server_api TxBool" map_server_view
  by unfold_locales (rule map_server_kv)

section \<open>Agreement, and what a restart recovers\<close>

lemma shipped_calls_raise:
  assumes "connected (ps_etcd st)"
  shows "fst (update_operator_placement (shipped_etcd api) op tier st) = Inl (not_awaitable ''NoneType'')"
    and "fst (remove_operator (shipped_etcd api) op st) = Inl (not_awaitable ''NoneType'')"
  using assms by (auto simp: connected_def update_operator_placement_def remove_operator_def shipped_etcd_def
      etcd_put_def etcd_delete_def apfst_def map_prod_def split: prod.splits)


definition sample_client :: "((string, string) dict \<times> nat) EtcdClient" where
  "sample_client = (EtcdClient_new [''etcd:2379''] ''/aode/'')\<lparr>ec_client := Some ([], 0)\<rparr>"

definition sample_steps :: "placement_step list" where
  "sample_steps = [Place ''RiskCheck'' ''cloud'', Place ''StatAggregator'' ''cloud'', Remove ''StatAggregator'',
     Place ''RiskCheck'' ''edge-node-1'']"


text \<open>The keys below the operators' prefix are those of operators, whose names start with another character.\<close>

definition plain_operator :: "string \<Rightarrow> bool" where
  "plain_operator op \<longleftrightarrow> op \<noteq> [] \<and> hd op \<noteq> CHR ''/''"

definition operator_keys_only :: "('c \<Rightarrow> string \<Rightarrow> string option) \<Rightarrow> 'c EtcdClient \<Rightarrow> bool" where
  "operator_keys_only view ec \<longleftrightarrow>
     (\<forall>k. take (length ''/placement/operators'') k = ''/placement/operators'' \<longrightarrow> client_view view ec k \<noteq> None \<longrightarrow>
        (\<exists>op. k = operator_key op \<and> plain_operator op))"

fun step_operator :: "placement_step \<Rightarrow> string" where
  "step_operator (Place op t) = op"
| "step_operator (Remove op) = op"

lemma operator_keys_only_upd:
  assumes "operator_keys_only view ec" "plain_operator op"
    and "client_view view ec' = (client_view view ec)(operator_key op := x)"
  shows "operator_keys_only view ec'"
  unfolding operator_keys_only_def
proof (intro allI impI)
  fix k assume k: "take (length ''/placement/operators'') k = ''/placement/operators''" "client_view view ec' k \<noteq> None"
  show "\<exists>op. k = operator_key op \<and> plain_operator op"
  proof (cases "k = operator_key op")
    case False
    then have "client_view view ec k \<noteq> None" using k(2) assms(3) by simp
    with k(1) assms(1) show ?thesis unfolding operator_keys_only_def by blast
  qed (use assms(2) in blast)
qed

lemma shipped_step_etcd:
  "ps_etcd (do_placement (shipped_etcd api) (Place op t) st) = snd (etcd_put api (operator_key op) t (ps_etcd st))"
  "ps_etcd (do_placement (shipped_etcd api) (Remove op) st) = snd (etcd_delete api (operator_key op) (ps_etcd st))"
  by (auto simp: update_operator_placement_def remove_operator_def shipped_etcd_def apfst_def map_prod_def
      split: prod.splits)

lemma key_suffix_operator:
  "plain_operator op \<Longrightarrow> key_suffix (prefix @ ''/placement/operators'') (prefix @ operator_key op) = op"
  by (cases op) (simp_all add: key_suffix_def operator_key_def plain_operator_def)

lemma map_of_rev_wf: "wf_dict d \<Longrightarrow> map_of (rev d) = map_of d"
  by (simp add: wf_dict_def distinct_map_of_rev)

context etcd_server
begin

lemma shipped_step_keys:
  assumes "connected (ps_etcd st)" "operator_keys_only view (ps_etcd st)" "plain_operator (step_operator s)"
  shows "operator_keys_only view (ps_etcd (do_placement (shipped_etcd api) s st)) \<and>
    connected (ps_etcd (do_placement (shipped_etcd api) s st))"
proof (cases s)
  case (Place op t)
  show ?thesis
    using operator_keys_only_upd [OF assms(2), of op] client_put(1,2) [OF assms(1)] assms(3)
    unfolding Place shipped_step_etcd by simp
next
  case (Remove op)
  show ?thesis
    using operator_keys_only_upd [OF assms(2), of op] client_delete(1,2) [OF assms(1)] assms(3)
    unfolding Remove shipped_step_etcd by simp
qed

lemma shipped_run_keys:
  assumes "connected (ps_etcd st)" "operator_keys_only view (ps_etcd st)"
    and "\<forall>s \<in> set steps. plain_operator (step_operator s)"
  shows "operator_keys_only view (ps_etcd (run_placement (shipped_etcd api) steps st))"
  using assms
proof (induction steps arbitrary: st)
  case (Cons s steps)
  with shipped_step_keys show ?case by (simp add: run_placement_def)
qed (simp add: run_placement_def)

lemma awaited_load:
  assumes "ec_client ec = Some c" "operator_keys_only view ec"
  shows "dict_get (ps_cache (snd (load_from_etcd (coroutine_etcd api) (PlacementState_new ec)))) op =
    (if plain_operator op then client_view view ec (operator_key op) else None)"
proof -
  let ?P = "ec_prefix ec @ ''/placement/operators''"
  obtain d where d: "etcd_get_dict api ''/placement/operators'' ec = Inr d" "wf_dict d"
    using assms(1) by (simp add: etcd_get_dict_def collect_dict_wf)
  note spec = etcd_get_dict_spec [OF kv assms(1) d(1)]
  have key: "\<exists>op'. k = ec_prefix ec @ operator_key op' \<and> plain_operator op'"
    if "take (length ?P) k = ?P" "view c k \<noteq> None" for k
  proof -
    define r where "r = drop (length ?P) k"
    have r: "k = ?P @ r"
      using append_take_drop_id [of "length ?P" k] unfolding r_def that(1) by (rule sym)
    then have "client_view view ec (''/placement/operators'' @ r) \<noteq> None"
      using that(2) assms(1) by (simp add: client_view_def)
    then obtain op' where "''/placement/operators'' @ r = operator_key op'" "plain_operator op'"
      using assms(2) [unfolded operator_keys_only_def, rule_format, of "''/placement/operators'' @ r"] by auto
    with r show ?thesis by (intro exI [of _ op']) simp
  qed
  have "dict_get d op = (if plain_operator op then client_view view ec (operator_key op) else None)"
  proof (cases "dict_get d op")
    case (Some v)
    then obtain k where k: "take (length ?P) k = ?P" "key_suffix ?P k = op" "view c k = Some v"
      using spec(1) by blast
    then obtain op' where "k = ec_prefix ec @ operator_key op'" "plain_operator op'" using key by blast
    with k key_suffix_operator Some assms(1) show ?thesis by (auto simp: client_view_def)
  next
    case None
    have "client_view view ec (operator_key op) = None" if "plain_operator op"
    proof (rule ccontr)
      assume "client_view view ec (operator_key op) \<noteq> None"
      then have "view c (ec_prefix ec @ operator_key op) \<noteq> None" using assms(1) by (simp add: client_view_def)
      moreover have "take (length ?P) (ec_prefix ec @ operator_key op) = ?P" by (simp add: operator_key_def)
      ultimately have "dict_get d op \<noteq> None"
        using spec(2) key_suffix_operator [OF that] that unfolding plain_operator_def by blast
      with None show False by simp
    qed
    with None show ?thesis by simp
  qed
  with d show ?thesis
    by (simp add: load_from_etcd_def coroutine_etcd_def PlacementState_new_def map_of_dict_of map_of_rev_wf
        split: option.split)
qed

end

lemma shipped_load_raises:
  "connected ec \<Longrightarrow>
   load_from_etcd (shipped_etcd api) (PlacementState_new ec) = (Inl (not_awaitable ''dict''), PlacementState_new ec)"
  by (auto simp: connected_def load_from_etcd_def shipped_etcd_def PlacementState_new_def etcd_get_dict_def)

lemma connected_Some: "connected ec \<Longrightarrow> \<exists>c. ec_client ec = Some c"
  by (simp add: connected_def)



end
