(* ===== verification/Migration.thy ===== *)
theory Migration
  imports Placement Telemetry
begin

text \<open>
  The migration protocol of \<open>aode/aode/migration/pctr.py\<close> (drain, snapshot, restore, terminate), the
  orchestrator that runs it, and the clients of \<open>aode/aode/grpc/clients.py\<close> it is wired to.  The remote
  nodes are a parameter: every reply may depend on all the calls made before, may raise, or may not come
  before the timeout.
\<close>

section \<open>Calls to the nodes\<close>

text \<open>The node of a call is named by the key of the client that makes it.\<close>

datatype rpc =
    Drain string string
  | Snapshot string string int string
  | Restore string string string
  | RestoreFlink string string
  | Terminate string string bool

datatype 'a outcome = Returns 'a | Raises py_error | Hangs

record SnapshotReply =
  sr_object_key :: string
  sr_byte_size :: int
  sr_error_msg :: string

record TerminateReply =
  tr_success :: bool
  tr_error_msg :: string

text \<open>
  \<open>ne_clients\<close> are the keys of \<open>hea_clients\<close>; the other fields answer a call, given the calls before it
  and the wall clock \<open>int(time.time())\<close> where the source reads it.
\<close>

record migration_env =
  ne_clients :: "string list"
  ne_time :: "rpc list \<Rightarrow> int"
  ne_drain :: "rpc list \<Rightarrow> string \<Rightarrow> string \<Rightarrow> (int, int) dict outcome"
  ne_snapshot :: "rpc list \<Rightarrow> string \<Rightarrow> string \<Rightarrow> int \<Rightarrow> string \<Rightarrow> SnapshotReply outcome"
  ne_restore :: "rpc list \<Rightarrow> string \<Rightarrow> string \<Rightarrow> string \<Rightarrow> unit outcome"
  ne_restore_flink :: "rpc list \<Rightarrow> string \<Rightarrow> string \<Rightarrow> unit outcome"
  ne_terminate :: "rpc list \<Rightarrow> string \<Rightarrow> string \<Rightarrow> bool \<Rightarrow> TerminateReply outcome"

section \<open>One migration\<close>

datatype MigrationPhase = PHASE_1_DRAIN | PHASE_2_SNAP | PHASE_3_RESTORE | PHASE_4_TERM

fun phase_value :: "MigrationPhase \<Rightarrow> string" where
  "phase_value PHASE_1_DRAIN = ''drain''"
| "phase_value PHASE_2_SNAP = ''snapshot''"
| "phase_value PHASE_3_RESTORE = ''restore''"
| "phase_value PHASE_4_TERM = ''terminate''"

record PCTRMigration =
  mg_id :: string
  mg_operator :: string
  mg_source :: string
  mg_target :: string
  mg_phase :: MigrationPhase
  mg_offsets :: "(int, int) dict"
  mg_snapshot_key :: "string option"
  mg_snapshot_size :: int
  mg_completed :: bool
  mg_error :: "string option"

definition PCTRMigration_new :: "string \<Rightarrow> string \<Rightarrow> string \<Rightarrow> string \<Rightarrow> PCTRMigration" where
  "PCTRMigration_new mid oid source target =
     \<lparr>mg_id = mid, mg_operator = oid, mg_source = source, mg_target = target, mg_phase = PHASE_1_DRAIN,
      mg_offsets = [], mg_snapshot_key = None, mg_snapshot_size = 0, mg_completed = False, mg_error = None\<rparr>"

text \<open>A phase works on the migration and on the list of calls made so far, in order.\<close>

type_synonym mig = "PCTRMigration \<times> rpc list"
type_synonym phase_run = "unit outcome \<times> mig"

definition no_source :: "string \<Rightarrow> py_error" where
  "no_source tier = ValueError (''No HEA client for source tier: '' @ tier)"

definition phase_1_drain :: "migration_env \<Rightarrow> mig \<Rightarrow> phase_run" where
  "phase_1_drain env = (\<lambda>(mg, tr).
     (let mg = mg\<lparr>mg_phase := PHASE_1_DRAIN\<rparr>; src = mg_source mg; oid = mg_operator mg
      in if src \<notin> set (ne_clients env) then (Raises (no_source src), mg, tr)
         else
           (let tr' = tr @ [Drain src oid]
            in case ne_drain env tr src oid of
                 Returns offset_map \<Rightarrow> (Returns (), mg\<lparr>mg_offsets := offset_map\<rparr>, tr')
               | Raises e \<Rightarrow> (Raises e, mg, tr')
               | Hangs \<Rightarrow> (Hangs, mg, tr'))))"

text \<open>\<open>json.dumps\<close> of the offsets: the integer keys become strings.\<close>

definition json_of_offsets :: "(int, int) dict \<Rightarrow> string" where
  "json_of_offsets d =
     ''{'' @ join_with '', '' (map (\<lambda>(k, v). [CHR 34] @ show_int k @ [CHR 34] @ '': '' @ show_int v) d) @ ''}''"

definition phase_2_snapshot :: "migration_env \<Rightarrow> mig \<Rightarrow> phase_run" where
  "phase_2_snapshot env = (\<lambda>(mg, tr).
     (let mg = mg\<lparr>mg_phase := PHASE_2_SNAP\<rparr>; src = mg_source mg; oid = mg_operator mg
      in if src \<notin> set (ne_clients env) then (Raises (no_source src), mg, tr)
         else
           (let seq = ne_time env tr; offs = json_of_offsets (mg_offsets mg); tr' = tr @ [Snapshot src oid seq offs]
            in case ne_snapshot env tr src oid seq offs of
                 Returns r \<Rightarrow>
                   (if sr_error_msg r \<noteq> [] then
                      (Raises (RuntimeError (''Snapshot failed: '' @ sr_error_msg r)), mg, tr')
                    else
                      (Returns (),
                       mg\<lparr>mg_snapshot_key := Some (sr_object_key r), mg_snapshot_size := sr_byte_size r\<rparr>, tr'))
               | Raises e \<Rightarrow> (Raises e, mg, tr')
               | Hangs \<Rightarrow> (Hangs, mg, tr'))))"

text \<open>
  The result of the restore is not looked at.  The key is \<open>None\<close> only before the second phase has
  succeeded, which is never the case when this phase runs.
\<close>

definition snapshot_key_arg :: "PCTRMigration \<Rightarrow> string" where
  "snapshot_key_arg mg = (case mg_snapshot_key mg of Some k \<Rightarrow> k | None \<Rightarrow> ''None'')"

definition phase_3_restore :: "migration_env \<Rightarrow> mig \<Rightarrow> phase_run" where
  "phase_3_restore env = (\<lambda>(mg, tr).
     (let mg = mg\<lparr>mg_phase := PHASE_3_RESTORE\<rparr>; tgt = mg_target mg; oid = mg_operator mg; key = snapshot_key_arg mg
      in if tgt = ''cloud'' then (ne_restore_flink env tr oid key, mg, tr @ [RestoreFlink oid key])
         else if tgt \<notin> set (ne_clients env) then
           (Raises (ValueError (''No HEA client for target tier: '' @ tgt)), mg, tr)
         else (ne_restore env tr tgt oid key, mg, tr @ [Restore tgt oid key])))"

definition phase_4_terminate :: "migration_env \<Rightarrow> mig \<Rightarrow> phase_run" where
  "phase_4_terminate env = (\<lambda>(mg, tr).
     (let mg = mg\<lparr>mg_phase := PHASE_4_TERM\<rparr>; src = mg_source mg; oid = mg_operator mg
      in if src \<notin> set (ne_clients env) then (Raises (no_source src), mg, tr)
         else
           (let tr' = tr @ [Terminate src oid True]
            in case ne_terminate env tr src oid True of
                 Returns r \<Rightarrow>
                   (if \<not> tr_success r then
                      (Raises (RuntimeError (''Termination failed: '' @ tr_error_msg r)), mg, tr')
                    else (Returns (), mg, tr'))
               | Raises e \<Rightarrow> (Raises e, mg, tr')
               | Hangs \<Rightarrow> (Hangs, mg, tr'))))"

fun then_phase :: "phase_run \<Rightarrow> (mig \<Rightarrow> phase_run) \<Rightarrow> phase_run" where
  "then_phase (Returns u, m) p = p m"
| "then_phase (Raises e, m) p = (Raises e, m)"
| "then_phase (Hangs, m) p = (Hangs, m)"

definition all_phases :: "migration_env \<Rightarrow> mig \<Rightarrow> phase_run" where
  "all_phases env m =
     then_phase (then_phase (then_phase (phase_1_drain env m) (phase_2_snapshot env)) (phase_3_restore env))
       (phase_4_terminate env)"

text \<open>\<open>execute\<close>: every exception ends up as the migration's error; a call that never returns hangs it.\<close>

definition execute :: "migration_env \<Rightarrow> mig \<Rightarrow> bool outcome \<times> mig" where
  "execute env m =
     (case all_phases env m of
        (Returns u, mg, tr) \<Rightarrow> (Returns True, mg\<lparr>mg_completed := True\<rparr>, tr)
      | (Raises e, mg, tr) \<Rightarrow> (Returns False, mg\<lparr>mg_error := Some (str_of_error e)\<rparr>, tr)
      | (Hangs, mg, tr) \<Rightarrow> (Hangs, mg, tr))"

section \<open>Orchestrator\<close>

record PCTROrchestrator =
  or_active :: "(string, PCTRMigration) dict"
  or_counter :: nat

definition PCTROrchestrator_new :: PCTROrchestrator where
  "PCTROrchestrator_new = \<lparr>or_active = [], or_counter = 0\<rparr>"

definition migration_name :: "nat \<Rightarrow> string" where
  "migration_name n = ''migration-'' @ pad0 4 (show_nat n)"

text \<open>\<open>migrate_operator\<close> records the migration and leaves its execution to a task.\<close>

definition migrate_operator ::
    "string \<Rightarrow> string \<Rightarrow> string \<Rightarrow> PCTROrchestrator \<Rightarrow> string res \<times> PCTROrchestrator" where
  "migrate_operator oid source target orch =
     (if dict_get (or_active orch) oid \<noteq> None then
        (Inl (ValueError (''Operator '' @ oid @ '' is already being migrated'')), orch)
      else
        (let n = Suc (or_counter orch); mid = migration_name n
         in (Inr mid,
             \<lparr>or_active = dict_set oid (PCTRMigration_new mid oid source target) (or_active orch),
              or_counter = n\<rparr>)))"

text \<open>
  \<open>_execute_migration\<close> for the active migration of an operator: run it under the timeout, then drop it.
  The result is the migration as it was when it was dropped.
\<close>

definition execute_migration ::
    "AODEConfig \<Rightarrow> migration_env \<Rightarrow> string \<Rightarrow> PCTROrchestrator \<times> rpc list \<Rightarrow>
     PCTRMigration option \<times> PCTROrchestrator \<times> rpc list" where
  "execute_migration cfg env oid = (\<lambda>(orch, tr).
     (case dict_get (or_active orch) oid of
        None \<Rightarrow> (None, orch, tr)
      | Some mg \<Rightarrow>
          (case execute env (mg, tr) of
             (r, mg', tr') \<Rightarrow>
               (Some (if r = Hangs
                      then mg'\<lparr>mg_error := Some (''Migration timed out after '' @ show_int (migration_timeout_s cfg) @ ''s'')\<rparr>
                      else mg'),
                orch\<lparr>or_active := dict_pop (mg_operator mg) (or_active orch)\<rparr>, tr'))))"

record migration_status =
  ms_migration_id :: string
  ms_operator_id :: string
  ms_source_tier :: string
  ms_target_tier :: string
  ms_phase :: string
  ms_snapshot_size :: int
  ms_completed :: bool
  ms_error :: "string option"

text \<open>\<open>get_status\<close>, less the elapsed time.\<close>

definition migration_get_status :: "PCTRMigration \<Rightarrow> migration_status" where
  "migration_get_status mg =
     \<lparr>ms_migration_id = mg_id mg, ms_operator_id = mg_operator mg, ms_source_tier = mg_source mg,
      ms_target_tier = mg_target mg, ms_phase = phase_value (mg_phase mg), ms_snapshot_size = mg_snapshot_size mg,
      ms_completed = mg_completed mg, ms_error = mg_error mg\<rparr>"

definition get_migration_status :: "string \<Rightarrow> PCTROrchestrator \<Rightarrow> migration_status option" where
  "get_migration_status oid orch = map_option migration_get_status (dict_get (or_active orch) oid)"

definition list_active_migrations :: "PCTROrchestrator \<Rightarrow> migration_status list" where
  "list_active_migrations orch = map (migration_get_status \<circ> snd) (or_active orch)"

section \<open>The protocol of one migration\<close>

text \<open>The restore call and its answer, by target.\<close>

definition restore_call :: "string \<Rightarrow> string \<Rightarrow> string \<Rightarrow> rpc" where
  "restore_call tgt oid key = (if tgt = ''cloud'' then RestoreFlink oid key else Restore tgt oid key)"

definition restore_answer :: "migration_env \<Rightarrow> rpc list \<Rightarrow> string \<Rightarrow> string \<Rightarrow> string \<Rightarrow> unit outcome" where
  "restore_answer env tr tgt oid key =
     (if tgt = ''cloud'' then ne_restore_flink env tr oid key else ne_restore env tr tgt oid key)"

definition protocol_calls :: "string \<Rightarrow> string \<Rightarrow> string \<Rightarrow> (int, int) dict \<Rightarrow> int \<Rightarrow> string \<Rightarrow> rpc list" where
  "protocol_calls src tgt oid offsets seq key =
     [Drain src oid, Snapshot src oid seq (json_of_offsets offsets), restore_call tgt oid key, Terminate src oid True]"

text \<open>The four phases one by one, on a migration in the state the phases before it leave.\<close>

lemmas phase_defs = phase_1_drain_def phase_2_snapshot_def phase_3_restore_def phase_4_terminate_def

definition after_drain :: "string \<Rightarrow> string \<Rightarrow> string \<Rightarrow> string \<Rightarrow> (int, int) dict \<Rightarrow> PCTRMigration" where
  "after_drain mid oid src tgt offsets = (PCTRMigration_new mid oid src tgt)\<lparr>mg_offsets := offsets\<rparr>"

definition after_snapshot :: "string \<Rightarrow> string \<Rightarrow> string \<Rightarrow> string \<Rightarrow> (int, int) dict \<Rightarrow> SnapshotReply \<Rightarrow> PCTRMigration" where
  "after_snapshot mid oid src tgt offsets reply =
     (after_drain mid oid src tgt offsets)\<lparr>mg_phase := PHASE_2_SNAP, mg_snapshot_key := Some (sr_object_key reply),
        mg_snapshot_size := sr_byte_size reply\<rparr>"

text \<open>How far a run gets: the calls it has made, and the condition of each next call.\<close>

definition protocol_run ::
    "migration_env \<Rightarrow> string \<Rightarrow> string \<Rightarrow> string \<Rightarrow> rpc list \<Rightarrow> bool outcome \<Rightarrow> rpc list \<Rightarrow>
     nat \<Rightarrow> (int, int) dict \<Rightarrow> int \<Rightarrow> SnapshotReply \<Rightarrow> bool" where
  "protocol_run env oid src tgt tr r tr' n offsets seq reply \<longleftrightarrow>
     (let calls = protocol_calls src tgt oid offsets seq (sr_object_key reply)
      in n \<le> 4 \<and> tr' = tr @ take n calls \<and>
         (2 \<le> n \<longrightarrow> ne_drain env tr src oid = Returns offsets) \<and>
         (3 \<le> n \<longrightarrow> ne_snapshot env (tr @ take 1 calls) src oid seq (json_of_offsets offsets) = Returns reply \<and>
            sr_error_msg reply = []) \<and>
         (4 \<le> n \<longrightarrow> restore_answer env (tr @ take 2 calls) tgt oid (sr_object_key reply) = Returns ()) \<and>
         (r = Returns True \<longleftrightarrow> n = 4 \<and>
            (\<exists>t. ne_terminate env (tr @ take 3 calls) src oid True = Returns t \<and> tr_success t)))"

lemma execute_cases:
  assumes "execute env m = (r, mg, tr')"
  obtains (ok) mg' where "all_phases env m = (Returns (), mg', tr')" "r = Returns True" "mg = mg'\<lparr>mg_completed := True\<rparr>"
  | (error) e mg' where "all_phases env m = (Raises e, mg', tr')" "r = Returns False" "mg = mg'\<lparr>mg_error := Some (str_of_error e)\<rparr>"
  | (hang) "all_phases env m = (Hangs, mg, tr')" "r = Hangs"
  using assms unfolding execute_def by (cases "all_phases env m" rule: prod_cases3) (auto split: outcome.splits)

lemma then_phase_Returns:
  "then_phase q p = (Returns u, m) \<longleftrightarrow> (\<exists>m'. q = (Returns (), m') \<and> p m' = (Returns u, m))"
  by (cases "(q, p)" rule: then_phase.cases) auto

text \<open>Each phase on the state that the phases before it leave.\<close>

lemma phase_1_new:
  "phase_1_drain env (PCTRMigration_new mid oid src tgt, tr) =
     (if src \<notin> set (ne_clients env) then (Raises (no_source src), PCTRMigration_new mid oid src tgt, tr)
      else case ne_drain env tr src oid of
        Returns offsets \<Rightarrow> (Returns (), after_drain mid oid src tgt offsets, tr @ [Drain src oid])
      | Raises e \<Rightarrow> (Raises e, PCTRMigration_new mid oid src tgt, tr @ [Drain src oid])
      | Hangs \<Rightarrow> (Hangs, PCTRMigration_new mid oid src tgt, tr @ [Drain src oid]))"
  by (simp add: phase_1_drain_def PCTRMigration_new_def after_drain_def Let_def split: outcome.split)

lemma phase_2_after:
  assumes "src \<in> set (ne_clients env)" "seq = ne_time env tr" "offs = json_of_offsets offsets"
  shows "phase_2_snapshot env (after_drain mid oid src tgt offsets, tr) =
     (case ne_snapshot env tr src oid seq offs of
        Returns reply \<Rightarrow>
          if sr_error_msg reply \<noteq> [] then
            (Raises (RuntimeError (''Snapshot failed: '' @ sr_error_msg reply)),
             (after_drain mid oid src tgt offsets)\<lparr>mg_phase := PHASE_2_SNAP\<rparr>, tr @ [Snapshot src oid seq offs])
          else (Returns (), after_snapshot mid oid src tgt offsets reply, tr @ [Snapshot src oid seq offs])
      | Raises e \<Rightarrow> (Raises e, (after_drain mid oid src tgt offsets)\<lparr>mg_phase := PHASE_2_SNAP\<rparr>, tr @ [Snapshot src oid seq offs])
      | Hangs \<Rightarrow> (Hangs, (after_drain mid oid src tgt offsets)\<lparr>mg_phase := PHASE_2_SNAP\<rparr>, tr @ [Snapshot src oid seq offs]))"
  using assms
  by (simp add: phase_2_snapshot_def after_snapshot_def after_drain_def PCTRMigration_new_def Let_def
      split: outcome.split)

lemma phase_3_after:
  assumes "mg = after_snapshot mid oid src tgt offsets reply" "key = sr_object_key reply"
  shows "phase_3_restore env (mg, tr) =
     (if tgt \<noteq> ''cloud'' \<and> tgt \<notin> set (ne_clients env) then
        (Raises (ValueError (''No HEA client for target tier: '' @ tgt)), mg\<lparr>mg_phase := PHASE_3_RESTORE\<rparr>, tr)
      else (restore_answer env tr tgt oid key, mg\<lparr>mg_phase := PHASE_3_RESTORE\<rparr>, tr @ [restore_call tgt oid key]))"
  using assms
  by (simp add: phase_3_restore_def after_snapshot_def after_drain_def PCTRMigration_new_def Let_def
      snapshot_key_arg_def restore_answer_def restore_call_def)

lemma phase_4_after:
  assumes "mg_source mg = src" "mg_operator mg = oid" "src \<in> set (ne_clients env)"
  shows "phase_4_terminate env (mg, tr) =
     (case ne_terminate env tr src oid True of
        Returns t \<Rightarrow>
          if \<not> tr_success t then
            (Raises (RuntimeError (''Termination failed: '' @ tr_error_msg t)), mg\<lparr>mg_phase := PHASE_4_TERM\<rparr>,
             tr @ [Terminate src oid True])
          else (Returns (), mg\<lparr>mg_phase := PHASE_4_TERM\<rparr>, tr @ [Terminate src oid True])
      | Raises e \<Rightarrow> (Raises e, mg\<lparr>mg_phase := PHASE_4_TERM\<rparr>, tr @ [Terminate src oid True])
      | Hangs \<Rightarrow> (Hangs, mg\<lparr>mg_phase := PHASE_4_TERM\<rparr>, tr @ [Terminate src oid True]))"
  using assms by (simp add: phase_4_terminate_def Let_def split: outcome.split)

lemma after_snapshot_simps [simp]:
  "mg_source (after_snapshot mid oid src tgt offsets reply) = src"
  "mg_operator (after_snapshot mid oid src tgt offsets reply) = oid"
  by (simp_all add: after_snapshot_def after_drain_def PCTRMigration_new_def)

lemma protocol_run_exists:
  assumes run: "execute env (PCTRMigration_new mid oid src tgt, tr) = (r, mg, tr')"
  shows "\<exists>n offsets seq reply. protocol_run env oid src tgt tr r tr' n offsets seq reply"
proof (cases "src \<in> set (ne_clients env)")
  case False
  then have "protocol_run env oid src tgt tr r tr' 0 [] 0 reply" for reply
    using run by (auto simp: execute_def all_phases_def phase_1_new protocol_run_def Let_def)
  then show ?thesis by blast
next
  case src: True
  show ?thesis
  proof (cases "ne_drain env tr src oid")
    case (Returns offsets)
    let ?tr1 = "tr @ [Drain src oid]"
    let ?seq = "ne_time env ?tr1"
    let ?tr2 = "?tr1 @ [Snapshot src oid ?seq (json_of_offsets offsets)]"
    note all = execute_def all_phases_def phase_1_new phase_2_after [OF src refl refl] protocol_run_def
      protocol_calls_def Let_def
    show ?thesis
    proof (cases "ne_snapshot env ?tr1 src oid ?seq (json_of_offsets offsets)")
      case reply: (Returns reply)
      show ?thesis
      proof (cases "sr_error_msg reply = [] \<and> (tgt = ''cloud'' \<or> tgt \<in> set (ne_clients env))")
        case True
        show ?thesis
        proof (cases "restore_answer env ?tr2 tgt oid (sr_object_key reply)")
          case restored: (Returns u)
          have "protocol_run env oid src tgt tr r tr' 4 offsets ?seq reply"
            using run src Returns reply True restored
            by (cases "ne_terminate env (?tr2 @ [restore_call tgt oid (sr_object_key reply)]) src oid True")
               (auto simp: all phase_3_after [OF refl refl] phase_4_after split: if_splits)
          then show ?thesis by blast
        next
          case (Raises e)
          then have "protocol_run env oid src tgt tr r tr' 3 offsets ?seq reply"
            using run src Returns reply True by (auto simp: all phase_3_after [OF refl refl])
          then show ?thesis by blast
        next
          case Hangs
          then have "protocol_run env oid src tgt tr r tr' 3 offsets ?seq reply"
            using run src Returns reply True by (auto simp: all phase_3_after [OF refl refl])
          then show ?thesis by blast
        qed
      next
        case False
        then have "protocol_run env oid src tgt tr r tr' 2 offsets ?seq reply"
          using run src Returns reply by (auto simp: all phase_3_after [OF refl refl] split: if_splits)
        then show ?thesis by blast
      qed
    next
      case (Raises e)
      have "protocol_run env oid src tgt tr r tr' 2 offsets ?seq reply" for reply
        using run src Returns Raises by (auto simp: all)
      then show ?thesis by blast
    next
      case Hangs
      have "protocol_run env oid src tgt tr r tr' 2 offsets ?seq reply" for reply
        using run src Returns Hangs by (auto simp: all)
      then show ?thesis by blast
    qed
  next
    case (Raises e)
    have "protocol_run env oid src tgt tr r tr' 1 [] 0 reply" for reply
      using run src Raises by (auto simp: execute_def all_phases_def phase_1_new protocol_run_def protocol_calls_def Let_def)
    then show ?thesis by blast
  next
    case Hangs
    have "protocol_run env oid src tgt tr r tr' 1 [] 0 reply" for reply
      using run src Hangs by (auto simp: execute_def all_phases_def phase_1_new protocol_run_def protocol_calls_def Let_def)
    then show ?thesis by blast
  qed
qed

lemma phase_keeps:
  "phase_1_drain env (mg, tr) = (o1, mg1, tr1) \<Longrightarrow>
    mg_id mg1 = mg_id mg \<and> mg_operator mg1 = mg_operator mg \<and> mg_source mg1 = mg_source mg \<and>
    mg_target mg1 = mg_target mg \<and> mg_completed mg1 = mg_completed mg \<and> mg_error mg1 = mg_error mg"
  "phase_2_snapshot env (mg, tr) = (o1, mg1, tr1) \<Longrightarrow>
    mg_id mg1 = mg_id mg \<and> mg_operator mg1 = mg_operator mg \<and> mg_source mg1 = mg_source mg \<and>
    mg_target mg1 = mg_target mg \<and> mg_completed mg1 = mg_completed mg \<and> mg_error mg1 = mg_error mg"
  "phase_3_restore env (mg, tr) = (o1, mg1, tr1) \<Longrightarrow>
    mg_id mg1 = mg_id mg \<and> mg_operator mg1 = mg_operator mg \<and> mg_source mg1 = mg_source mg \<and>
    mg_target mg1 = mg_target mg \<and> mg_completed mg1 = mg_completed mg \<and> mg_error mg1 = mg_error mg"
  "phase_4_terminate env (mg, tr) = (o1, mg1, tr1) \<Longrightarrow>
    mg_id mg1 = mg_id mg \<and> mg_operator mg1 = mg_operator mg \<and> mg_source mg1 = mg_source mg \<and>
    mg_target mg1 = mg_target mg \<and> mg_completed mg1 = mg_completed mg \<and> mg_error mg1 = mg_error mg"
  by (auto simp: phase_defs Let_def split: if_splits outcome.splits)

lemma then_phase_keeps:
  assumes "\<And>m out m'. p m = (out, m') \<Longrightarrow> f (fst m') = f (fst m)"
    and "q = (o1, m1)" "then_phase q p = (out, m')"
  shows "f (fst m') = f (fst m1)"
  using assms by (cases o1) auto

lemma all_phases_keeps:
  "f (fst (snd (all_phases env m))) = f (fst m)"
  if "\<And>mg tr o1 mg1 tr1. phase_1_drain env (mg, tr) = (o1, mg1, tr1) \<Longrightarrow> f mg1 = f mg"
    "\<And>mg tr o1 mg1 tr1. phase_2_snapshot env (mg, tr) = (o1, mg1, tr1) \<Longrightarrow> f mg1 = f mg"
    "\<And>mg tr o1 mg1 tr1. phase_3_restore env (mg, tr) = (o1, mg1, tr1) \<Longrightarrow> f mg1 = f mg"
    "\<And>mg tr o1 mg1 tr1. phase_4_terminate env (mg, tr) = (o1, mg1, tr1) \<Longrightarrow> f mg1 = f mg"
proof -
  obtain o1 m1 where q1: "phase_1_drain env m = (o1, m1)" by (rule prod.exhaust)
  obtain o2 m2 where q2: "then_phase (phase_1_drain env m) (phase_2_snapshot env) = (o2, m2)" by (rule prod.exhaust)
  obtain o3 m3 where q3: "then_phase (then_phase (phase_1_drain env m) (phase_2_snapshot env)) (phase_3_restore env) = (o3, m3)"
    by (rule prod.exhaust)
  obtain o4 m4 where q4: "all_phases env m = (o4, m4)" by (rule prod.exhaust)
  have "f (fst m1) = f (fst m)" using that(1) q1 by (metis prod.collapse)
  moreover have "f (fst m2) = f (fst m1)"
    by (rule then_phase_keeps [OF _ q1 q2]) (metis that(2) prod.collapse)
  moreover have "f (fst m3) = f (fst m2)"
    by (rule then_phase_keeps [OF _ q2 q3]) (metis that(3) prod.collapse)
  moreover have "f (fst m4) = f (fst m3)"
    by (rule then_phase_keeps [OF _ q3 q4 [unfolded all_phases_def]]) (metis that(4) prod.collapse)
  ultimately show ?thesis using q4 by simp
qed

lemma all_phases_flags:
  "mg_completed (fst (snd (all_phases env m))) = mg_completed (fst m)"
  "mg_error (fst (snd (all_phases env m))) = mg_error (fst m)"
  "mg_operator (fst (snd (all_phases env m))) = mg_operator (fst m)"
  by (rule all_phases_keeps; blast dest: phase_keeps)+

text \<open>C10: The migration protocol, for every behaviour of the nodes.  The calls a migration makes are a prefix
  of drain, snapshot, restore, terminate, on the right nodes; each is made only if the one before it
  succeeded, the restore with the object key that this snapshot returned, so the source is terminated only
  after a successful restore.  The run reports success exactly if all four calls succeeded, and is then
  marked completed; it carries an error exactly if it reports failure.\<close>

theorem migration_protocol:
  "case execute env (PCTRMigration_new mid oid src tgt, tr) of (r, mg, tr') \<Rightarrow>
     (\<exists>n offsets seq reply. protocol_run env oid src tgt tr r tr' n offsets seq reply) \<and>
     (mg_completed mg \<longleftrightarrow> r = Returns True) \<and> (mg_error mg \<noteq> None \<longleftrightarrow> r = Returns False)"
proof -
  let ?m = "(PCTRMigration_new mid oid src tgt, tr)"
  obtain r mg tr' where run: "execute env ?m = (r, mg, tr')" by (rule prod_cases3)
  have "mg_completed (fst (snd (all_phases env ?m))) = False" "mg_error (fst (snd (all_phases env ?m))) = None"
    unfolding all_phases_flags by (simp_all add: PCTRMigration_new_def)
  with run have "(mg_completed mg \<longleftrightarrow> r = Returns True) \<and> (mg_error mg \<noteq> None \<longleftrightarrow> r = Returns False)"
    by (cases rule: execute_cases) auto
  with protocol_run_exists [OF run] run show ?thesis by simp
qed

section \<open>The clients as they are shipped\<close>

text \<open>
  \<open>HEAClient\<close> has no \<open>drain_operator\<close> and no \<open>restore_operator\<close>, and the request of the Flink connector has
  no field \<open>snapshot_key\<close>, so building it raises.  The sequence number is a 32-bit field of the request.
  \<open>snap\<close> and \<open>term\<close> are the nodes' answers to the two calls that exist, \<open>clock\<close> the wall clock.
\<close>

definition no_method :: "string \<Rightarrow> py_error" where
  "no_method name =
     AttributeError ([CHR 39] @ ''HEAClient'' @ [CHR 39] @ '' object has no attribute '' @ [CHR 39] @ name @ [CHR 39])"

definition shipped_env ::
    "AODEConfig \<Rightarrow> (rpc list \<Rightarrow> int) \<Rightarrow>
     (rpc list \<Rightarrow> string \<Rightarrow> string \<Rightarrow> int \<Rightarrow> string \<Rightarrow> SnapshotReply outcome) \<Rightarrow>
     (rpc list \<Rightarrow> string \<Rightarrow> string \<Rightarrow> bool \<Rightarrow> TerminateReply outcome) \<Rightarrow> migration_env" where
  "shipped_env cfg clock snap term =
     \<lparr>ne_clients = hea_endpoints cfg,
      ne_time = clock,
      ne_drain = (\<lambda>tr ep oid. Raises (no_method ''drain_operator'')),
      ne_snapshot = (\<lambda>tr ep oid seq offs.
         if - (2 ^ 31) \<le> seq \<and> seq < 2 ^ 31 then snap tr ep oid seq offs
         else Raises (ValueError (''Value out of range: '' @ show_int seq))),
      ne_restore = (\<lambda>tr ep oid key. Raises (no_method ''restore_operator'')),
      ne_restore_flink = (\<lambda>tr oid key.
         Raises (ValueError (''Protocol message RestoreRequest has no '' @ [CHR 34] @ ''snapshot_key'' @ [CHR 34] @ '' field.''))),
      ne_terminate = term\<rparr>"

text \<open>C12: No migration of the shipped program can succeed.  Whatever the configuration and the nodes do, a
  migration reports failure in its first phase: the source tier is not a key of the client table, or it is
  and the client has no drain method.  With the default configuration it is always the former, the tiers
  being named \<open>edge-node-1\<close> and the clients \<open>hea-node-1:50051\<close>.\<close>

theorem shipped_migrations_fail:
  "execute (shipped_env cfg clock snap term) (PCTRMigration_new mid oid src tgt, tr) =
     (Returns False,
      (PCTRMigration_new mid oid src tgt)\<lparr>mg_error := Some (str_of_error
         (if src \<in> set (hea_endpoints cfg) then no_method ''drain_operator'' else no_source src))\<rparr>,
      tr @ (if src \<in> set (hea_endpoints cfg) then [Drain src oid] else [])) \<and>
   set get_available_tiers \<inter> set (hea_endpoints AODEConfig_default) = {}"
proof -
  have "set get_available_tiers \<inter> set (hea_endpoints AODEConfig_default) = {}"
    by (simp add: get_available_tiers_def get_tier_capacities_def AODEConfig_default_def)
  then show ?thesis
    by (auto simp: execute_def all_phases_def phase_1_new shipped_env_def)
qed

section \<open>Migrations that run side by side\<close>

text \<open>
  The tasks of several migrations interleave at their awaits, one phase being one step.  \<open>rs_pc\<close> is the
  number of phases that the task of an operator's active migration has finished, \<open>rs_trace\<close> all the calls
  of all the tasks in order.  A timeout may strike a task before its next call or while it waits for it.
\<close>

record run_state =
  rs_orch :: PCTROrchestrator
  rs_pc :: "(string, nat) dict"
  rs_trace :: "rpc list"

definition phase_at :: "migration_env \<Rightarrow> nat \<Rightarrow> mig \<Rightarrow> phase_run" where
  "phase_at env k =
     (if k = 0 then phase_1_drain env else if k = 1 then phase_2_snapshot env
      else if k = 2 then phase_3_restore env else phase_4_terminate env)"

definition drop_migration :: "string \<Rightarrow> rpc list \<Rightarrow> run_state \<Rightarrow> run_state" where
  "drop_migration oid tr st =
     \<lparr>rs_orch = (rs_orch st)\<lparr>or_active := dict_pop oid (or_active (rs_orch st))\<rparr>,
      rs_pc = dict_pop oid (rs_pc st), rs_trace = tr\<rparr>"

inductive orch_step :: "migration_env \<Rightarrow> run_state \<Rightarrow> run_state \<Rightarrow> bool" for env where
  Accept: "migrate_operator oid src tgt (rs_orch st) = (Inr mid, orch') \<Longrightarrow>
    orch_step env st \<lparr>rs_orch = orch', rs_pc = dict_set oid 0 (rs_pc st), rs_trace = rs_trace st\<rparr>"
| Refuse: "migrate_operator oid src tgt (rs_orch st) = (Inl e, orch') \<Longrightarrow>
    orch_step env st \<lparr>rs_orch = orch', rs_pc = rs_pc st, rs_trace = rs_trace st\<rparr>"
| Phase: "dict_get (or_active (rs_orch st)) oid = Some mg \<Longrightarrow> dict_get (rs_pc st) oid = Some k \<Longrightarrow> k < 3 \<Longrightarrow>
    phase_at env k (mg, rs_trace st) = (Returns (), mg', tr') \<Longrightarrow>
    orch_step env st
      \<lparr>rs_orch = (rs_orch st)\<lparr>or_active := dict_set oid mg' (or_active (rs_orch st))\<rparr>,
       rs_pc = dict_set oid (Suc k) (rs_pc st), rs_trace = tr'\<rparr>"
| Finish: "dict_get (or_active (rs_orch st)) oid = Some mg \<Longrightarrow> dict_get (rs_pc st) oid = Some 3 \<Longrightarrow>
    phase_at env 3 (mg, rs_trace st) = (Returns (), mg', tr') \<Longrightarrow>
    orch_step env st (drop_migration oid tr' st)"
| Fail: "dict_get (or_active (rs_orch st)) oid = Some mg \<Longrightarrow> dict_get (rs_pc st) oid = Some k \<Longrightarrow>
    phase_at env k (mg, rs_trace st) = (Raises e, mg', tr') \<Longrightarrow>
    orch_step env st (drop_migration oid tr' st)"
| Timeout: "dict_get (or_active (rs_orch st)) oid = Some mg \<Longrightarrow> dict_get (rs_pc st) oid = Some k \<Longrightarrow>
    phase_at env k (mg, rs_trace st) = (out, mg', tr') \<Longrightarrow> tr'' = rs_trace st \<or> tr'' = tr' \<Longrightarrow>
    orch_step env st (drop_migration oid tr'' st)"

inductive_cases orch_stepE: "orch_step env st st'"

definition run_start :: run_state where
  "run_start = \<lparr>rs_orch = PCTROrchestrator_new, rs_pc = [], rs_trace = []\<rparr>"

inductive orch_reachable :: "migration_env \<Rightarrow> run_state \<Rightarrow> bool" for env where
  start: "orch_reachable env run_start"
| step: "orch_reachable env st \<Longrightarrow> orch_step env st st' \<Longrightarrow> orch_reachable env st'"

subsection \<open>The orchestrator's invariant\<close>

definition orch_inv :: "PCTROrchestrator \<Rightarrow> bool" where
  "orch_inv orch \<longleftrightarrow>
     wf_dict (or_active orch) \<and>
     (\<forall>p \<in> set (or_active orch). mg_operator (snd p) = fst p) \<and>
     (\<forall>p \<in> set (or_active orch). \<exists>n. 1 \<le> n \<and> n \<le> or_counter orch \<and> mg_id (snd p) = migration_name n) \<and>
     distinct (map (mg_id \<circ> snd) (or_active orch))"

lemma migration_name_inj [simp]: "migration_name m = migration_name n \<longleftrightarrow> m = n"
  by (simp add: migration_name_def)

lemma update_new: "k \<notin> fst ` set d \<Longrightarrow> AList.update k v d = d @ [(k, v)]"
  by (induction d) auto

lemma get_None_keys: "map_of d k = None \<longleftrightarrow> k \<notin> fst ` set d"
  by (simp add: map_of_eq_None_iff)

lemma orch_inv_start: "orch_inv PCTROrchestrator_new"
  by (simp add: orch_inv_def PCTROrchestrator_new_def)

lemma orch_inv_migrate:
  assumes inv: "orch_inv orch" and run: "migrate_operator oid src tgt orch = (r, orch')"
  shows "orch_inv orch'"
proof (cases "dict_get (or_active orch) oid = None")
  case True
  let ?m = "PCTRMigration_new (migration_name (Suc (or_counter orch))) oid src tgt"
  have o': "orch' = \<lparr>or_active = or_active orch @ [(oid, ?m)], or_counter = Suc (or_counter orch)\<rparr>"
    using run True by (auto simp: migrate_operator_def Let_def update_new get_None_keys)
  have fresh: "migration_name (Suc (or_counter orch)) \<notin> (mg_id \<circ> snd) ` set (or_active orch)"
    using inv unfolding orch_inv_def by fastforce
  have ids: "\<exists>n. 1 \<le> n \<and> n \<le> Suc (or_counter orch) \<and> mg_id (snd p) = migration_name n"
    if "p \<in> set (or_active orch)" for p
    using inv that unfolding orch_inv_def by (meson le_SucI)
  have "wf_dict (or_active orch @ [(oid, ?m)])"
    using inv True by (auto simp: orch_inv_def wf_dict_def get_None_keys)
  moreover have "mg_operator ?m = oid" "mg_id ?m = migration_name (Suc (or_counter orch))"
    by (simp_all add: PCTRMigration_new_def)
  ultimately show ?thesis
    using inv ids fresh unfolding o' orch_inv_def
    by (auto simp: wf_dict_def intro!: exI [of _ "Suc (or_counter orch)"])
qed (use run inv in \<open>auto simp: migrate_operator_def\<close>)

lemma orch_inv_pop: "orch_inv orch \<Longrightarrow> orch_inv (orch\<lparr>or_active := dict_pop oid (or_active orch)\<rparr>)"
proof -
  assume inv: "orch_inv orch"
  have "distinct (map f (AList.delete oid d))" if "distinct (map f d)" for f :: "_ \<Rightarrow> string" and d
    using that by (induction d) (auto simp: set_delete_dict)
  with inv show ?thesis by (auto simp: orch_inv_def set_delete_dict)
qed

lemma update_map_snd:
  assumes "wf_dict d" "map_of d k = Some v" "f w = f v"
  shows "map (f \<circ> snd) (AList.update k w d) = map (f \<circ> snd) d"
  using assms by (induction d) (auto simp: wf_dict_def)

lemma orch_inv_set:
  assumes inv: "orch_inv orch" and get: "dict_get (or_active orch) oid = Some mg"
    and same: "mg_id mg' = mg_id mg" "mg_operator mg' = mg_operator mg"
  shows "orch_inv (orch\<lparr>or_active := dict_set oid mg' (or_active orch)\<rparr>)"
proof -
  have wf: "wf_dict (or_active orch)" using inv by (simp add: orch_inv_def)
  have mem: "(oid, mg) \<in> set (or_active orch)" using get by (rule get_in_set)
  then have "mg_operator mg = oid" "\<exists>n. 1 \<le> n \<and> n \<le> or_counter orch \<and> mg_id mg = migration_name n"
    using inv by (auto simp: orch_inv_def)
  moreover have "distinct (map (mg_id \<circ> snd) (dict_set oid mg' (or_active orch)))"
    using inv update_map_snd [OF wf get, of mg_id] same by (simp add: orch_inv_def)
  ultimately show ?thesis
    using inv same wf by (auto simp: orch_inv_def set_update_wf)
qed

subsection \<open>The calls of one operator\<close>

fun call_operator :: "rpc \<Rightarrow> string" where
  "call_operator (Drain src oid) = oid"
| "call_operator (Snapshot src oid seq offs) = oid"
| "call_operator (Restore tgt oid key) = oid"
| "call_operator (RestoreFlink oid key) = oid"
| "call_operator (Terminate src oid b) = oid"

fun call_stage :: "rpc \<Rightarrow> nat" where
  "call_stage (Drain src oid) = 0"
| "call_stage (Snapshot src oid seq offs) = 1"
| "call_stage (Restore tgt oid key) = 2"
| "call_stage (RestoreFlink oid key) = 2"
| "call_stage (Terminate src oid b) = 3"

definition op_stages :: "string \<Rightarrow> rpc list \<Rightarrow> nat list" where
  "op_stages oid tr = map call_stage (filter (\<lambda>c. call_operator c = oid) tr)"

text \<open>Every stage but the first directly follows the stage before it.\<close>

definition stage_chain :: "nat list \<Rightarrow> bool" where
  "stage_chain xs \<longleftrightarrow> (\<forall>i < length xs. xs ! i \<noteq> 0 \<longrightarrow> 0 < i \<and> xs ! i = Suc (xs ! (i - 1)))"

lemma stage_chain_snoc:
  assumes "stage_chain xs" "y = 0 \<or> (xs \<noteq> [] \<and> y = Suc (last xs))"
  shows "stage_chain (xs @ [y])"
  unfolding stage_chain_def
proof (intro allI impI)
  fix i assume i: "i < length (xs @ [y])" "(xs @ [y]) ! i \<noteq> 0"
  show "0 < i \<and> (xs @ [y]) ! i = Suc ((xs @ [y]) ! (i - 1))"
  proof (cases "i < length xs")
    case True
    then show ?thesis using assms(1) i(2) by (auto simp: stage_chain_def nth_append)
  next
    case False
    then have "i = length xs" using i(1) by simp
    then show ?thesis using assms(2) i(2) by (auto simp: nth_append last_conv_nth)
  qed
qed

lemma stage_chain_run:
  assumes "stage_chain xs" "i < length xs" "j \<le> xs ! i"
  shows "j \<le> i \<and> xs ! (i - j) = xs ! i - j"
  using assms(3)
proof (induction j)
  case (Suc j)
  then have j: "j \<le> i" "xs ! (i - j) = xs ! i - j" "xs ! (i - j) \<noteq> 0" by auto
  moreover have "i - j < length xs" using assms(2) by simp
  ultimately have "0 < i - j \<and> xs ! (i - j) = Suc (xs ! (i - j - 1))"
    using assms(1) unfolding stage_chain_def by blast
  moreover have "i - j - 1 = i - Suc j" by simp
  ultimately show ?case using j(2) by (metis Suc_leI diff_Suc_1 diff_Suc_eq_diff_pred diff_diff_left diff_commute
    plus_1_eq_Suc zero_less_diff add.commute)
qed simp

lemma phase_at_call:
  assumes "phase_at env k (mg, tr) = (out, mg', tr')" "k \<le> 3"
  shows "(tr' = tr \<and> out \<noteq> Returns ()) \<or> (\<exists>c. tr' = tr @ [c] \<and> call_stage c = k \<and> call_operator c = mg_operator mg)"
    and "mg_id mg' = mg_id mg" "mg_operator mg' = mg_operator mg"
proof -
  consider "k = 0" | "k = 1" | "k = 2" | "k = 3" using assms(2) by linarith
  then show "(tr' = tr \<and> out \<noteq> Returns ()) \<or> (\<exists>c. tr' = tr @ [c] \<and> call_stage c = k \<and> call_operator c = mg_operator mg)"
    using assms(1)
    by cases (auto simp: phase_at_def phase_defs Let_def split: if_splits outcome.splits)
  show "mg_id mg' = mg_id mg" "mg_operator mg' = mg_operator mg"
    using assms(1) phase_keeps unfolding phase_at_def by (auto split: if_splits)
qed

definition run_inv :: "run_state \<Rightarrow> bool" where
  "run_inv st \<longleftrightarrow>
     orch_inv (rs_orch st) \<and>
     (\<forall>oid. dict_get (rs_pc st) oid = None \<longleftrightarrow> dict_get (or_active (rs_orch st)) oid = None) \<and>
     (\<forall>oid k. dict_get (rs_pc st) oid = Some k \<longrightarrow>
        k \<le> 3 \<and> (0 < k \<longrightarrow> op_stages oid (rs_trace st) \<noteq> [] \<and> Suc (last (op_stages oid (rs_trace st))) = k)) \<and>
     (\<forall>oid. stage_chain (op_stages oid (rs_trace st)))"

lemma op_stages_snoc:
  "op_stages oid (tr @ [c]) = op_stages oid tr @ (if call_operator c = oid then [call_stage c] else [])"
  by (simp add: op_stages_def)

text \<open>A call of the stage that is due keeps the chains of all operators.\<close>

lemma run_inv_call:
  assumes inv: "run_inv st" and pc: "dict_get (rs_pc st) oid = Some k"
    and c: "call_stage c = k" "call_operator c = oid"
  shows "stage_chain (op_stages o' (rs_trace st @ [c]))"
proof -
  have "k = 0 \<or> (op_stages oid (rs_trace st) \<noteq> [] \<and> k = Suc (last (op_stages oid (rs_trace st))))"
    using inv pc unfolding run_inv_def by (metis neq0_conv)
  moreover have "stage_chain (op_stages oid (rs_trace st))" "stage_chain (op_stages o' (rs_trace st))"
    using inv unfolding run_inv_def by blast+
  ultimately show ?thesis using c stage_chain_snoc by (auto simp: op_stages_snoc)
qed

lemma run_inv_mg:
  "run_inv st \<Longrightarrow> dict_get (or_active (rs_orch st)) oid = Some mg \<Longrightarrow> mg_operator mg = oid"
  using get_in_set [of "or_active (rs_orch st)" oid mg] by (auto simp: run_inv_def orch_inv_def)

lemma run_inv_drop:
  assumes inv: "run_inv st" and pc: "dict_get (rs_pc st) oid = Some k"
    and tr: "tr = rs_trace st \<or> (\<exists>c. tr = rs_trace st @ [c] \<and> call_stage c = k \<and> call_operator c = oid)"
  shows "run_inv (drop_migration oid tr st)"
proof -
  have chain: "stage_chain (op_stages o' tr)" for o'
    using tr inv run_inv_call [OF inv pc] unfolding run_inv_def by blast
  have others: "op_stages o' tr = op_stages o' (rs_trace st)" if "o' \<noteq> oid" for o'
    using tr that by (auto simp: op_stages_snoc)
  show ?thesis
    using inv chain others
    by (auto simp: run_inv_def drop_migration_def orch_inv_pop dict_simps)
qed

lemma run_inv_start: "run_inv run_start"
  using orch_inv_start
  by (simp add: run_inv_def run_start_def op_stages_def stage_chain_def) (simp add: PCTROrchestrator_new_def)

lemma run_inv_accept:
  assumes inv: "run_inv st" and m: "migrate_operator oid src tgt (rs_orch st) = (Inr mid, orch')"
  shows "run_inv \<lparr>rs_orch = orch', rs_pc = dict_set oid 0 (rs_pc st), rs_trace = rs_trace st\<rparr>"
proof -
  have "or_active orch' = dict_set oid (PCTRMigration_new mid oid src tgt) (or_active (rs_orch st))"
    using m by (auto simp: migrate_operator_def Let_def split: if_splits)
  with inv orch_inv_migrate [OF _ m] show ?thesis by (auto simp: run_inv_def dict_simps)
qed

lemma run_inv_phase:
  assumes inv: "run_inv st" and get: "dict_get (or_active (rs_orch st)) oid = Some mg"
    and pc: "dict_get (rs_pc st) oid = Some k" "k < 3"
    and ph: "phase_at env k (mg, rs_trace st) = (Returns (), mg', tr')"
  shows "run_inv \<lparr>rs_orch = (rs_orch st)\<lparr>or_active := dict_set oid mg' (or_active (rs_orch st))\<rparr>,
    rs_pc = dict_set oid (Suc k) (rs_pc st), rs_trace = tr'\<rparr>"
proof -
  note mg = run_inv_mg [OF inv get]
  obtain c where c: "tr' = rs_trace st @ [c]" "call_stage c = k" "call_operator c = oid"
    using phase_at_call(1) [OF ph] pc(2) mg by auto
  have "orch_inv ((rs_orch st)\<lparr>or_active := dict_set oid mg' (or_active (rs_orch st))\<rparr>)"
    using inv orch_inv_set [OF _ get] phase_at_call(2,3) [OF ph] pc(2) unfolding run_inv_def by simp
  moreover have "stage_chain (op_stages o' tr')" for o'
    unfolding c(1) using run_inv_call [OF inv pc(1) c(2,3)] .
  moreover have "op_stages oid tr' \<noteq> []" "last (op_stages oid tr') = k"
    using c by (simp_all add: op_stages_snoc)
  moreover have "op_stages o' tr' = op_stages o' (rs_trace st)" if "o' \<noteq> oid" for o'
    using c that by (simp add: op_stages_snoc)
  ultimately show ?thesis
    using inv pc(2) by (auto simp: run_inv_def dict_simps)
qed

lemma run_inv_step: "orch_step env st st' \<Longrightarrow> run_inv st \<Longrightarrow> run_inv st'"
proof (induction rule: orch_step.induct)
  case (Accept oid src tgt st mid orch')
  then show ?case by (intro run_inv_accept)
next
  case (Refuse oid src tgt st e orch')
  then have "orch' = rs_orch st" by (auto simp: migrate_operator_def Let_def split: if_splits)
  with Refuse show ?case by (simp add: run_inv_def)
next
  case (Phase st oid mg k mg' tr')
  then show ?case by (intro run_inv_phase)
next
  case (Finish st oid mg mg' tr')
  then show ?case
    using run_inv_drop phase_at_call(1) [OF Finish(3)] run_inv_mg [OF Finish(4,1)] by auto
next
  case (Fail st oid mg k e mg' tr')
  moreover have "k \<le> 3" using Fail by (auto simp: run_inv_def)
  ultimately show ?case
    using run_inv_drop phase_at_call(1) [OF Fail(3)] run_inv_mg [OF Fail(4,1)] by auto
next
  case (Timeout st oid mg k out mg' tr' tr'')
  moreover have "k \<le> 3" using Timeout by (auto simp: run_inv_def)
  ultimately show ?case
    using run_inv_drop phase_at_call(1) [OF Timeout(3)] run_inv_mg [OF Timeout(5,1)] by auto
qed

lemma run_inv_reachable: "orch_reachable env st \<Longrightarrow> run_inv st"
  by (induction rule: orch_reachable.induct) (use run_inv_start run_inv_step in blast)+



text \<open>A run on nodes that always answer, up to the end of one migration.\<close>

definition sample_env :: migration_env where
  "sample_env =
     \<lparr>ne_clients = [''n1'', ''n2''], ne_time = (\<lambda>tr. 1700000000),
      ne_drain = (\<lambda>tr src oid. Returns [(0, 42)]),
      ne_snapshot = (\<lambda>tr src oid seq offs. Returns \<lparr>sr_object_key = ''k'', sr_byte_size = 7, sr_error_msg = []\<rparr>),
      ne_restore = (\<lambda>tr tgt oid key. Returns ()), ne_restore_flink = (\<lambda>tr oid key. Returns ()),
      ne_terminate = (\<lambda>tr src oid b. Returns \<lparr>tr_success = True, tr_error_msg = []\<rparr>)\<rparr>"

definition sample_mig :: "nat \<Rightarrow> PCTRMigration" where
  "sample_mig k =
     (let m = PCTRMigration_new ''migration-0001'' ''RiskCheck'' ''n1'' ''n2''
      in if k = 0 then m
         else if k = 1 then m\<lparr>mg_offsets := [(0, 42)]\<rparr>
         else m\<lparr>mg_offsets := [(0, 42)], mg_phase := (if k = 2 then PHASE_2_SNAP else PHASE_3_RESTORE),
               mg_snapshot_key := Some ''k'', mg_snapshot_size := 7\<rparr>)"

definition sample_calls :: "rpc list" where
  "sample_calls =
     [Drain ''n1'' ''RiskCheck'', Snapshot ''n1'' ''RiskCheck'' 1700000000 (json_of_offsets [(0, 42)]),
      Restore ''n2'' ''RiskCheck'' ''k'', Terminate ''n1'' ''RiskCheck'' True]"

definition sample_run :: "nat \<Rightarrow> run_state" where
  "sample_run k =
     \<lparr>rs_orch = \<lparr>or_active = [(''RiskCheck'', sample_mig k)], or_counter = 1\<rparr>, rs_pc = [(''RiskCheck'', k)],
      rs_trace = take k sample_calls\<rparr>"

definition sample_end :: run_state where
  "sample_end = \<lparr>rs_orch = \<lparr>or_active = [], or_counter = 1\<rparr>, rs_pc = [], rs_trace = sample_calls\<rparr>"

lemma migration_name_1: "migration_name 1 = ''migration-0001''"
  by code_simp

lemma sample_accept: "orch_step env run_start (sample_run 0)"
proof -
  have m: "migrate_operator ''RiskCheck'' ''n1'' ''n2'' (rs_orch run_start) =
      (Inr ''migration-0001'', \<lparr>or_active = [(''RiskCheck'', sample_mig 0)], or_counter = 1\<rparr>)"
    using migration_name_1
    by (simp add: migrate_operator_def run_start_def PCTROrchestrator_new_def sample_mig_def Let_def)
  show ?thesis using orch_step.Accept [OF m] by (simp add: sample_run_def run_start_def)
qed

lemma sample_phase: "k < 3 \<Longrightarrow> orch_step sample_env (sample_run k) (sample_run (Suc k))"
proof -
  assume k: "k < 3"
  then have c: "k = 0 \<or> k = 1 \<or> k = 2" by linarith
  have "phase_at sample_env k (sample_mig k, take k sample_calls) =
      (Returns (), sample_mig (Suc k), take (Suc k) sample_calls)"
    using c by (auto simp: phase_at_def phase_defs sample_env_def sample_mig_def sample_calls_def
        PCTRMigration_new_def Let_def snapshot_key_arg_def)
  with k show ?thesis
    using orch_step.Phase [of "sample_run k" "''RiskCheck''" "sample_mig k" k sample_env]
    by (simp add: sample_run_def)
qed

lemma sample_finish: "orch_step sample_env (sample_run 3) sample_end"
proof -
  have "phase_at sample_env 3 (sample_mig 3, take 3 sample_calls) =
      (Returns (), (sample_mig 3)\<lparr>mg_phase := PHASE_4_TERM\<rparr>, sample_calls)"
    by (simp add: phase_at_def phase_defs sample_env_def sample_mig_def sample_calls_def
        PCTRMigration_new_def Let_def)
  then show ?thesis
    using orch_step.Finish [of "sample_run 3" "''RiskCheck''" "sample_mig 3" sample_env]
    by (simp add: sample_run_def drop_migration_def sample_end_def)
qed

lemma sample_reachable: "orch_reachable sample_env (sample_run 3)" "orch_reachable sample_env sample_end"
proof -
  have "orch_reachable sample_env (sample_run 0)"
    using orch_reachable.step [OF orch_reachable.start sample_accept] .
  then have "orch_reachable sample_env (sample_run 1)"
    using orch_reachable.step sample_phase [of 0] by fastforce
  then have "orch_reachable sample_env (sample_run 2)"
    using orch_reachable.step sample_phase [of 1] by (fastforce simp: numeral_2_eq_2)
  then show 3: "orch_reachable sample_env (sample_run 3)"
    using orch_reachable.step sample_phase [of 2] by (fastforce simp: numeral_3_eq_3 numeral_2_eq_2)
  show "orch_reachable sample_env sample_end" using orch_reachable.step [OF 3 sample_finish] .
qed



end
