(* ===== verification/Optimizer.thy ===== *)
theory Optimizer
  imports Scoring Placement Migration
begin

text \<open>
  The placement optimizer of \<open>aode/aode/placement/optimizer.py\<close> and the management service of
  \<open>aode/aode/grpc/server.py\<close> over the state of the whole decision engine: scoring, telemetry, placement and
  migrations.  A recalibration is one step: nothing it awaits lets another task in between that changes
  what it reads.
\<close>

section \<open>State of the decision engine\<close>

text \<open>\<open>ao_last\<close> is \<open>_last_optimization\<close>, the monotonic clock after the last run of the loop, zero at the start.\<close>

record 'e AODE =
  ao_scoring :: ScoringAlgorithm
  ao_telemetry :: collector
  ao_placement :: "'e PlacementState"
  ao_migrations :: PCTROrchestrator
  ao_last :: real

section \<open>Migration candidates\<close>

type_synonym candidate = "string \<times> string \<times> string \<times> real"

fun index_of :: "string \<Rightarrow> string list \<Rightarrow> nat option" where
  "index_of x [] = None"
| "index_of x (y # ys) = (if x = y then Some 0 else map_option Suc (index_of x ys))"

text \<open>One round of the loop: nothing, or a candidate with its improvement.\<close>

definition candidate_of ::
    "real \<Rightarrow> (string, string) dict \<Rightarrow> (string, string) dict \<Rightarrow> real list list \<Rightarrow> string list \<Rightarrow>
     nat \<times> string \<Rightarrow> candidate option res" where
  "candidate_of dh current optimal scores tiers = (\<lambda>(i, op).
     (case (dict_get current op, dict_get optimal op) of
        (Some cur, Some opt) \<Rightarrow>
          (if cur = [] \<or> opt = [] \<or> cur = opt then Inr None
           else case (index_of cur tiers, index_of opt tiers) of
                  (Some a, Some b) \<Rightarrow>
                    bind_res (score_at scores i a) (\<lambda>current_score.
                    bind_res (score_at scores i b) (\<lambda>optimal_score.
                      Inr (if dh \<le> current_score - optimal_score
                           then Some (op, cur, opt, current_score - optimal_score) else None)))
                | _ \<Rightarrow> Inr None)
      | _ \<Rightarrow> Inr None))"

definition identify_migration_candidates ::
    "real \<Rightarrow> (string, string) dict \<Rightarrow> (string, string) dict \<Rightarrow> real list list \<Rightarrow> string list \<Rightarrow> string list \<Rightarrow>
     candidate list res" where
  "identify_migration_candidates dh current optimal scores ops tiers =
     bind_res (mapM_res (candidate_of dh current optimal scores tiers) (List.enumerate 0 ops)) (\<lambda>cs.
       Inr (sort_key (\<lambda>(op, cur, opt, imp). - imp) (List.map_filter (\<lambda>c. c) cs)))"

section \<open>A recalibration\<close>

record started_migration =
  sm_operator :: string
  sm_source :: string
  sm_target :: string
  sm_improvement :: real
  sm_id :: string

datatype recalibration = NoOperators | Completed nat "started_migration list"

text \<open>
  The loop over the candidates.  A migration that the orchestrator refuses is skipped; once it has
  started, the placement is updated, and an exception of that update is swallowed.
\<close>

fun start_migrations ::
    "'e placement_api \<Rightarrow> candidate list \<Rightarrow> PCTROrchestrator \<times> 'e PlacementState \<times> started_migration list \<Rightarrow>
     PCTROrchestrator \<times> 'e PlacementState \<times> started_migration list" where
  "start_migrations pe [] st = st"
| "start_migrations pe ((op, src, tgt, imp) # cs) (orch, ps, started) =
     (case migrate_operator op src tgt orch of
        (Inl e, orch') \<Rightarrow> start_migrations pe cs (orch', ps, started)
      | (Inr mid, orch') \<Rightarrow>
          start_migrations pe cs
            (orch', snd (update_operator_placement pe op tgt ps),
             started @ [\<lparr>sm_operator = op, sm_source = src, sm_target = tgt, sm_improvement = py_round 3 imp,
                         sm_id = mid\<rparr>]))"

definition optimal_for :: "'e AODE \<Rightarrow> (real list list \<times> (string, string) dict) res" where
  "optimal_for ao =
     (let ops = dict_keys (get_current_placement (ao_placement ao)); tiers = dict_keys get_tier_capacities
      in bind_res (compute_scores (ao_scoring ao) (ao_telemetry ao) ops tiers get_slo_map get_lambda_map) (\<lambda>scores.
         bind_res (find_optimal_placement scores ops tiers get_tier_capacities) (\<lambda>optimal.
           Inr (scores, optimal))))"

definition run_optimization :: "'e placement_api \<Rightarrow> 'e AODE \<Rightarrow> recalibration res \<times> 'e AODE" where
  "run_optimization pe ao =
     (let current = get_current_placement (ao_placement ao);
          ops = dict_keys current;
          available = get_available_tiers
      in if ops = [] \<or> length available < 2 then (Inr NoOperators, ao)
         else
           (case bind_res (optimal_for ao) (\<lambda>(scores, optimal).
                   identify_migration_candidates (delta_h (s_config (ao_scoring ao))) current optimal scores ops
                     (dict_keys get_tier_capacities)) of
              Inl e \<Rightarrow> (Inl e, ao)
            | Inr cs \<Rightarrow>
                (case start_migrations pe cs (ao_migrations ao, ao_placement ao, []) of
                   (orch', ps', started) \<Rightarrow>
                     (Inr (Completed (length cs) started),
                      ao\<lparr>ao_migrations := orch', ao_placement := ps'\<rparr>))))"

text \<open>One turn of \<open>_optimization_loop\<close>: an exception is logged; the time is kept only without one.\<close>

definition optimization_turn :: "'e placement_api \<Rightarrow> real \<Rightarrow> 'e AODE \<Rightarrow> 'e AODE" where
  "optimization_turn pe now ao =
     (case run_optimization pe ao of
        (Inr r, ao') \<Rightarrow> ao'\<lparr>ao_last := now\<rparr>
      | (Inl e, ao') \<Rightarrow> ao')"

record optimizer_status =
  os_enabled :: bool
  os_interval_s :: int
  os_last_run_ago_s :: "real option"
  os_active_migrations :: nat
  os_hysteresis :: real

definition optimizer_get_status :: "real \<Rightarrow> 'e AODE \<Rightarrow> optimizer_status" where
  "optimizer_get_status now ao =
     (let cfg = s_config (ao_scoring ao);
          last_run_ago = (if 0 < ao_last ao then Some (now - ao_last ao) else None)
      in \<lparr>os_enabled = recalibration_enabled cfg, os_interval_s = recalibration_interval_s cfg,
          os_last_run_ago_s = (case last_run_ago of None \<Rightarrow> None | Some x \<Rightarrow> if x = 0 then None else Some (py_round 1 x)),
          os_active_migrations = length (list_active_migrations (ao_migrations ao)),
          os_hysteresis = delta_h cfg\<rparr>)"

section \<open>Management service\<close>

record AODEStatusResponse =
  asr_instance_id :: string
  asr_is_leader :: bool
  asr_operators_managed :: nat
  asr_active_migrations :: nat
  asr_last_recalibration_ago_s :: "real option"
  asr_uptime_s :: real

text \<open>
  \<open>GetStatus\<close>: identity and leadership are constants.  The key \<open>last_run_ago_s\<close> is always present, so its
  default is never used and \<open>None\<close> is passed on, which the message stores as an unset field.
\<close>

definition GetStatus :: "real \<Rightarrow> 'e AODE \<Rightarrow> AODEStatusResponse" where
  "GetStatus now ao =
     \<lparr>asr_instance_id = ''aode-1'', asr_is_leader = True,
      asr_operators_managed = length (get_current_placement (ao_placement ao)),
      asr_active_migrations = length (list_active_migrations (ao_migrations ao)),
      asr_last_recalibration_ago_s = os_last_run_ago_s (optimizer_get_status now ao),
      asr_uptime_s = 0\<rparr>"

record RecalibrationResponse =
  rr_success :: bool
  rr_migrations_started :: nat
  rr_error_msg :: string

text \<open>
  \<open>TriggerRecalibration\<close> hands a recalibration to the loop and waits for it; when the wait ends without an
  answer, the recalibration may have begun.  The duration is left out.
\<close>

definition TriggerRecalibration :: "'e placement_api \<Rightarrow> handler_env \<Rightarrow> 'e AODE \<Rightarrow> RecalibrationResponse \<times> 'e AODE" where
  "TriggerRecalibration pe env ao =
     (let failed = (\<lambda>e. \<lparr>rr_success = False, rr_migrations_started = 0, rr_error_msg = str_of_error e\<rparr>)
      in case he_loop env of
           Inl e \<Rightarrow> (failed e, ao)
         | Inr _ \<Rightarrow>
             (case he_result env of
                Inl e \<Rightarrow> (failed e, if he_started env then snd (run_optimization pe ao) else ao)
              | Inr _ \<Rightarrow>
                  (case run_optimization pe ao of
                     (Inr NoOperators, ao') \<Rightarrow> (\<lparr>rr_success = True, rr_migrations_started = 0, rr_error_msg = []\<rparr>, ao')
                   | (Inr (Completed n started), ao') \<Rightarrow>
                       (\<lparr>rr_success = True, rr_migrations_started = length started, rr_error_msg = []\<rparr>, ao')
                   | (Inl e, ao') \<Rightarrow> (failed e, ao'))))"

definition UpdateWeights :: "string \<Rightarrow> 'e AODE \<Rightarrow> (bool \<times> string) \<times> 'e AODE" where
  "UpdateWeights preset ao =
     (case set_weights preset (ao_scoring ao) of
        Inr sc \<Rightarrow> ((True, []), ao\<lparr>ao_scoring := sc\<rparr>)
      | Inl e \<Rightarrow> ((False, str_of_error e), ao))"

definition GetPlacementState :: "'e AODE \<Rightarrow> (string, string) dict" where
  "GetPlacementState ao = get_current_placement (ao_placement ao)"

section \<open>Lemmas on the candidates\<close>

lemma index_of_Some: "index_of x xs = Some i \<longleftrightarrow> i < length xs \<and> xs ! i = x \<and> (\<forall>j < i. xs ! j \<noteq> x)"
proof (induction xs arbitrary: i)
  case (Cons y ys)
  show ?case
  proof (cases i)
    case 0 then show ?thesis by auto
  next
    case (Suc n)
    have "(\<forall>j < Suc n. (y # ys) ! j \<noteq> x) \<longleftrightarrow> y \<noteq> x \<and> (\<forall>j < n. ys ! j \<noteq> x)"
      by (auto simp: less_Suc_eq_0_disj)
    with Suc Cons.IH [of n] show ?thesis by auto
  qed
qed simp

lemma index_of_distinct: "distinct xs \<Longrightarrow> index_of x xs = Some i \<longleftrightarrow> i < length xs \<and> xs ! i = x"
  unfolding index_of_Some by (metis nth_eq_iff_index_eq order.strict_trans order_less_irrefl)

text \<open>The candidate of one operator, when the matrix has the right shape.\<close>

definition candidate_rel ::
    "real \<Rightarrow> (string, string) dict \<Rightarrow> (string, string) dict \<Rightarrow> real list list \<Rightarrow> string list \<Rightarrow> nat \<Rightarrow> string \<Rightarrow>
     candidate \<Rightarrow> bool" where
  "candidate_rel dh current optimal scores tiers i op = (\<lambda>(op', src, tgt, imp).
     op' = op \<and> dict_get current op = Some src \<and> dict_get optimal op = Some tgt \<and>
     src \<noteq> [] \<and> tgt \<noteq> [] \<and> src \<noteq> tgt \<and>
     (\<exists>a b. a < length tiers \<and> b < length tiers \<and> tiers ! a = src \<and> tiers ! b = tgt \<and>
        imp = scores ! i ! a - scores ! i ! b \<and> dh \<le> imp))"

lemma candidate_of_iff:
  assumes "i < length scores" "length (scores ! i) = length tiers" "distinct tiers"
  shows "\<exists>r. candidate_of dh current optimal scores tiers (i, op) = Inr r \<and>
    (\<forall>c. r = Some c \<longleftrightarrow> candidate_rel dh current optimal scores tiers i op c)"
proof (cases "dict_get current op")
  case None
  then show ?thesis by (auto simp: candidate_of_def candidate_rel_def)
next
  case src: (Some src)
  show ?thesis
  proof (cases "dict_get optimal op")
    case None
    then show ?thesis using src by (auto simp: candidate_of_def candidate_rel_def)
  next
    case tgt: (Some tgt)
    show ?thesis
    proof (cases "src = [] \<or> tgt = [] \<or> src = tgt")
      case True
      then show ?thesis using src tgt by (auto simp: candidate_of_def candidate_rel_def)
    next
      case ne: False
      show ?thesis
      proof (cases "index_of src tiers")
        case None
        then have "\<not> (\<exists>a < length tiers. tiers ! a = src)"
          using index_of_distinct [OF assms(3), of src] by auto
        then show ?thesis using src tgt ne None by (auto simp: candidate_of_def candidate_rel_def)
      next
        case a: (Some a)
        show ?thesis
        proof (cases "index_of tgt tiers")
          case None
          then have "\<not> (\<exists>b < length tiers. tiers ! b = tgt)"
            using index_of_distinct [OF assms(3), of tgt] by auto
          then show ?thesis using src tgt ne a None by (auto simp: candidate_of_def candidate_rel_def)
        next
          case b: (Some b)
          have ab: "a < length tiers" "tiers ! a = src" "b < length tiers" "tiers ! b = tgt"
            using a b index_of_distinct [OF assms(3)] by blast+
          have uniq: "a' = a" if "a' < length tiers" "tiers ! a' = src" for a'
            using that ab assms(3) nth_eq_iff_index_eq by blast
          have uniq': "b' = b" if "b' < length tiers" "tiers ! b' = tgt" for b'
            using that ab assms(3) nth_eq_iff_index_eq by blast
          have rel: "candidate_rel dh current optimal scores tiers i op (op', s, t, imp) \<longleftrightarrow>
              op' = op \<and> s = src \<and> t = tgt \<and> imp = scores ! i ! a - scores ! i ! b \<and> dh \<le> imp"
            for op' s t imp
          proof -
            have ex: "(\<exists>a' b'. a' < length tiers \<and> b' < length tiers \<and> tiers ! a' = src \<and> tiers ! b' = tgt \<and>
                imp = scores ! i ! a' - scores ! i ! b' \<and> dh \<le> imp) \<longleftrightarrow>
              imp = scores ! i ! a - scores ! i ! b \<and> dh \<le> imp" (is "?L \<longleftrightarrow> ?R")
            proof
              assume ?L
              then obtain a' b' where "a' < length tiers" "b' < length tiers" "tiers ! a' = src" "tiers ! b' = tgt"
                "imp = scores ! i ! a' - scores ! i ! b'" "dh \<le> imp" by blast
              then show ?R using uniq uniq' by simp
            next
              assume ?R
              then show ?L using ab by (intro exI [of _ a] exI [of _ b]) simp
            qed
            show ?thesis
              by (cases "s = src \<and> t = tgt") (use src tgt ne ex in \<open>auto simp: candidate_rel_def\<close>)
          qed
          have "candidate_of dh current optimal scores tiers (i, op) =
              Inr (if dh \<le> scores ! i ! a - scores ! i ! b
                   then Some (op, src, tgt, scores ! i ! a - scores ! i ! b) else None)"
            using src tgt ne a b ab assms(1,2) by (auto simp: candidate_of_def score_at_def)
          then show ?thesis using rel by auto
        qed
      qed
    qed
  qed
qed

lemma mapM_res_filter:
  assumes "\<And>x. x \<in> set xs \<Longrightarrow> \<exists>r. f x = Inr r \<and> (\<forall>c. r = Some c \<longleftrightarrow> P x c)"
  shows "\<exists>rs. mapM_res f xs = Inr rs \<and> (\<forall>c. c \<in> set (List.map_filter (\<lambda>c. c) rs) \<longleftrightarrow> (\<exists>x \<in> set xs. P x c))"
  using assms
proof (induction xs)
  case (Cons x xs)
  obtain r where r: "f x = Inr r" "\<forall>c. r = Some c \<longleftrightarrow> P x c" using Cons.prems by auto
  have "\<exists>rs. mapM_res f xs = Inr rs \<and> (\<forall>c. c \<in> set (List.map_filter (\<lambda>c. c) rs) \<longleftrightarrow> (\<exists>x \<in> set xs. P x c))"
    by (rule Cons.IH) (simp add: Cons.prems)
  then obtain rs where rs: "mapM_res f xs = Inr rs" "\<forall>c. c \<in> set (List.map_filter (\<lambda>c. c) rs) \<longleftrightarrow> (\<exists>x \<in> set xs. P x c)"
    by blast
  have "c \<in> set (List.map_filter (\<lambda>c. c) (r # rs)) \<longleftrightarrow> (\<exists>y \<in> set (x # xs). P y c)" for c
    using r(2) rs(2) by (cases r) (auto simp: List.map_filter_simps)
  moreover have "mapM_res f (x # xs) = Inr (r # rs)" using r(1) rs(1) by simp
  ultimately show ?case by blast
qed (simp add: List.map_filter_simps)

lemma in_enumerate: "(i, x) \<in> set (List.enumerate 0 xs) \<longleftrightarrow> i < length xs \<and> xs ! i = x"
  by (auto simp: in_set_enumerate_eq)

lemma identify_iff:
  assumes "length scores = length ops" "\<forall>row \<in> set scores. length row = length tiers" "distinct tiers"
  shows "\<exists>cs. identify_migration_candidates dh current optimal scores ops tiers = Inr cs \<and>
    sorted (map (\<lambda>(op, src, tgt, imp). - imp) cs) \<and>
    (\<forall>c. c \<in> set cs \<longleftrightarrow> (\<exists>i < length ops. candidate_rel dh current optimal scores tiers i (ops ! i) c))"
proof -
  have "\<exists>r. candidate_of dh current optimal scores tiers p = Inr r \<and>
      (\<forall>c. r = Some c \<longleftrightarrow> candidate_rel dh current optimal scores tiers (fst p) (snd p) c)"
    if "p \<in> set (List.enumerate 0 ops)" for p
    using candidate_of_iff [of "fst p" scores tiers dh current optimal "snd p"] that assms in_enumerate
    by (metis nth_mem prod.collapse)
  from mapM_res_filter [where P = "\<lambda>p c. candidate_rel dh current optimal scores tiers (fst p) (snd p) c", OF this]
  obtain rs where rs: "mapM_res (candidate_of dh current optimal scores tiers) (List.enumerate 0 ops) = Inr rs"
    "\<forall>c. c \<in> set (List.map_filter (\<lambda>c. c) rs) \<longleftrightarrow>
      (\<exists>p \<in> set (List.enumerate 0 ops). candidate_rel dh current optimal scores tiers (fst p) (snd p) c)"
    by blast
  have "(\<exists>p \<in> set (List.enumerate 0 ops). candidate_rel dh current optimal scores tiers (fst p) (snd p) c) \<longleftrightarrow>
      (\<exists>i < length ops. candidate_rel dh current optimal scores tiers i (ops ! i) c)" for c
    by (auto simp: in_enumerate) (metis fst_conv snd_conv in_enumerate)
  with rs show ?thesis
    by (intro exI [of _ "sort_key (\<lambda>(op, cur, opt, imp). - imp) (List.map_filter (\<lambda>c. c) rs)"])
       (simp add: identify_migration_candidates_def)
qed

text \<open>C16: The migration candidates are exactly the operators worth moving.  With a score matrix of the right
  shape the function returns, the best improvement first, one candidate for precisely those operators
  whose optimal tier differs from the current one and scores lower by at least the hysteresis threshold,
  with the two tiers and the difference of their scores.\<close>

theorem migration_candidates_exact:
  assumes "length scores = length ops" "\<forall>row \<in> set scores. length row = length tiers" "distinct tiers"
  shows "\<exists>cs. identify_migration_candidates dh current optimal scores ops tiers = Inr cs \<and>
    sorted (map (\<lambda>(op, src, tgt, imp). - imp) cs) \<and>
    (\<forall>op src tgt imp. (op, src, tgt, imp) \<in> set cs \<longleftrightarrow>
       (\<exists>i a b. i < length ops \<and> ops ! i = op \<and> a < length tiers \<and> b < length tiers \<and>
          tiers ! a = src \<and> tiers ! b = tgt \<and> src \<noteq> tgt \<and> src \<noteq> [] \<and> tgt \<noteq> [] \<and>
          dict_get current op = Some src \<and> dict_get optimal op = Some tgt \<and>
          imp = scores ! i ! a - scores ! i ! b \<and> dh \<le> imp))"
proof -
  obtain cs where cs: "identify_migration_candidates dh current optimal scores ops tiers = Inr cs"
    "sorted (map (\<lambda>(op, src, tgt, imp). - imp) cs)"
    "\<forall>c. c \<in> set cs \<longleftrightarrow> (\<exists>i < length ops. candidate_rel dh current optimal scores tiers i (ops ! i) c)"
    using identify_iff [OF assms] by blast
  have "(op, src, tgt, imp) \<in> set cs \<longleftrightarrow>
       (\<exists>i a b. i < length ops \<and> ops ! i = op \<and> a < length tiers \<and> b < length tiers \<and>
          tiers ! a = src \<and> tiers ! b = tgt \<and> src \<noteq> tgt \<and> src \<noteq> [] \<and> tgt \<noteq> [] \<and>
          dict_get current op = Some src \<and> dict_get optimal op = Some tgt \<and>
          imp = scores ! i ! a - scores ! i ! b \<and> dh \<le> imp)" for op src tgt imp
    unfolding cs(3) [rule_format] candidate_rel_def split by blast
  with cs(1,2) show ?thesis by blast
qed

theorem migration_candidates_exact_witness:
  "\<exists>cs. identify_migration_candidates (15/100) [(''a'', ''edge-1''), (''b'', ''cloud'')]
      [(''a'', ''cloud''), (''b'', ''edge-1'')] [[9, 1], [5, 6 :: real]] [''a'', ''b''] [''edge-1'', ''cloud''] = Inr cs \<and>
    (''b'', ''cloud'', ''edge-1'', 1) \<in> set cs"
proof -
  obtain cs where cs: "identify_migration_candidates (15/100) [(''a'', ''edge-1''), (''b'', ''cloud'')]
      [(''a'', ''cloud''), (''b'', ''edge-1'')] [[9, 1], [5, 6 :: real]] [''a'', ''b''] [''edge-1'', ''cloud''] = Inr cs"
    and iff: "\<forall>op src tgt imp. (op, src, tgt, imp) \<in> set cs \<longleftrightarrow>
       (\<exists>i a b. i < length [''a'', ''b''] \<and> [''a'', ''b''] ! i = op \<and> a < length [''edge-1'', ''cloud''] \<and>
          b < length [''edge-1'', ''cloud''] \<and> [''edge-1'', ''cloud''] ! a = src \<and> [''edge-1'', ''cloud''] ! b = tgt \<and>
          src \<noteq> tgt \<and> src \<noteq> [] \<and> tgt \<noteq> [] \<and>
          dict_get [(''a'', ''edge-1''), (''b'', ''cloud'')] op = Some src \<and>
          dict_get [(''a'', ''cloud''), (''b'', ''edge-1'')] op = Some tgt \<and>
          imp = [[9, 1], [5, 6]] ! i ! a - [[9, 1], [5, 6 :: real]] ! i ! b \<and> 15/100 \<le> imp)"
    using migration_candidates_exact [of "[[9, 1], [5, 6 :: real]]" "[''a'', ''b'']" "[''edge-1'', ''cloud'']" "15/100"
      "[(''a'', ''edge-1''), (''b'', ''cloud'')]" "[(''a'', ''cloud''), (''b'', ''edge-1'')]"] by auto
  have "(''b'', ''cloud'', ''edge-1'', 1) \<in> set cs"
    unfolding iff [rule_format]
    by (rule exI [of _ 1], rule exI [of _ 1], rule exI [of _ 0]) simp
  with cs show ?thesis by blast
qed

section \<open>Lemmas on a recalibration\<close>

text \<open>What the loop over the candidates does, when they are about different operators.\<close>

definition moved_to :: "candidate list \<Rightarrow> string \<Rightarrow> string option" where
  "moved_to cs o' = map_of (map (\<lambda>(op, src, tgt, imp). (op, tgt)) cs) o'"

lemma update_placement_cache:
  "ps_cache (snd (update_operator_placement pe op tgt ps)) = dict_set op tgt (ps_cache ps)"
  by (simp add: update_operator_placement_def split: prod.split)

lemma start_migrations_spec:
  assumes "start_migrations pe cs (orch, ps, started) = (orch', ps', started')"
    and "distinct (map fst cs)" "\<forall>c \<in> set cs. dict_get (or_active orch) (fst c) = None"
    and "\<forall>c \<in> set cs. fst c \<in> fst ` set (ps_cache ps)"
  shows "dict_keys (ps_cache ps') = dict_keys (ps_cache ps)" (is ?A)
    and "\<forall>o'. dict_get (ps_cache ps') o' =
      (case moved_to cs o' of Some tgt \<Rightarrow> Some tgt | None \<Rightarrow> dict_get (ps_cache ps) o')" (is ?B)
    and "map sm_operator started' = map sm_operator started @ map fst cs" (is ?C)
proof -
  have "?A \<and> ?B \<and> ?C"
    using assms
  proof (induction cs arbitrary: orch ps started)
    case Nil
    then show ?case by (simp add: moved_to_def)
  next
    case (Cons c cs)
    obtain op src tgt imp where c: "c = (op, src, tgt, imp)" by (cases c) auto
    have free: "dict_get (or_active orch) op = None" using Cons.prems(3) c by simp
    obtain mid orch1 where m: "migrate_operator op src tgt orch = (Inr mid, orch1)"
      and act: "or_active orch1 = dict_set op (PCTRMigration_new mid op src tgt) (or_active orch)"
      using free by (auto simp: migrate_operator_def Let_def)
    let ?ps1 = "snd (update_operator_placement pe op tgt ps)"
    let ?st = "started @ [\<lparr>sm_operator = op, sm_source = src, sm_target = tgt, sm_improvement = py_round 3 imp, sm_id = mid\<rparr>]"
    have run: "start_migrations pe cs (orch1, ?ps1, ?st) = (orch', ps', started')"
      using Cons.prems(1) c m by simp
    have keys1: "dict_keys (ps_cache ?ps1) = dict_keys (ps_cache ps)"
      using Cons.prems(4) c by (simp add: update_placement_cache dict_simps)
    have "fst d \<noteq> op" if "d \<in> set cs" for d using Cons.prems(2) c that by auto
    then have free1: "\<forall>d \<in> set cs. dict_get (or_active orch1) (fst d) = None"
      using Cons.prems(3) act by (simp add: dict_simps)
    have "fst ` set (ps_cache ?ps1) = fst ` set (ps_cache ps)" using keys1 by (metis list.set_map)
    then have in1: "\<forall>d \<in> set cs. fst d \<in> fst ` set (ps_cache ?ps1)" using Cons.prems(4) by simp
    have d1: "distinct (map fst cs)" using Cons.prems(2) by simp
    note IH = Cons.IH [OF run d1 free1 in1]
    have fresh: "moved_to cs op = None"
      using Cons.prems(2) c by (auto simp: moved_to_def map_of_eq_None_iff image_iff)
    have "dict_get (ps_cache ps') o' = (case moved_to (c # cs) o' of Some tgt \<Rightarrow> Some tgt | None \<Rightarrow> dict_get (ps_cache ps) o')"
      for o'
      using IH fresh by (cases "o' = op") (auto simp: c moved_to_def update_placement_cache dict_simps split: option.splits)
    with IH keys1 c show ?case by simp
  qed
  then show ?A ?B ?C by blast+
qed

lemma candidates_distinct:
  assumes "identify_migration_candidates dh current optimal scores ops tiers = Inr cs" "distinct ops"
  shows "distinct (map fst cs)" "fst ` set cs \<subseteq> set ops"
proof -
  obtain rs where rs: "mapM_res (candidate_of dh current optimal scores tiers) (List.enumerate 0 ops) = Inr rs"
    and cs: "cs = sort_key (\<lambda>(op, cur, opt, imp). - imp) (List.map_filter (\<lambda>c. c) rs)"
    using assms(1) by (auto simp: identify_migration_candidates_def res_simps)
  have name: "fst c = snd p" if "candidate_of dh current optimal scores tiers p = Inr (Some c)" for p c
    using that by (cases p) (auto simp: candidate_of_def res_simps split: option.splits if_splits)
  have gen: "distinct (map snd ps) \<Longrightarrow> mapM_res (candidate_of dh current optimal scores tiers) ps = Inr rs \<Longrightarrow>
      distinct (map fst (List.map_filter (\<lambda>c. c) rs)) \<and> fst ` set (List.map_filter (\<lambda>c. c) rs) \<subseteq> set (map snd ps)" for ps rs
  proof (induction ps arbitrary: rs)
    case (Cons p ps)
    obtain r rs' where r: "candidate_of dh current optimal scores tiers p = Inr r" "rs = r # rs'"
      "mapM_res (candidate_of dh current optimal scores tiers) ps = Inr rs'"
      using Cons.prems(2) by (auto simp: res_simps)
    have "distinct (map snd ps)" using Cons.prems(1) by simp
    note IH = Cons.IH [OF this r(3), THEN conjunct1] Cons.IH [OF this r(3), THEN conjunct2]
    show ?case
    proof (cases r)
      case None
      then show ?thesis using IH r(2) by (auto simp: List.map_filter_simps)
    next
      case (Some c)
      then have "fst c = snd p" using name r(1) by simp
      then have "fst c \<notin> fst ` set (List.map_filter (\<lambda>c. c) rs')" using IH(2) Cons.prems(1) by auto
      then show ?thesis using IH r(2) Some \<open>fst c = snd p\<close> by (auto simp: List.map_filter_simps)
    qed
  qed (simp add: List.map_filter_simps)
  have "map snd (List.enumerate 0 ops) = ops" by simp
  with gen [of "List.enumerate 0 ops", OF _ rs] assms(2)
  have "distinct (map fst (List.map_filter (\<lambda>c. c) rs))" "fst ` set (List.map_filter (\<lambda>c. c) rs) \<subseteq> set ops" by simp_all
  moreover have "mset (map fst cs) = mset (map fst (List.map_filter (\<lambda>c. c) rs))" unfolding cs by simp
  ultimately show "distinct (map fst cs)" "fst ` set cs \<subseteq> set ops"
    unfolding cs by (simp_all, metis mset_eq_imp_distinct_iff)
qed

abbreviation ao_ops :: "'e AODE \<Rightarrow> string list" where
  "ao_ops ao \<equiv> dict_keys (ps_cache (ao_placement ao))"

lemma optimal_for_shape:
  assumes "optimal_for ao = Inr (scores, optimal)"
  shows "length scores = length (ao_ops ao)" "\<forall>row \<in> set scores. length row = length (dict_keys get_tier_capacities)"
    and "compute_scores (ao_scoring ao) (ao_telemetry ao) (ao_ops ao) (dict_keys get_tier_capacities)
      get_slo_map get_lambda_map = Inr scores"
    and "find_optimal_placement scores (ao_ops ao) (dict_keys get_tier_capacities) get_tier_capacities = Inr optimal"
proof -
  show s: "compute_scores (ao_scoring ao) (ao_telemetry ao) (ao_ops ao) (dict_keys get_tier_capacities)
      get_slo_map get_lambda_map = Inr scores"
    and "find_optimal_placement scores (ao_ops ao) (dict_keys get_tier_capacities) get_tier_capacities = Inr optimal"
    using assms by (auto simp: optimal_for_def res_simps get_current_placement_def Let_def)
  show len: "length scores = length (ao_ops ao)"
    using s unfolding compute_scores_def by (rule mapM_res_length)
  show "\<forall>row \<in> set scores. length row = length (dict_keys get_tier_capacities)"
    using compute_scores_nth(2) [OF s] len by (metis in_set_conv_nth)
qed

lemma distinct_tiers: "distinct (dict_keys get_tier_capacities)" "length get_available_tiers = 5"
  by (simp_all add: get_tier_capacities_def get_available_tiers_def)

lemma run_optimization_cases:
  assumes "run_optimization pe ao = (Inr r, ao')"
  obtains (none) "ao_ops ao = []" "r = NoOperators" "ao' = ao"
  | (ran) scores optimal cs orch' ps' started where "ao_ops ao \<noteq> []" "optimal_for ao = Inr (scores, optimal)"
      "identify_migration_candidates (delta_h (s_config (ao_scoring ao))) (ps_cache (ao_placement ao)) optimal scores
         (ao_ops ao) (dict_keys get_tier_capacities) = Inr cs"
      "start_migrations pe cs (ao_migrations ao, ao_placement ao, []) = (orch', ps', started)"
      "r = Completed (length cs) started" "ao' = ao\<lparr>ao_migrations := orch', ao_placement := ps'\<rparr>"
proof (cases "ao_ops ao = []")
  case True
  with assms none show ?thesis by (simp add: run_optimization_def get_current_placement_def)
next
  case False
  have ne: "\<not> (ao_ops ao = [] \<or> length get_available_tiers < 2)" using False distinct_tiers(2) by simp
  obtain scores optimal where o: "optimal_for ao = Inr (scores, optimal)"
    using assms ne by (cases "optimal_for ao") (auto simp: run_optimization_def get_current_placement_def Let_def)
  obtain cs where cs: "identify_migration_candidates (delta_h (s_config (ao_scoring ao))) (ps_cache (ao_placement ao))
      optimal scores (ao_ops ao) (dict_keys get_tier_capacities) = Inr cs"
    using assms ne o
    by (cases "identify_migration_candidates (delta_h (s_config (ao_scoring ao))) (ps_cache (ao_placement ao))
      optimal scores (ao_ops ao) (dict_keys get_tier_capacities)")
       (auto simp: run_optimization_def get_current_placement_def Let_def)
  obtain orch' ps' started where s: "start_migrations pe cs (ao_migrations ao, ao_placement ao, []) = (orch', ps', started)"
    by (rule prod_cases3)
  show ?thesis
    by (rule ran [OF False o cs s])
       (use assms ne o cs s in \<open>auto simp: run_optimization_def get_current_placement_def Let_def\<close>)
qed

text \<open>Once every candidate has been moved, the same scores give no further candidate.\<close>

lemma no_candidates_after:
  assumes shape: "length scores = length ops" "\<forall>row \<in> set scores. length row = length tiers" "distinct tiers"
    and cs: "identify_migration_candidates dh current optimal scores ops tiers = Inr cs"
    and after: "\<forall>o'. dict_get current' o' =
      (case moved_to cs o' of Some tgt \<Rightarrow> Some tgt | None \<Rightarrow> dict_get current o')"
  shows "identify_migration_candidates dh current' optimal scores ops tiers = Inr []"
proof -
  have old: "c \<in> set cs \<longleftrightarrow> (\<exists>i < length ops. candidate_rel dh current optimal scores tiers i (ops ! i) c)" for c
    using identify_iff [OF shape, of dh current optimal] unfolding cs by blast
  obtain cs' where cs': "identify_migration_candidates dh current' optimal scores ops tiers = Inr cs'"
    and new: "\<forall>c. c \<in> set cs' \<longleftrightarrow> (\<exists>i < length ops. candidate_rel dh current' optimal scores tiers i (ops ! i) c)"
    using identify_iff [OF shape, of dh current' optimal] by blast
  have "c \<notin> set cs'" for c
  proof
    assume "c \<in> set cs'"
    then obtain i where i: "i < length ops" "candidate_rel dh current' optimal scores tiers i (ops ! i) c"
      using new by blast
    obtain src tgt imp where c: "c = (ops ! i, src, tgt, imp)" "dict_get optimal (ops ! i) = Some tgt" "src \<noteq> tgt"
      "dict_get current' (ops ! i) = Some src"
      using i(2) by (cases c) (auto simp: candidate_rel_def)
    show False
    proof (cases "moved_to cs (ops ! i)")
      case (Some tgt')
      then obtain src' imp' where "(ops ! i, src', tgt', imp') \<in> set cs"
        using map_of_SomeD [of "map (\<lambda>(op, src, tgt, imp). (op, tgt)) cs" "ops ! i" tgt'] by (auto simp: moved_to_def)
      then have "dict_get optimal (ops ! i) = Some tgt'"
        unfolding old by (auto simp: candidate_rel_def)
      moreover have "dict_get current' (ops ! i) = Some tgt'" using after Some by simp
      ultimately show False using c by simp
    next
      case None
      then have "dict_get current' (ops ! i) = dict_get current (ops ! i)" using after by simp
      then have "candidate_rel dh current optimal scores tiers i (ops ! i) c"
        using i(2) by (simp add: candidate_rel_def split: prod.splits)
      then have "c \<in> set cs" using old i(1) by blast
      then have "ops ! i \<in> fst ` set (map (\<lambda>(op, src, tgt, imp). (op, tgt)) cs)" using c(1) by force
      then show False using None by (simp add: moved_to_def map_of_eq_None_iff)
    qed
  qed
  then have "cs' = []" by (cases cs') auto
  with cs' show ?thesis by simp
qed


section \<open>A recalibration always returns\<close>

lemma no_zero_objective: "dict_get_default get_slo_map op None \<noteq> Some 0"
proof -
  have "(op, v) \<in> set get_slo_map \<Longrightarrow> v \<noteq> Some 0" for v by (auto simp: get_slo_map_def)
  then show ?thesis using map_of_SomeD [of get_slo_map op] by (auto simp: dict_get_default_def split: option.split)
qed

lemma optimal_for_total: "\<exists>scores optimal. optimal_for ao = Inr (scores, optimal)"
proof -
  let ?tiers = "dict_keys get_tier_capacities"
  obtain scores where s: "compute_scores (ao_scoring ao) (ao_telemetry ao) (ao_ops ao) ?tiers get_slo_map get_lambda_map = Inr scores"
    using compute_scores_total [OF no_zero_objective] by blast
  have len: "length scores = length (ao_ops ao)" using s unfolding compute_scores_def by (rule mapM_res_length)
  have rows: "\<forall>row \<in> set scores. length row = length ?tiers"
    using compute_scores_nth(2) [OF s] len by (metis in_set_conv_nth)
  have "?tiers \<noteq> []" "\<forall>t \<in> set ?tiers. dict_get get_tier_capacities t \<noteq> None"
    by (simp_all add: get_tier_capacities_def)
  from find_optimal_placement_total [OF len rows this] obtain optimal where
    "find_optimal_placement scores (ao_ops ao) ?tiers get_tier_capacities = Inr optimal" by blast
  with s show ?thesis by (simp add: optimal_for_def get_current_placement_def)
qed

lemma run_optimization_total: "\<exists>r ao'. run_optimization pe ao = (Inr r, ao')"
proof (cases "ao_ops ao = []")
  case True
  then show ?thesis by (simp add: run_optimization_def get_current_placement_def)
next
  case False
  obtain scores optimal where o: "optimal_for ao = Inr (scores, optimal)" using optimal_for_total by blast
  obtain cs where cs: "identify_migration_candidates (delta_h (s_config (ao_scoring ao))) (ps_cache (ao_placement ao))
      optimal scores (ao_ops ao) (dict_keys get_tier_capacities) = Inr cs"
    using identify_iff [OF optimal_for_shape(1,2) [OF o] distinct_tiers(1)] by blast
  have "ps_cache (ao_placement ao) \<noteq> []" using False by (metis list.map_disc_iff)
  then show ?thesis using o cs distinct_tiers(2)
    by (simp add: run_optimization_def get_current_placement_def Let_def split: prod.split)
qed

definition sample_engine :: "((string, string) dict \<times> nat) EtcdClient AODE" where
  "sample_engine =
     \<lparr>ao_scoring = sample_scoring, ao_telemetry = TelemetryCollector_init AODEConfig_default,
      ao_placement = \<lparr>ps_etcd = sample_client, ps_cache = [(''RiskCheck'', ''edge-node-1'')]\<rparr>,
      ao_migrations = PCTROrchestrator_new, ao_last = 0\<rparr>"


section \<open>The default deployment\<close>

text \<open>The collector knows the nodes by the hosts of their endpoints, whatever it has collected.\<close>

lemma init_keys:
  "dict_keys (TelemetryCollector_init AODEConfig_default) = [''hea-node-1'', ''hea-node-2'', ''hea-node-3'', ''hea-node-4'']"
  by (simp add: TelemetryCollector_init_def AODEConfig_default_def register_hea_def endpoint_host_def)

lemma unknown_tier:
  assumes "dict_keys tel = dict_keys (TelemetryCollector_init AODEConfig_default)" "t \<in> set (dict_keys get_tier_capacities)"
  shows "dict_get tel t = None"
proof -
  have "t \<notin> set (dict_keys tel)" using assms unfolding assms(1) init_keys by (auto simp: get_tier_capacities_def)
  then show ?thesis by (simp add: map_of_eq_None_iff)
qed

lemma edge_gap:
  assumes keys: "dict_keys tel = dict_keys (TelemetryCollector_init AODEConfig_default)"
    and t: "t \<in> set (dict_keys get_tier_capacities)" "t \<noteq> ''cloud''"
    and "score_cell sc tel op lclass slo t = Inr x" "score_cell sc tel op lclass slo ''cloud'' = Inr y"
  shows "x - y = w_net (s_weights sc) * 1000"
proof -
  have none: "dict_get tel t = None" by (rule unknown_tier [OF keys t(1)])
  have cloud: "dict_get tel ''cloud'' = None"
    by (rule unknown_tier [OF keys]) (simp add: get_tier_capacities_def)
  show ?thesis
    using score_cell_diff [OF assms(4,5)] none cloud t(2)
    by (simp add: compute_phi_res_def compute_phi_net_def get_tier_utilization_def get_latest_telemetry_def)
qed

lemma length_filter_lt: "x \<in> set xs \<Longrightarrow> \<not> P x \<Longrightarrow> length (filter P xs) < length xs"
  by (induction xs) (auto simp: less_Suc_eq_le)

lemma cloud_wins:
  assumes opt: "optimal_for ao = Inr (scores, optimal)"
    and wf: "wf_dict (ps_cache (ao_placement ao))" and few: "length (ao_ops ao) \<le> 100"
    and keys: "dict_keys (ao_telemetry ao) = dict_keys (TelemetryCollector_init AODEConfig_default)"
    and net: "0 < w_net (s_weights (ao_scoring ao))" and op: "op \<in> set (ao_ops ao)"
  shows "dict_get optimal op = Some ''cloud''"
proof -
  let ?tiers = "dict_keys get_tier_capacities"
  note shape = optimal_for_shape [OF opt]
  have dist: "distinct (ao_ops ao)" using wf by (simp add: wf_dict_def)
  have tiers: "length ?tiers = 5" "?tiers ! 4 = ''cloud''" by (simp_all add: get_tier_capacities_def)
  obtain a where a: "a < length (ao_ops ao)" "ao_ops ao ! a = op" using op by (metis in_set_conv_nth)
  have compl: "mset (map fst optimal) = mset (ao_ops ao) \<and> snd ` set optimal \<subseteq> set ?tiers \<union> {''cloud''}"
    by (rule placement_is_complete [OF dist distinct_tiers(1) shape(4)])
  then have "op \<in> fst ` set optimal" using op by (metis list.set_map set_mset_mset)
  then obtain t where t: "dict_get optimal op = Some t" by (metis map_of_eq_None_iff not_None_eq)
  then have "t \<in> set ?tiers" using compl get_in_set [OF t] by (force simp: get_tier_capacities_def)
  then obtain j where j: "j < length ?tiers" "?tiers ! j = t" by (metis in_set_conv_nth)
  show ?thesis
  proof (cases "t = ''cloud''")
    case False
    note cell = compute_scores_nth(3) [OF shape(3) a(1)]
    have "scores ! a ! j - scores ! a ! 4 = w_net (s_weights (ao_scoring ao)) * 1000"
      by (rule edge_gap [OF keys \<open>t \<in> set ?tiers\<close> False cell [OF j(1), unfolded j(2)]])
         (use cell [of 4] tiers in simp)
    then have cheaper: "scores ! a ! 4 < scores ! a ! j" using net by simp
    have "(\<exists>c. dict_get get_tier_capacities (?tiers ! 4) = Some c \<and> c \<le> int (tier_load optimal (?tiers ! 4)))"
      using cheaper_tier_is_full [OF dist distinct_tiers(1) shape(4) a(1) _ j(1) _ cheaper] t a(2) j(2) tiers by simp
    then have full: "100 \<le> tier_load optimal ''cloud''"
      by (simp add: get_tier_capacities_def)
    have "tier_load optimal ''cloud'' < length optimal"
      unfolding tier_load_def using length_filter_lt [OF get_in_set [OF t], of "\<lambda>p. snd p = ''cloud''"] False by simp
    moreover have "length optimal = length (ao_ops ao)" using compl by (metis length_map mset_eq_length)
    ultimately show ?thesis using full few by simp
  qed (use t in simp)
qed

text \<open>With the default settings the edge is never used.  The tiers are called \<open>edge-node-1\<close> to
  \<open>edge-node-4\<close>, the telemetry is kept under the hosts \<open>hea-node-1\<close> to \<open>hea-node-4\<close>, so no tier ever has
  telemetry: whatever the nodes report, with any of the presets a recalibration finds the cloud optimal for
  every operator, up to the cloud's capacity of a hundred.\<close>

theorem edge_never_chosen:
  assumes "wf_dict (ps_cache (ao_placement ao))" "length (ps_cache (ao_placement ao)) \<le> 100"
    and "ao_telemetry ao = collect_all probe2 (collect_all probe1 (TelemetryCollector_init AODEConfig_default))"
    and "get_weight_preset preset = Inr (s_weights (ao_scoring ao))"
  shows "\<exists>scores optimal. optimal_for ao = Inr (scores, optimal) \<and>
    (\<forall>op. dict_get (ps_cache (ao_placement ao)) op \<noteq> None \<longrightarrow> dict_get optimal op = Some ''cloud'')"
proof -
  obtain scores optimal where o: "optimal_for ao = Inr (scores, optimal)" using optimal_for_total by blast
  have keys: "dict_keys (ao_telemetry ao) = dict_keys (TelemetryCollector_init AODEConfig_default)"
    by (simp add: assms(3) collect_all_keys)
  have net: "0 < w_net (s_weights (ao_scoring ao))" using get_weight_preset_Inr(3) [OF assms(4)] by simp
  have "length (ao_ops ao) \<le> 100" using assms(2) by simp
  note win = cloud_wins [OF o assms(1) this keys net]
  have "dict_get optimal op = Some ''cloud''" if "dict_get (ps_cache (ao_placement ao)) op \<noteq> None" for op
    by (rule win) (use that in \<open>simp add: map_of_eq_None_iff\<close>)
  with o show ?thesis by blast
qed

definition sample_answer :: "string \<Rightarrow> TelemetryResponse res \<times> real \<times> int" where
  "sample_answer hid =
     (Inr \<lparr>r_cpu_utilization = 1/100, r_memory_utilization = 1/100, r_ingest_rate_eps = 0, r_operator_p95_ms = [],
        r_timestamp_ms = 1, r_reachable = True\<rparr>, 1, 1)"

theorem edge_never_chosen_witness:
  "\<exists>scores optimal. optimal_for (sample_engine\<lparr>ao_telemetry :=
        collect_all sample_answer (collect_all sample_answer (TelemetryCollector_init AODEConfig_default))\<rparr>) =
      Inr (scores, optimal) \<and> dict_get optimal ''RiskCheck'' = Some ''cloud''"
proof -
  let ?ao = "sample_engine\<lparr>ao_telemetry :=
    collect_all sample_answer (collect_all sample_answer (TelemetryCollector_init AODEConfig_default))\<rparr>"
  have "get_weight_preset ''balanced'' = Inr (s_weights (ao_scoring ?ao))"
    by (simp add: get_weight_preset_values sample_engine_def sample_scoring_def)
  from edge_never_chosen [OF _ _ _ this, of sample_answer sample_answer] show ?thesis
    by (auto simp: sample_engine_def wf_dict_def)
qed

end
