(* ===== verification/AodeMain.thy ===== *)
theory AodeMain
  imports Optimizer
begin

text \<open>
  The start of the decision engine (\<open>aode/aode/main.py\<close>): the components it builds, the clients through which
  telemetry is collected, the loops it starts, and the process as a sequence of turns of those loops and of
  management calls.
\<close>

section \<open>Start\<close>

text \<open>A client is known by its endpoint.  \<open>ap_..._loops\<close> count the tasks that run a loop.\<close>

record 'c aode_process =
  ap_config :: AODEConfig
  ap_clients :: "(string, string) dict"
  ap_ep_map :: "(string, string) dict"
  ap_engine :: "'c EtcdClient AODE"
  ap_telemetry_loops :: nat
  ap_optimization_loops :: nat

definition hea_client_table :: "AODEConfig \<Rightarrow> (string, string) dict" where
  "hea_client_table cfg = dict_of (map (\<lambda>ep. (ep, ep)) (hea_endpoints cfg)) []"

definition endpoint_map :: "AODEConfig \<Rightarrow> (string, string) dict" where
  "endpoint_map cfg =
     (let clients = hea_client_table cfg
      in dict_of clients (dict_of (map (\<lambda>(ep, client). (endpoint_host ep, client)) clients) []))"

text \<open>Starting a component creates the task of its loop, stopping it cancels that task.\<close>

definition telemetry_start :: "'c aode_process \<Rightarrow> 'c aode_process" where
  "telemetry_start p = p\<lparr>ap_telemetry_loops := ap_telemetry_loops p + 1\<rparr>"

definition telemetry_stop :: "'c aode_process \<Rightarrow> 'c aode_process" where
  "telemetry_stop p = p\<lparr>ap_telemetry_loops := ap_telemetry_loops p - 1\<rparr>"

definition optimizer_start :: "'c aode_process \<Rightarrow> 'c aode_process" where
  "optimizer_start p =
     (if recalibration_enabled (ap_config p) then p\<lparr>ap_optimization_loops := ap_optimization_loops p + 1\<rparr> else p)"

definition optimizer_stop :: "'c aode_process \<Rightarrow> 'c aode_process" where
  "optimizer_stop p =
     (if recalibration_enabled (ap_config p) then p\<lparr>ap_optimization_loops := ap_optimization_loops p - 1\<rparr> else p)"

text \<open>The process starts both components, and creates one more task for each loop.\<close>

definition aode_start :: "AODEConfig \<Rightarrow> 'c aode_process res" where
  "aode_start cfg =
     bind_res (ScoringAlgorithm_init cfg) (\<lambda>scoring.
       (let p = \<lparr>ap_config = cfg, ap_clients = hea_client_table cfg, ap_ep_map = endpoint_map cfg,
              ap_engine = \<lparr>ao_scoring = scoring, ao_telemetry = TelemetryCollector_init cfg,
                ao_placement = PlacementState_new (EtcdClient_new (etcd_endpoints cfg) (etcd_key_prefix cfg)),
                ao_migrations = PCTROrchestrator_new, ao_last = 0\<rparr>,
              ap_telemetry_loops = 0, ap_optimization_loops = 0\<rparr>;
            p = optimizer_start (telemetry_start p)
        in Inr (p\<lparr>ap_telemetry_loops := ap_telemetry_loops p + 1, ap_optimization_loops := ap_optimization_loops p + 1\<rparr>)))"

text \<open>
  The stub of a node, and what asking it gives: \<open>rpc\<close> is the answer of the client of an endpoint with the measured
  round trip, \<open>clock\<close> the wall clock then.
\<close>

definition patched_get_stub :: "'c aode_process \<Rightarrow> string \<Rightarrow> string option" where
  "patched_get_stub p hid = dict_get (ap_ep_map p) hid"

definition ask_node ::
    "(string \<Rightarrow> TelemetryResponse res \<times> real) \<Rightarrow> (string \<Rightarrow> int) \<Rightarrow> 'c aode_process \<Rightarrow> string \<Rightarrow> TelemetryResponse res \<times> real \<times> int" where
  "ask_node rpc clock p hid =
     (case patched_get_stub p hid of
        None \<Rightarrow> (Inl (AttributeError ''NoneType object has no attribute CollectTelemetry''), 0, clock hid)
      | Some endpoint \<Rightarrow> (case rpc endpoint of (answer, lat) \<Rightarrow> (answer, lat, clock hid)))"

text \<open>The end of the process: both components are stopped, then the tasks of the process are cancelled.\<close>

definition aode_shutdown :: "'c aode_process \<Rightarrow> 'c aode_process" where
  "aode_shutdown p =
     (let p = optimizer_stop (telemetry_stop p)
      in p\<lparr>ap_telemetry_loops := ap_telemetry_loops p - 1, ap_optimization_loops := ap_optimization_loops p - 1\<rparr>)"

lemmas start_stop_defs = telemetry_start_def telemetry_stop_def optimizer_start_def optimizer_stop_def Let_def

section \<open>The running process\<close>

datatype aode_event =
    TelemetryTurn "string \<Rightarrow> TelemetryResponse res \<times> real" "string \<Rightarrow> int"
  | OptimizationTurn real
  | RecalibrationCall handler_env
  | WeightsCall string

fun aode_step :: "'c EtcdClient placement_api \<Rightarrow> aode_event \<Rightarrow> 'c aode_process \<Rightarrow> 'c aode_process" where
  "aode_step pe (TelemetryTurn rpc clock) p =
     p\<lparr>ap_engine := (ap_engine p)\<lparr>ao_telemetry := collect_all (ask_node rpc clock p) (ao_telemetry (ap_engine p))\<rparr>\<rparr>"
| "aode_step pe (OptimizationTurn now) p =
     (if 0 < ap_optimization_loops p then p\<lparr>ap_engine := optimization_turn pe now (ap_engine p)\<rparr> else p)"
| "aode_step pe (RecalibrationCall env) p = p\<lparr>ap_engine := snd (TriggerRecalibration pe env (ap_engine p))\<rparr>"
| "aode_step pe (WeightsCall preset) p = p\<lparr>ap_engine := snd (UpdateWeights preset (ap_engine p))\<rparr>"

definition aode_run :: "'c EtcdClient placement_api \<Rightarrow> aode_event list \<Rightarrow> 'c aode_process \<Rightarrow> 'c aode_process" where
  "aode_run pe evs p = fold (aode_step pe) evs p"

section \<open>Nothing is ever placed\<close>

definition resting :: "'e AODE \<Rightarrow> bool" where
  "resting ao \<longleftrightarrow> ps_cache (ao_placement ao) = [] \<and> or_active (ao_migrations ao) = []"

lemma resting_optimization: "resting ao \<Longrightarrow> run_optimization pe ao = (Inr NoOperators, ao)"
  by (simp add: resting_def run_optimization_def get_current_placement_def)

lemma resting_step: "resting (ap_engine p) \<Longrightarrow> ao_placement (ap_engine (aode_step pe ev p)) = ao_placement (ap_engine p) \<and>
    resting (ap_engine (aode_step pe ev p))"
  by (cases ev)
    (auto simp: optimization_turn_def resting_optimization TriggerRecalibration_def UpdateWeights_def Let_def
      split: sum.splits, auto simp: resting_def)

lemma resting_run: "resting (ap_engine p) \<Longrightarrow> ao_placement (ap_engine (aode_run pe evs p)) = ao_placement (ap_engine p) \<and>
    resting (ap_engine (aode_run pe evs p))"
  unfolding aode_run_def
proof (induction evs arbitrary: p)
  case (Cons ev evs)
  show ?case using Cons.IH [of "aode_step pe ev p"] resting_step [OF Cons.prems, of pe ev] by simp
qed simp

text \<open>C18: The deployed decision engine never decides anything.  The process neither connects to etcd nor loads the
  placement, no election is held, and no call adds an operator: from its start, whatever the nodes report and
  whatever calls are made, its placement is empty, every recalibration finds no operators, no migration is
  started, and the status reports a leader that manages nothing.\<close>

theorem deployed_aode_never_acts:
  assumes "aode_start cfg = Inr p" "q = ap_engine (aode_run pe evs p)"
  shows "get_current_placement (ao_placement q) = [] \<and> ec_client (ps_etcd (ao_placement q)) = None \<and>
    list_active_migrations (ao_migrations q) = [] \<and> run_optimization pe q = (Inr NoOperators, q) \<and>
    asr_is_leader (GetStatus now q) \<and> asr_operators_managed (GetStatus now q) = 0"
proof -
  have start: "resting (ap_engine p)" "ec_client (ps_etcd (ao_placement (ap_engine p))) = None"
    using assms(1) by (auto simp: aode_start_def start_stop_defs ScoringAlgorithm_init_def resting_def PlacementState_new_def
        PCTROrchestrator_new_def EtcdClient_new_def bind_res_eq_Inr)
  from resting_run [OF start(1), of pe evs] have q: "ao_placement q = ao_placement (ap_engine p)" "resting q"
    by (simp_all add: assms(2))
  then show ?thesis using start(2) resting_optimization [OF q(2), of pe]
    by (simp add: resting_def get_current_placement_def list_active_migrations_def GetStatus_def)
qed

lemma default_starts: "\<exists>p. aode_start AODEConfig_default = Inr p"
proof -
  have "\<not> isl (get_weight_preset ''balanced'')" by (simp add: get_weight_preset_values)
  then show ?thesis
    by (cases "get_weight_preset ''balanced''") (auto simp: aode_start_def start_stop_defs ScoringAlgorithm_init_def AODEConfig_default_def)
qed

theorem deployed_aode_never_acts_witness:
  "\<exists>p. aode_start AODEConfig_default = Inr p \<and>
     get_current_placement (ao_placement (ap_engine (aode_run (shipped_etcd (map_server_api TxBool))
       [OptimizationTurn 5, WeightsCall ''latency-first'', OptimizationTurn 10] p))) = []"
proof -
  obtain p :: "((string, string) dict \<times> nat) aode_process" where p: "aode_start AODEConfig_default = Inr p"
    using default_starts by blast
  from deployed_aode_never_acts [OF p refl] p show ?thesis by blast
qed

section \<open>Whom the telemetry comes from\<close>

text \<open>The loops run twice, also the one that the settings switch off; the shutdown ends them all.\<close>

theorem loops_started_and_ended:
  assumes "aode_start cfg = Inr p"
  shows "ap_telemetry_loops p = 2 \<and> ap_optimization_loops p = (if recalibration_enabled cfg then 2 else 1) \<and>
    ap_telemetry_loops (aode_shutdown p) = 0 \<and> ap_optimization_loops (aode_shutdown p) = 0"
  using assms by (auto simp: aode_start_def aode_shutdown_def start_stop_defs bind_res_eq_Inr)

lemma dict_of_unique:
  assumes "\<And>k v. (k, v) \<in> set kvs \<Longrightarrow> k = h \<Longrightarrow> v = x" "h \<in> fst ` set kvs \<or> dict_get d h = Some x"
  shows "dict_get (dict_of kvs d) h = Some x"
  using assms
proof (induction kvs arbitrary: d)
  case (Cons kv kvs)
  obtain k v where kv: "kv = (k, v)" by (rule prod.exhaust)
  have "h \<in> fst ` set kvs \<or> dict_get (dict_set k v d) h = Some x"
    using Cons.prems(1) [of k v] Cons.prems(2) by (auto simp: kv dict_simps)
  from Cons.IH [OF _ this] Cons.prems(1) show ?case by (simp add: kv)
qed simp

lemma client_table_entry: "(ep, client) \<in> set (hea_client_table cfg) \<Longrightarrow> client = ep \<and> ep \<in> set (hea_endpoints cfg)"
proof -
  have "(ep, client) \<in> set (dict_of (map (\<lambda>ep. (ep, ep)) eps) d) \<Longrightarrow> wf_dict d \<Longrightarrow>
      client = ep \<and> ep \<in> set eps \<or> (ep, client) \<in> set d" for eps d
  proof (induction eps arbitrary: d)
    case (Cons e eps)
    then show ?case by (auto simp: set_update_wf dest: Cons.IH)
  qed simp
  then show "(ep, client) \<in> set (hea_client_table cfg) \<Longrightarrow> ?thesis" by (fastforce simp: hea_client_table_def)
qed

lemma client_table_get: "ep \<in> set (hea_endpoints cfg) \<Longrightarrow> dict_get (hea_client_table cfg) ep = Some ep"
  unfolding hea_client_table_def by (rule dict_of_unique) (auto simp: image_image)

lemma endpoint_host_idem [simp]: "endpoint_host (endpoint_host ep) = endpoint_host ep"
  by (auto simp: endpoint_host_def takeWhile_eq_all_conv dest: set_takeWhileD)

lemma endpoint_map_host:
  assumes "distinct (map endpoint_host (hea_endpoints cfg))" "ep \<in> set (hea_endpoints cfg)"
  shows "dict_get (endpoint_map cfg) (endpoint_host ep) = Some ep"
proof -
  have same: "ep' = ep" if "ep' \<in> set (hea_endpoints cfg)" "endpoint_host ep' = endpoint_host ep" for ep'
    using assms that by (auto simp: distinct_map dest: inj_onD)
  let ?hosts = "map (\<lambda>(ep, client). (endpoint_host ep, client)) (hea_client_table cfg)"
  have "dict_get (dict_of ?hosts []) (endpoint_host ep) = Some ep"
  proof (rule dict_of_unique)
    show "endpoint_host ep \<in> fst ` set ?hosts \<or> dict_get [] (endpoint_host ep) = Some ep"
      using get_in_set [OF client_table_get [OF assms(2)]] by force
    fix k client assume "(k, client) \<in> set ?hosts" "k = endpoint_host ep"
    then obtain a where "(a, client) \<in> set (hea_client_table cfg)" "endpoint_host a = endpoint_host ep" by auto
    then show "client = ep" using client_table_entry same by blast
  qed
  then show ?thesis unfolding endpoint_map_def Let_def
    by (intro dict_of_unique) (use same client_table_entry in fastforce)+
qed

lemma aode_step_tables:
  "ap_ep_map (aode_step pe ev p) = ap_ep_map p \<and>
   dict_keys (ao_telemetry (ap_engine (aode_step pe ev p))) = dict_keys (ao_telemetry (ap_engine p))" if "resting (ap_engine p)"
  using that by (cases ev)
    (auto simp: optimization_turn_def resting_optimization TriggerRecalibration_def UpdateWeights_def Let_def collect_all_keys
      split: sum.splits)

lemma aode_run_tables:
  "resting (ap_engine p) \<Longrightarrow> ap_ep_map (aode_run pe evs p) = ap_ep_map p \<and>
   dict_keys (ao_telemetry (ap_engine (aode_run pe evs p))) = dict_keys (ao_telemetry (ap_engine p))"
  unfolding aode_run_def
proof (induction evs arbitrary: p)
  case (Cons ev evs)
  show ?case using Cons.IH [of "aode_step pe ev p"] resting_step [OF Cons.prems, of pe ev] aode_step_tables [OF Cons.prems, of pe ev]
    by simp
qed simp

lemma initial_keys: "fst ` set (TelemetryCollector_init cfg) = endpoint_host ` set (hea_endpoints cfg)"
proof -
  have "fst ` set (foldl (\<lambda>tel ep. register_hea (endpoint_host ep) tel) tel eps) = fst ` set tel \<union> endpoint_host ` set eps" for tel eps
  proof (induction eps arbitrary: tel)
    case (Cons ep eps)
    have "fst ` set (register_hea (endpoint_host ep) tel) = insert (endpoint_host ep) (fst ` set tel)"
    proof (cases "dict_get tel (endpoint_host ep)")
      case None
      have "set (map fst (dict_set k v tel)) = insert k (set (map fst tel))" for k and v :: HEATelemetry
        unfolding keys_set by auto
      then show ?thesis by (simp add: register_hea_def None)
    next
      case (Some t)
      then show ?thesis unfolding register_hea_def using get_in_set [OF Some] by force
    qed
    then show ?case using Cons.IH by simp
  qed simp
  from this [of "[]" "hea_endpoints cfg"] show ?thesis by (simp add: TelemetryCollector_init_def)
qed

text \<open>C19: The telemetry of a node comes from that node.  When no two endpoints have the same host, whatever the process
  did before, a collection stores under the host of every configured endpoint exactly what the client of that
  endpoint answered, or that the node is unreachable when it raised.\<close>

theorem telemetry_from_own_node:
  assumes "aode_start cfg = Inr p" "distinct (map endpoint_host (hea_endpoints cfg))" "ep \<in> set (hea_endpoints cfg)"
    and "q = aode_step pe (TelemetryTurn rpc clock) (aode_run pe evs p)"
  shows "dict_get (get_latest_telemetry (ao_telemetry (ap_engine q))) (endpoint_host ep) =
    Some (collect_one (endpoint_host ep) (fst (rpc ep)) (snd (rpc ep)) (clock (endpoint_host ep)))"
proof -
  have start: "resting (ap_engine p)" "ap_ep_map p = endpoint_map cfg" "ao_telemetry (ap_engine p) = TelemetryCollector_init cfg"
    using assms(1) by (auto simp: aode_start_def start_stop_defs ScoringAlgorithm_init_def resting_def PlacementState_new_def
        PCTROrchestrator_new_def bind_res_eq_Inr)
  let ?r = "aode_run pe evs p"
  have "ap_ep_map ?r = endpoint_map cfg" "dict_keys (ao_telemetry (ap_engine ?r)) = dict_keys (TelemetryCollector_init cfg)"
    using aode_run_tables [OF start(1), of pe evs] start(2,3) by simp_all
  note r = this
  have "endpoint_host ep \<in> fst ` set (ao_telemetry (ap_engine ?r))"
    using arg_cong [OF r(2), of set] initial_keys [of cfg] assms(3) by simp
  then show ?thesis
    by (simp add: assms(4) get_latest_telemetry_def collect_all_get ask_node_def patched_get_stub_def r(1)
        endpoint_map_host [OF assms(2,3)] split: prod.split)
qed

theorem telemetry_from_own_node_witness:
  "\<exists>p. aode_start AODEConfig_default = Inr p \<and>
     dict_get (get_latest_telemetry (ao_telemetry (ap_engine
       (aode_step (shipped_etcd (map_server_api TxBool)) (TelemetryTurn (\<lambda>ep. (Inl (Exc ''timeout''), 3)) (\<lambda>_. 7))
         (aode_run (shipped_etcd (map_server_api TxBool)) [] p))))) ''hea-node-2'' = Some (unreachable_telemetry ''hea-node-2'' 7)"
proof -
  obtain p :: "((string, string) dict \<times> nat) aode_process" where p: "aode_start AODEConfig_default = Inr p"
    using default_starts by blast
  have "distinct (map endpoint_host (hea_endpoints AODEConfig_default))"
    "''hea-node-2:50051'' \<in> set (hea_endpoints AODEConfig_default)"
    by (simp_all add: AODEConfig_default_def endpoint_host_def)
  from telemetry_from_own_node [OF p this refl] p show ?thesis
    by (auto simp: endpoint_host_def collect_one_def)
qed

end
