(* ===== verification/Pyval.thy ===== *)
theory Pyval
  imports Prelude
begin

text \<open>
  The Python values that records, operator states and snapshots are made of, with the conversions the
  workloads use.  Floats are reals; infinities and NaN do not occur in records.  Dictionaries have string
  keys (records come out of MessagePack and JSON with string keys); a value used as a key must be a
  string.  Messages of a \<open>TypeError\<close> are shortened where Python would name both operand types.
\<close>

section \<open>Values\<close>

datatype pyval =
    PNone
  | PBool bool
  | PInt int
  | PFloat real
  | PStr string
  | PBytes "nat list"
  | PList "pyval list"
  | PDict "(string \<times> pyval) list"

type_synonym py_record = "(string, pyval) dict"

fun type_name :: "pyval \<Rightarrow> string" where
  "type_name PNone = ''NoneType''"
| "type_name (PBool b) = ''bool''"
| "type_name (PInt i) = ''int''"
| "type_name (PFloat r) = ''float''"
| "type_name (PStr s) = ''str''"
| "type_name (PBytes b) = ''bytes''"
| "type_name (PList vs) = ''list''"
| "type_name (PDict d) = ''dict''"

fun truthy :: "pyval \<Rightarrow> bool" where
  "truthy PNone = False"
| "truthy (PBool b) = b"
| "truthy (PInt i) = (i \<noteq> 0)"
| "truthy (PFloat r) = (r \<noteq> 0)"
| "truthy (PStr s) = (s \<noteq> [])"
| "truthy (PBytes b) = (b \<noteq> [])"
| "truthy (PList vs) = (vs \<noteq> [])"
| "truthy (PDict d) = (d \<noteq> [])"

section \<open>Conversions\<close>

text \<open>
  \<open>float(s)\<close>: blanks around, a sign, digits with an optional fraction, an optional exponent.  Underscores and
  the names of infinities and NaN are not modelled.
\<close>

definition unsigned_part :: "string \<Rightarrow> bool \<times> string" where
  "unsigned_part s =
     (case s of [] \<Rightarrow> (False, [])
      | c # r \<Rightarrow> if c = CHR ''-'' then (True, r) else if c = CHR ''+'' then (False, r) else (False, s))"

definition all_digits :: "string \<Rightarrow> bool" where
  "all_digits s \<longleftrightarrow> list_all (\<lambda>c. c \<in> set ''0123456789'') s"

definition mantissa_of :: "string \<Rightarrow> real option" where
  "mantissa_of s =
     (case py_split (CHR ''.'') s of
        [w] \<Rightarrow> if w \<noteq> [] \<and> all_digits w then Some (of_nat (nat_of_digits w)) else None
      | [w, f] \<Rightarrow>
          if w @ f \<noteq> [] \<and> all_digits (w @ f)
          then Some (of_nat (nat_of_digits (w @ f)) / 10 ^ length f) else None
      | _ \<Rightarrow> None)"

definition exponent_of :: "string \<Rightarrow> (bool \<times> nat) option" where
  "exponent_of s =
     (case unsigned_part s of (neg, d) \<Rightarrow> if is_digits d then Some (neg, nat_of_digits d) else None)"

definition float_of_string :: "string \<Rightarrow> real res" where
  "float_of_string s =
     (let bad = Inl (ValueError (''could not convert string to float: '' @ [CHR 39] @ s @ [CHR 39]));
          lower_e = map (\<lambda>c. if c = CHR ''E'' then CHR ''e'' else c)
      in case unsigned_part (strip_blanks s) of
           (neg, t) \<Rightarrow>
             (case py_split (CHR ''e'') (lower_e t) of
                [m] \<Rightarrow> (case mantissa_of m of None \<Rightarrow> bad | Some x \<Rightarrow> Inr (if neg then - x else x))
              | [m, e] \<Rightarrow>
                  (case (mantissa_of m, exponent_of e) of
                     (Some x, Some (eneg, n)) \<Rightarrow>
                       (let y = (if eneg then x / 10 ^ n else x * 10 ^ n) in Inr (if neg then - y else y))
                   | _ \<Rightarrow> bad)
              | _ \<Rightarrow> bad))"

fun py_float :: "pyval \<Rightarrow> real res" where
  "py_float (PFloat r) = Inr r"
| "py_float (PInt i) = Inr (of_int i)"
| "py_float (PBool b) = Inr (if b then 1 else 0)"
| "py_float (PStr s) = float_of_string s"
| "py_float v = Inl (TypeError (''float() argument must be a string or a real number, not '' @ [CHR 39] @ type_name v @ [CHR 39]))"

text \<open>\<open>int(r)\<close> truncates towards zero.\<close>

definition truncate_real :: "real \<Rightarrow> int" where
  "truncate_real r = (if 0 \<le> r then \<lfloor>r\<rfloor> else - \<lfloor>- r\<rfloor>)"

fun py_int :: "pyval \<Rightarrow> int res" where
  "py_int (PInt i) = Inr i"
| "py_int (PBool b) = Inr (if b then 1 else 0)"
| "py_int (PFloat r) = Inr (truncate_real r)"
| "py_int (PStr s) = int_of_string s"
| "py_int v = Inl (TypeError (''int() argument must be a string, a bytes-like object or a real number, not '' @ [CHR 39] @ type_name v @ [CHR 39]))"

text \<open>A number in an addition.\<close>

fun as_number :: "pyval \<Rightarrow> real res" where
  "as_number (PInt i) = Inr (of_int i)"
| "as_number (PFloat r) = Inr r"
| "as_number (PBool b) = Inr (if b then 1 else 0)"
| "as_number v = Inl (TypeError ''unsupported operand type(s) for +'')"

text \<open>
  A value used as a dictionary key.  Lists and dictionaries are not hashable; other keys than strings are
  outside the model and rejected here.
\<close>

fun as_key :: "pyval \<Rightarrow> string res" where
  "as_key (PStr s) = Inr s"
| "as_key v = Inl (TypeError (''unhashable or unsupported key type: '' @ [CHR 39] @ type_name v @ [CHR 39]))"

text \<open>\<open>str(v)\<close>; the digits of floats and the text of containers are outside the model and rejected.\<close>

fun py_str :: "pyval \<Rightarrow> string res" where
  "py_str (PStr s) = Inr s"
| "py_str (PInt i) = Inr (show_int i)"
| "py_str (PBool b) = Inr (if b then ''True'' else ''False'')"
| "py_str PNone = Inr ''None''"
| "py_str v = Inl (Exc (''str() of '' @ type_name v @ '' is not modelled''))"

fun as_list :: "pyval \<Rightarrow> pyval list res" where
  "as_list (PList vs) = Inr vs"
| "as_list v = Inl (TypeError ([CHR 39] @ type_name v @ [CHR 39] @ '' object is not iterable''))"

fun as_dict :: "pyval \<Rightarrow> py_record res" where
  "as_dict (PDict d) = Inr d"
| "as_dict v = Inl (AttributeError ([CHR 39] @ type_name v @ [CHR 39] @ '' object has no attribute '' @ [CHR 39] @ ''items'' @ [CHR 39]))"

abbreviation rec_get :: "py_record \<Rightarrow> string \<Rightarrow> pyval \<Rightarrow> pyval" where
  "rec_get \<equiv> dict_get_default"

text \<open>\<open>output = dict(record); output.update(kvs)\<close>\<close>

definition rec_update :: "py_record \<Rightarrow> (string \<times> pyval) list \<Rightarrow> py_record" where
  "rec_update r kvs = dict_of kvs r"

definition opt_float :: "real option \<Rightarrow> pyval" where
  "opt_float x = (case x of None \<Rightarrow> PNone | Some r \<Rightarrow> PFloat r)"

text \<open>A counter in a state dictionary is read back as an \<open>int\<close>; the model keeps counters as \<open>int\<close>.\<close>

lemma py_float_numbers: "py_float (PFloat r) = Inr r" "py_float (PInt i) = Inr (of_int i)"
  by simp_all

lemma rec_update_get:
  "distinct (map fst kvs) \<Longrightarrow>
   map_of (rec_update r kvs) k = (case map_of kvs k of Some v \<Rightarrow> Some v | None \<Rightarrow> map_of r k)"
proof -
  assume d: "distinct (map fst kvs)"
  have "map_of (rev kvs) = map_of kvs"
  proof (rule map_of_eqI)
    show "set (map fst (rev kvs)) = set (map fst kvs)" by simp
    show "\<forall>k \<in> set (map fst (rev kvs)). map_of (rev kvs) k = map_of kvs k"
    proof
      fix k assume "k \<in> set (map fst (rev kvs))"
      then obtain v where v: "(k, v) \<in> set kvs" by auto
      have "distinct (map fst (rev kvs))" using d by (simp add: rev_map [symmetric])
      with v d show "map_of (rev kvs) k = map_of kvs k" by simp
    qed
  qed
  then show ?thesis by (simp add: rec_update_def map_of_dict_of)
qed

lemma wf_rec_update: "wf_dict r \<Longrightarrow> wf_dict (rec_update r kvs)"
  by (simp add: rec_update_def wf_dict_dict_of)

end
