(* ===== verification/Numerics.thy ===== *)
theory Numerics
  imports Prelude "HOL-Library.Multiset"
begin

text \<open>
  The numerical routines that several components share: the nearest-rank percentile, exponentially
  weighted averages, and the running mean and sum of squares after Welford.
\<close>

section \<open>Nearest-rank percentile\<close>

text \<open>
  The index \<open>min(n - 1, max(0, math.ceil(n * 0.95) - 1))\<close> of the 95th percentile in a sorted list of \<open>n\<close>
  elements.  The product is exact here; in floats it is rounded, but to the same ceiling: where \<open>19n/20\<close>
  is an integer the rounding error of the product is below half a unit in the last place.
\<close>

definition p95_index :: "nat \<Rightarrow> nat" where
  "p95_index n = min (n - 1) (nat (max 0 (\<lceil>of_nat n * (95/100 :: real)\<rceil> - 1)))"

definition p95 :: "real list \<Rightarrow> real" where
  "p95 xs = sort xs ! p95_index (length xs)"

lemma p95_index_eq: "p95_index n = (19 * n + 19) div 20 - 1"
proof -
  have c: "\<lceil>of_nat n * (95/100 :: real)\<rceil> = int ((19 * n + 19) div 20)"
  proof (rule ceiling_unique)
    let ?q = "(19 * n + 19) div 20"
    have "20 * ?q \<le> 19 * n + 19" "19 * n + 19 < 20 * ?q + 20" by (simp_all add: dividend_less_times_div)
    then have "20 * real ?q \<le> 19 * real n + 19" "19 * real n < 20 * real ?q + 1" by linarith+
    then show "real_of_int (int ?q) - 1 < real n * (95/100)" "real n * (95/100) \<le> real_of_int (int ?q)"
      by simp_all
  qed
  show ?thesis
  proof (cases "n = 0")
    case False
    then have "1 \<le> (19 * n + 19) div 20" "(19 * n + 19) div 20 \<le> n" by linarith+
    then show ?thesis unfolding p95_index_def c by simp
  qed (simp add: p95_index_def)
qed

lemma p95_index_less: "0 < n \<Longrightarrow> p95_index n < n"
  unfolding p95_index_eq by linarith

lemma index_bound: "0 < n \<Longrightarrow> 20 * p95_index n < 19 * n"
proof -
  assume "0 < n"
  moreover have "20 * ((19 * n + 19) div 20) \<le> 19 * n + 19" by simp
  ultimately show ?thesis unfolding p95_index_eq by linarith
qed

lemma sorted_count_le:
  assumes "sorted ys" "i < length ys"
  shows "Suc i \<le> length (filter (\<lambda>y. y \<le> ys ! i) ys)"
proof -
  have "filter (\<lambda>y. y \<le> ys ! i) (take (Suc i) ys) = take (Suc i) ys"
    using assms by (auto simp: filter_id_conv in_set_conv_nth sorted_nth_mono)
  moreover have "length (filter (\<lambda>y. y \<le> ys ! i) ys) =
      length (filter (\<lambda>y. y \<le> ys ! i) (take (Suc i) ys)) + length (filter (\<lambda>y. y \<le> ys ! i) (drop (Suc i) ys))"
    by (metis append_take_drop_id filter_append length_append)
  ultimately show ?thesis using assms(2) by simp
qed

lemma sorted_count_less:
  assumes "sorted ys" "i < length ys"
  shows "length (filter (\<lambda>y. y < ys ! i) ys) \<le> i"
proof -
  have "filter (\<lambda>y. y < ys ! i) (drop i ys) = []"
    using assms by (auto simp: filter_empty_conv in_set_conv_nth not_less sorted_nth_mono)
  moreover have "filter (\<lambda>y. y < ys ! i) ys =
      filter (\<lambda>y. y < ys ! i) (take i ys) @ filter (\<lambda>y. y < ys ! i) (drop i ys)"
    by (metis append_take_drop_id filter_append)
  ultimately have "length (filter (\<lambda>y. y < ys ! i) ys) \<le> length (take i ys)"
    by (metis append_Nil2 length_filter_le)
  then show ?thesis by simp
qed

lemma length_filter_sort: "length (filter P (sort xs)) = length (filter P xs)"
  by (metis mset_filter mset_sort size_mset)

text \<open>The percentile is an element with at least 95 of 100 at or below it, and it is the least such.\<close>

lemma p95_rank:
  assumes "xs \<noteq> []"
  shows "p95 xs \<in> set xs"
    and "19 * length xs \<le> 20 * length (filter (\<lambda>x. x \<le> p95 xs) xs)"
    and "20 * length (filter (\<lambda>x. x < p95 xs) xs) < 19 * length xs"
proof -
  let ?ys = "sort xs" and ?i = "p95_index (length xs)"
  have i: "?i < length ?ys" using p95_index_less assms by simp
  show "p95 xs \<in> set xs" using nth_mem [OF i] by (simp add: p95_def)
  have "Suc ?i \<le> length (filter (\<lambda>x. x \<le> p95 xs) xs)"
    using sorted_count_le [OF sorted_sort i] by (simp add: p95_def length_filter_sort)
  then show "19 * length xs \<le> 20 * length (filter (\<lambda>x. x \<le> p95 xs) xs)"
    unfolding p95_index_eq by linarith
  have "length (filter (\<lambda>x. x < p95 xs) xs) \<le> ?i"
    using sorted_count_less [OF sorted_sort i] by (simp add: p95_def length_filter_sort)
  then show "20 * length (filter (\<lambda>x. x < p95 xs) xs) < 19 * length xs"
    using index_bound assms by (metis le_less_trans length_greater_0_conv mult_le_mono2)
qed

section \<open>Exponentially weighted averages\<close>

definition ewma :: "real \<Rightarrow> real \<Rightarrow> real \<Rightarrow> real" where
  "ewma alpha avg x = (1 - alpha) * avg + alpha * x"

lemma ewma_bounds:
  assumes "0 \<le> alpha" "alpha \<le> 1" "lo \<le> avg" "avg \<le> hi" "lo \<le> x" "x \<le> hi"
  shows "lo \<le> ewma alpha avg x" "ewma alpha avg x \<le> hi"
proof -
  have "(1 - alpha) * lo \<le> (1 - alpha) * avg" "alpha * lo \<le> alpha * x"
    "(1 - alpha) * avg \<le> (1 - alpha) * hi" "alpha * x \<le> alpha * hi"
    using assms by (auto intro: mult_left_mono)
  then show "lo \<le> ewma alpha avg x" "ewma alpha avg x \<le> hi"
    by (simp_all add: ewma_def algebra_simps)
qed

section \<open>Running mean and sum of squares\<close>

definition mean_of :: "real list \<Rightarrow> real" where
  "mean_of xs = sum_list xs / of_nat (length xs)"

definition sq_dev :: "real list \<Rightarrow> real" where
  "sq_dev xs = sum_list (map (\<lambda>x. (x - mean_of xs)\<^sup>2) xs)"

lemma sq_dev_eq: "xs \<noteq> [] \<Longrightarrow> sq_dev xs = sum_list (map (\<lambda>x. x\<^sup>2) xs) - of_nat (length xs) * (mean_of xs)\<^sup>2"
proof -
  assume ne: "xs \<noteq> []"
  have gen: "sum_list (map (\<lambda>x. (x - m)\<^sup>2) ys) =
      sum_list (map (\<lambda>x. x\<^sup>2) ys) - 2 * m * sum_list ys + of_nat (length ys) * m\<^sup>2"
    for m :: real and ys by (induction ys) (auto simp: power2_eq_square algebra_simps)
  have s: "sum_list xs = of_nat (length xs) * mean_of xs" using ne by (simp add: mean_of_def)
  show ?thesis unfolding sq_dev_def gen s by (simp add: power2_eq_square algebra_simps)
qed

text \<open>One step of Welford: the new mean, and what it adds to the sum of squared deviations.\<close>

lemma welford_mean:
  "mean_of (xs @ [x]) = mean_of xs + (x - mean_of xs) / of_nat (Suc (length xs))"
proof (cases "xs = []")
  case False
  then have n: "0 < real (length xs)" by simp
  have s: "sum_list xs = of_nat (length xs) * mean_of xs" using False by (simp add: mean_of_def)
  have "mean_of (xs @ [x]) = (of_nat (length xs) * mean_of xs + x) / (1 + of_nat (length xs))"
    using s by (simp add: mean_of_def [of "xs @ [x]"])
  also have "\<dots> = mean_of xs + (x - mean_of xs) / of_nat (Suc (length xs))"
    using n by (simp add: divide_simps) (simp add: algebra_simps)
  finally show ?thesis .
qed (simp add: mean_of_def)

lemma welford_sq:
  "sq_dev (xs @ [x]) = sq_dev xs + (x - mean_of xs) * (x - mean_of (xs @ [x]))"
proof (cases "xs = []")
  case True
  then show ?thesis by (simp add: sq_dev_def mean_of_def)
next
  case False
  define n where "n = real (length xs)"
  define m where "m = mean_of xs"
  define d where "d = (x - m) / (n + 1)"
  have n: "0 < n" using False by (simp add: n_def)
  have m': "mean_of (xs @ [x]) = m + d"
    unfolding welford_mean m_def d_def n_def by (simp add: add.commute)
  have x: "x = m + (n + 1) * d" using n by (simp add: d_def)
  have "sq_dev (xs @ [x]) = sum_list (map (\<lambda>x. x\<^sup>2) xs) + x\<^sup>2 - (n + 1) * (m + d)\<^sup>2"
    using sq_dev_eq [of "xs @ [x]"] m' by (simp add: n_def add.commute)
  moreover have "sq_dev xs = sum_list (map (\<lambda>x. x\<^sup>2) xs) - n * m\<^sup>2"
    using sq_dev_eq [OF False] by (simp add: n_def m_def)
  moreover have "x\<^sup>2 - (n + 1) * (m + d)\<^sup>2 + n * m\<^sup>2 = (x - m) * (x - (m + d))"
    unfolding x by (simp add: power2_eq_square algebra_simps)
  ultimately show ?thesis unfolding m' m_def [symmetric] by linarith
qed

lemma sq_dev_nonneg: "0 \<le> sq_dev xs"
  unfolding sq_dev_def by (rule sum_list_nonneg) auto

text \<open>\<open>statistics.stdev\<close>: the sample standard deviation.\<close>

definition stdev_of :: "real list \<Rightarrow> real" where
  "stdev_of xs = sqrt (sq_dev xs / (of_nat (length xs) - 1))"

end
