(* ===== verification/Dag.thy ===== *)
theory Dag
  imports Pyval "HOL-Library.Multiset"
begin

text \<open>
  The operator graph of \<open>hybridstream-common/hybridstream/common/dag_model.py\<close>: operators with their
  latency class, dependencies between them, and Kahn's algorithm for a topological order.  The
  lemmas show that the loop terminates, that an order it returns is a topological order of the whole
  graph, and exactly on which graphs it raises.
\<close>

section \<open>Data model\<close>

datatype LambdaClass = CRITICAL | STANDARD | BATCH

fun lambda_value :: "LambdaClass \<Rightarrow> string" where
  "lambda_value CRITICAL = ''critical''"
| "lambda_value STANDARD = ''standard''"
| "lambda_value BATCH = ''batch''"

text \<open>The enum constructor \<open>LambdaClass(value)\<close>.\<close>

definition LambdaClass_of :: "string \<Rightarrow> LambdaClass res" where
  "LambdaClass_of s =
     (if s = ''critical'' then Inr CRITICAL
      else if s = ''standard'' then Inr STANDARD
      else if s = ''batch'' then Inr BATCH
      else Inl (ValueError (CHR 39 # s @ CHR 39 # '' is not a valid LambdaClass'')))"

record OperatorNode =
  operator_id :: string
  operator_type :: string
  lambda_class :: LambdaClass
  slo_ms :: "real option"
  parallelism :: int
  extra_config :: py_record

record Dependency =
  upstream_id :: string
  downstream_id :: string

record OperatorDAG =
  operators :: "OperatorNode list"
  dependencies :: "Dependency list"

definition upstream_ids :: "OperatorDAG \<Rightarrow> string \<Rightarrow> string list" where
  "upstream_ids dag oid =
     map upstream_id (filter (\<lambda>d. downstream_id d = oid) (dependencies dag))"

definition downstream_ids :: "OperatorDAG \<Rightarrow> string \<Rightarrow> string list" where
  "downstream_ids dag oid =
     map downstream_id (filter (\<lambda>d. upstream_id d = oid) (dependencies dag))"

section \<open>Kahn's algorithm\<close>

definition in_degree_init :: "OperatorDAG \<Rightarrow> (string, int) dict" where
  "in_degree_init dag = dict_of (map (\<lambda>op. (operator_id op, 0)) (operators dag)) []"

text \<open>The loop \<open>in_degree[dep.downstream_id] += 1\<close>: an unknown identifier is a \<open>KeyError\<close>.\<close>

fun count_edges :: "Dependency list \<Rightarrow> (string, int) dict \<Rightarrow> (string, int) dict res" where
  "count_edges [] deg = Inr deg"
| "count_edges (dep # deps) deg =
     (case dict_get deg (downstream_id dep) of
        None \<Rightarrow> Inl (KeyError (downstream_id dep))
      | Some n \<Rightarrow> count_edges deps (dict_set (downstream_id dep) (n + 1) deg))"

text \<open>The inner loop over the successors of a node: decrement, and enqueue at zero.\<close>

fun relax :: "string list \<Rightarrow> (string, int) dict \<Rightarrow> string list \<Rightarrow>
    ((string, int) dict \<times> string list) res" where
  "relax [] deg queue = Inr (deg, queue)"
| "relax (v # vs) deg queue =
     (case dict_get deg v of
        None \<Rightarrow> Inl (KeyError v)
      | Some n \<Rightarrow>
          relax vs (dict_set v (n - 1) deg) (if n - 1 = 0 then queue @ [v] else queue))"

definition kahn_weight :: "(string, int) dict \<Rightarrow> nat" where
  "kahn_weight deg = sum_list (map (\<lambda>p. nat (snd p)) deg)"

lemma kahn_weight_set:
  "map_of deg v = Some n \<Longrightarrow> kahn_weight (AList.update v m deg) + nat n = kahn_weight deg + nat m"
  by (induction deg) (auto simp: kahn_weight_def split: if_splits)

lemma relax_weight:
  "relax vs deg q = Inr (deg', q') \<Longrightarrow>
     kahn_weight deg' + length q' \<le> kahn_weight deg + length q"
proof (induction vs deg q rule: relax.induct)
  case (2 v vs deg q)
  then obtain n where n: "map_of deg v = Some n"
    by (auto split: option.splits)
  have w: "kahn_weight (AList.update v (n - 1) deg) + nat n = kahn_weight deg + nat (n - 1)"
    by (rule kahn_weight_set [OF n])
  show ?case
  proof (cases "n - 1 = 0")
    case True
    with "2.IH" [OF n] "2.prems" n w show ?thesis by auto
  next
    case False
    with "2.IH" [OF n] "2.prems" n w show ?thesis by auto
  qed
qed simp

text \<open>The outer loop \<open>while queue\<close>.\<close>

function kahn :: "OperatorDAG \<Rightarrow> (string, int) dict \<Rightarrow> string list \<Rightarrow> string list \<Rightarrow>
    string list res" where
  "kahn dag deg [] order = Inr order"
| "kahn dag deg (node # queue) order =
     (case relax (downstream_ids dag node) deg queue of
        Inl e \<Rightarrow> Inl e
      | Inr (deg', queue') \<Rightarrow> kahn dag deg' queue' (order @ [node]))"
  by pat_completeness auto
termination
  by (relation "measure (\<lambda>(dag, deg, queue, order). kahn_weight deg + length queue)")
     (auto dest: relax_weight)

text \<open>The message of the \<open>ValueError\<close> has an em dash, three bytes in UTF-8.\<close>

definition em_dash :: string where
  "em_dash = map char_of [226, 128, 148 :: nat]"

definition topological_order :: "OperatorDAG \<Rightarrow> string list res" where
  "topological_order dag =
     bind_res (count_edges (dependencies dag) (in_degree_init dag)) (\<lambda>deg.
     bind_res (kahn dag deg (map fst (filter (\<lambda>p. snd p = 0) deg)) []) (\<lambda>order.
       if length order \<noteq> length (operators dag)
       then Inl (ValueError (''DAG has a cycle '' @ em_dash @ '' topological sort failed.''))
       else Inr order))"

section \<open>Specification\<close>

definition node_ids :: "OperatorDAG \<Rightarrow> string list" where
  "node_ids dag = map operator_id (operators dag)"

definition edge_rel :: "OperatorDAG \<Rightarrow> (string \<times> string) set" where
  "edge_rel dag = (\<lambda>d. (upstream_id d, downstream_id d)) ` set (dependencies dag)"

text \<open>\<open>u\<close> occurs before an occurrence of \<open>v\<close>.\<close>

fun precedes :: "'a list \<Rightarrow> 'a \<Rightarrow> 'a \<Rightarrow> bool" where
  "precedes [] u v = False"
| "precedes (x # xs) u v = (if x = u then v \<in> set xs else precedes xs u v)"

lemma precedes_append_left: "precedes xs u v \<Longrightarrow> precedes (xs @ ys) u v"
  by (induction xs) auto

lemma precedes_snoc: "u \<in> set xs \<Longrightarrow> precedes (xs @ [v]) u v"
  by (induction xs) auto

lemma precedes_in: "precedes xs u v \<Longrightarrow> u \<in> set xs \<and> v \<in> set xs"
  by (induction xs) (auto split: if_splits)

lemma precedes_nth:
  assumes "precedes xs u v"
  obtains i j where "i < j" "j < length xs" "xs ! i = u" "xs ! j = v"
proof -
  have "\<exists>i j. i < j \<and> j < length xs \<and> xs ! i = u \<and> xs ! j = v"
    using assms
  proof (induction xs)
    case (Cons x xs)
    show ?case
    proof (cases "x = u")
      case True
      with Cons.prems obtain j where "j < length xs" "xs ! j = v"
        by (auto simp: in_set_conv_nth)
      with True show ?thesis by (intro exI [of _ 0] exI [of _ "Suc j"]) simp
    next
      case False
      with Cons obtain i j where "i < j \<and> j < length xs \<and> xs ! i = u \<and> xs ! j = v" by auto
      then show ?thesis by (intro exI [of _ "Suc i"] exI [of _ "Suc j"]) simp
    qed
  qed simp
  then show ?thesis using that by blast
qed

definition is_topological_order :: "OperatorDAG \<Rightarrow> string list \<Rightarrow> bool" where
  "is_topological_order dag order \<longleftrightarrow>
     distinct order \<and> mset order = mset (node_ids dag) \<and>
     list_all (\<lambda>d. precedes order (upstream_id d) (downstream_id d)) (dependencies dag)"

definition well_formed_dag :: "OperatorDAG \<Rightarrow> bool" where
  "well_formed_dag dag \<longleftrightarrow>
     distinct (node_ids dag) \<and>
     (\<forall>d \<in> set (dependencies dag).
        upstream_id d \<in> set (node_ids dag) \<and> downstream_id d \<in> set (node_ids dag))"

section \<open>The loop invariant\<close>

text \<open>Edges into \<open>v\<close> from nodes that are not yet in the order.\<close>

definition pending :: "OperatorDAG \<Rightarrow> string set \<Rightarrow> string \<Rightarrow> nat" where
  "pending dag S v =
     length (filter (\<lambda>d. downstream_id d = v \<and> upstream_id d \<notin> S) (dependencies dag))"

lemma pending_zero_iff:
  "pending dag S v = 0 \<longleftrightarrow>
     (\<forall>d \<in> set (dependencies dag). downstream_id d = v \<longrightarrow> upstream_id d \<in> S)"
  by (auto simp: pending_def filter_empty_conv)

lemma pending_insert:
  assumes "node \<notin> S"
  shows "pending dag S v = pending dag (insert node S) v + count_list (downstream_ids dag node) v"
proof -
  have "length (filter (\<lambda>d. downstream_id d = v \<and> upstream_id d \<notin> S) ds) =
      length (filter (\<lambda>d. downstream_id d = v \<and> upstream_id d \<notin> insert node S) ds) +
      count_list (map downstream_id (filter (\<lambda>d. upstream_id d = node) ds)) v" for ds
    using assms by (induction ds) auto
  then show ?thesis by (simp add: pending_def downstream_ids_def)
qed

lemma relax_spec:
  assumes "\<forall>v \<in> set vs. \<exists>n. map_of deg v = Some n \<and> int (count_list vs v) \<le> n"
  shows "\<exists>deg' zs. relax vs deg q = Inr (deg', q @ zs) \<and> distinct zs \<and>
     (\<forall>v. map_of deg' v = map_option (\<lambda>n. n - int (count_list vs v)) (map_of deg v)) \<and>
     set zs = {v \<in> set vs. map_of deg v = Some (int (count_list vs v))}"
  using assms
proof (induction vs arbitrary: deg q)
  case Nil
  then show ?case by (simp add: option.map_ident)
next
  case (Cons v vs)
  from Cons.prems obtain n where n: "map_of deg v = Some n" and le: "int (count_list vs v) + 1 \<le> n"
    by fastforce
  let ?deg = "AList.update v (n - 1) deg"
  let ?q = "if n - 1 = 0 then q @ [v] else q"
  have "\<exists>m. map_of ?deg w = Some m \<and> int (count_list vs w) \<le> m" if w: "w \<in> set vs" for w
  proof (cases "w = v")
    case True
    with le show ?thesis by (simp add: dict_simps)
  next
    case False
    with bspec [OF Cons.prems, of w] w show ?thesis by (auto simp: dict_simps)
  qed
  then have "\<forall>w \<in> set vs. \<exists>m. map_of ?deg w = Some m \<and> int (count_list vs w) \<le> m"
    by blast
  from Cons.IH [OF this, of ?q] obtain deg' zs where
    r: "relax vs ?deg ?q = Inr (deg', ?q @ zs)" and d: "distinct zs" and
    m: "\<forall>w. map_of deg' w = map_option (\<lambda>n. n - int (count_list vs w)) (map_of ?deg w)" and
    s: "set zs = {w \<in> set vs. map_of ?deg w = Some (int (count_list vs w))}"
    by blast
  have vin: "v \<in> set vs \<Longrightarrow> 0 < count_list vs v"
    by (metis count_list_0_iff neq0_conv)
  have m': "map_of deg' w =
      map_option (\<lambda>n. n - int (count_list (v # vs) w)) (map_of deg w)" for w
    using m n by (simp add: dict_simps)
  show ?case
  proof (cases "n - 1 = 0")
    case True
    with le vin have v: "v \<notin> set vs" by force
    have zs: "w \<in> set zs \<longleftrightarrow> w \<in> set vs \<and> map_of deg w = Some (int (count_list vs w))" for w
      using v s by (auto simp: dict_simps split: if_splits)
    have n1: "map_of deg v = Some (int (count_list (v # vs) v))"
      using n True v by simp
    have "w \<in> set (v # zs) \<longleftrightarrow>
        w \<in> set (v # vs) \<and> map_of deg w = Some (int (count_list (v # vs) w))" for w
      using zs [of w] n1 v by (cases "w = v") simp_all
    then have "set (v # zs) =
        {w \<in> set (v # vs). map_of deg w = Some (int (count_list (v # vs) w))}"
      by blast
    moreover have "distinct (v # zs)" using d v zs by simp
    moreover have "relax (v # vs) deg q = Inr (deg', q @ (v # zs))"
      using n r True by simp
    ultimately show ?thesis using m' by blast
  next
    case False
    have sw: "w \<in> set zs \<longleftrightarrow> w \<in> set vs \<and> map_of ?deg w = Some (int (count_list vs w))" for w
      unfolding s by simp
    have "v \<in> set vs" if "n = 1 + int (count_list vs v)"
      using False that by (metis add_diff_cancel_left' count_notin of_nat_0)
    then have v: "v \<in> set zs \<longleftrightarrow> map_of deg v = Some (int (count_list (v # vs) v))"
      unfolding sw using n by (auto simp: dict_simps)
    have "w \<in> set zs \<longleftrightarrow>
        w \<in> set (v # vs) \<and> map_of deg w = Some (int (count_list (v # vs) w))" for w
      using v by (cases "w = v") (simp_all add: sw dict_simps)
    then have "set zs = {w \<in> set (v # vs). map_of deg w = Some (int (count_list (v # vs) w))}"
      by blast
    moreover have "relax (v # vs) deg q = Inr (deg', q @ zs)"
      using n r False by simp
    ultimately show ?thesis using m' d by blast
  qed
qed

definition kahn_inv :: "OperatorDAG \<Rightarrow> (string, int) dict \<Rightarrow> string list \<Rightarrow> string list \<Rightarrow> bool" where
  "kahn_inv dag deg queue order \<longleftrightarrow>
     distinct (order @ queue) \<and>
     (\<forall>v. map_of deg v =
        (if v \<in> set (node_ids dag) then Some (int (pending dag (set order) v)) else None)) \<and>
     set (order @ queue) = {v \<in> set (node_ids dag). pending dag (set order) v = 0} \<and>
     (\<forall>d \<in> set (dependencies dag). downstream_id d \<in> set order \<longrightarrow>
        precedes order (upstream_id d) (downstream_id d))"

lemma kahn_invD:
  assumes "kahn_inv dag deg queue order"
  shows "distinct (order @ queue)"
    and "map_of deg v =
      (if v \<in> set (node_ids dag) then Some (int (pending dag (set order) v)) else None)"
    and "set (order @ queue) = {v \<in> set (node_ids dag). pending dag (set order) v = 0}"
    and "d \<in> set (dependencies dag) \<Longrightarrow> downstream_id d \<in> set order \<Longrightarrow>
      precedes order (upstream_id d) (downstream_id d)"
  using assms unfolding kahn_inv_def by auto

text \<open>One iteration of the outer loop never raises and keeps the invariant.\<close>

lemma kahn_inv_step:
  assumes inv: "kahn_inv dag deg (node # queue) order"
    and known: "\<forall>d \<in> set (dependencies dag). downstream_id d \<in> set (node_ids dag)"
  shows "\<exists>deg' queue'. relax (downstream_ids dag node) deg queue = Inr (deg', queue') \<and>
     kahn_inv dag deg' queue' (order @ [node])"
proof -
  let ?vs = "downstream_ids dag node"
  let ?S = "set order"
  note [simp] = kahn_invD(2) [OF inv]
  have dist: "distinct (order @ node # queue)"
    and front: "set (order @ node # queue) = {v \<in> set (node_ids dag). pending dag ?S v = 0}"
    by (rule kahn_invD [OF inv])+
  have fresh: "node \<notin> ?S" and node: "node \<in> set (node_ids dag)" "pending dag ?S node = 0"
    using dist front by auto
  have vs_known: "\<forall>v \<in> set ?vs. v \<in> set (node_ids dag)"
    using known by (auto simp: downstream_ids_def)
  have split: "pending dag ?S v = pending dag (insert node ?S) v + count_list ?vs v" for v
    by (rule pending_insert [OF fresh])
  have "\<forall>v \<in> set ?vs. \<exists>n. map_of deg v = Some n \<and> int (count_list ?vs v) \<le> n"
    using vs_known split by simp
  from relax_spec [OF this, of queue] obtain deg' zs where
    r: "relax ?vs deg queue = Inr (deg', queue @ zs)" and dz: "distinct zs" and
    m: "\<forall>v. map_of deg' v = map_option (\<lambda>n. n - int (count_list ?vs v)) (map_of deg v)" and
    zs: "set zs = {v \<in> set ?vs. map_of deg v = Some (int (count_list ?vs v))}"
    by blast
  have zs': "set zs = {v \<in> set ?vs. pending dag (insert node ?S) v = 0}"
    using zs vs_known split by auto
  have pos: "pending dag ?S v \<noteq> 0" if "v \<in> set ?vs" for v
    using that split [of v] count_list_0_iff [of ?vs v] by linarith
  have "kahn_inv dag deg' (queue @ zs) (order @ [node])"
    unfolding kahn_inv_def
  proof (intro conjI allI ballI impI)
    have "set zs \<inter> set (order @ node # queue) = {}"
      using pos front zs' by blast
    then show "distinct ((order @ [node]) @ queue @ zs)"
      using dist dz by auto
    show "map_of deg' v = (if v \<in> set (node_ids dag)
        then Some (int (pending dag (set (order @ [node])) v)) else None)" for v
      using m split [of v] by simp
    have "{v \<in> set (node_ids dag). pending dag (insert node ?S) v = 0} =
        {v \<in> set (node_ids dag). pending dag ?S v = 0} \<union> set zs"
      using split zs' vs_known count_list_0_iff [of ?vs] by auto
    with front show "set ((order @ [node]) @ queue @ zs) =
        {v \<in> set (node_ids dag). pending dag (set (order @ [node])) v = 0}"
      by auto
  next
    fix d assume d: "d \<in> set (dependencies dag)" and t: "downstream_id d \<in> set (order @ [node])"
    show "precedes (order @ [node]) (upstream_id d) (downstream_id d)"
    proof (cases "downstream_id d \<in> ?S")
      case True
      then show ?thesis by (intro precedes_append_left kahn_invD(4) [OF inv d])
    next
      case False
      with t have "downstream_id d = node" by simp
      with d node(2) have "upstream_id d \<in> ?S" by (simp add: pending_zero_iff)
      then show ?thesis using \<open>downstream_id d = node\<close> by (simp add: precedes_snoc)
    qed
  qed
  with r show ?thesis by blast
qed

lemma kahn_total:
  assumes "kahn_inv dag deg queue order"
    and "\<forall>d \<in> set (dependencies dag). downstream_id d \<in> set (node_ids dag)"
  shows "\<exists>order' deg'. kahn dag deg queue order = Inr order' \<and> kahn_inv dag deg' [] order'"
  using assms
proof (induction dag deg queue order rule: kahn.induct)
  case (1 dag deg order)
  then show ?case by auto
next
  case (2 dag deg node queue order)
  from kahn_inv_step [OF "2.prems"] obtain deg' queue' where
    r: "relax (downstream_ids dag node) deg queue = Inr (deg', queue')"
    and i: "kahn_inv dag deg' queue' (order @ [node])"
    by blast
  from "2.IH" [OF r refl i "2.prems"(2)] r show ?case by simp
qed

lemma count_edges_ok:
  assumes "\<forall>d \<in> set deps. downstream_id d \<in> fst ` set deg"
  shows "\<exists>deg'. count_edges deps deg = Inr deg' \<and> map fst deg' = map fst deg \<and>
     (\<forall>v. map_of deg' v = map_option
        (\<lambda>n. n + int (length (filter (\<lambda>d. downstream_id d = v) deps))) (map_of deg v))"
  using assms
proof (induction deps arbitrary: deg)
  case Nil
  then show ?case by (simp add: option.map_ident)
next
  case (Cons dep deps)
  then obtain n where n: "map_of deg (downstream_id dep) = Some n"
    by (metis list.set_intros(1) map_of_eq_None_iff not_None_eq)
  let ?deg = "AList.update (downstream_id dep) (n + 1) deg"
  have keys: "map fst ?deg = map fst deg"
    using Cons.prems by (simp add: dict_simps)
  then have "\<forall>d \<in> set deps. downstream_id d \<in> fst ` set ?deg"
    using Cons.prems by (metis list.set_intros(2) list.set_map)
  from Cons.IH [OF this] obtain deg' where
    "count_edges deps ?deg = Inr deg'" "map fst deg' = map fst ?deg"
    "\<forall>v. map_of deg' v = map_option
        (\<lambda>n. n + int (length (filter (\<lambda>d. downstream_id d = v) deps))) (map_of ?deg v)"
    by blast
  with n keys show ?case by (auto simp: dict_simps)
qed

lemma count_edges_unknown:
  assumes "d \<in> set deps" "downstream_id d \<notin> fst ` set deg"
  shows "\<exists>k. count_edges deps deg = Inl (KeyError k) \<and> k \<notin> fst ` set deg"
  using assms
proof (induction deps arbitrary: deg)
  case (Cons dep deps)
  show ?case
  proof (cases "map_of deg (downstream_id dep)")
    case None
    then have "downstream_id dep \<notin> fst ` set deg" by (simp add: map_of_eq_None_iff)
    with None show ?thesis by simp
  next
    case (Some n)
    then have in_deg: "downstream_id dep \<in> fst ` set deg" by (metis domI dom_map_of_conv_image_fst)
    let ?deg = "AList.update (downstream_id dep) (n + 1) deg"
    have keys: "fst ` set ?deg = fst ` set deg"
      using in_deg by (auto simp: dom_update)
    have "d \<in> set deps" using Cons.prems in_deg by auto
    then obtain k where "count_edges deps ?deg = Inl (KeyError k)" "k \<notin> fst ` set ?deg"
      using Cons.IH [of ?deg] Cons.prems(2) keys by auto
    then show ?thesis using Some keys by auto
  qed
qed simp

lemma map_of_rev_zero:
  "map_of (rev (map (\<lambda>op. (operator_id op, 0 :: int)) ops)) v =
     (if v \<in> operator_id ` set ops then Some 0 else None)"
proof (cases "v \<in> operator_id ` set ops")
  case True
  then obtain x where x: "map_of (rev (map (\<lambda>op. (operator_id op, 0 :: int)) ops)) v = Some x"
    by (fastforce simp: map_of_eq_None_iff image_iff intro: not_None_eq [THEN iffD1])
  with map_of_SomeD [OF x] show ?thesis using True by auto
next
  case False
  then show ?thesis by (auto simp: map_of_eq_None_iff image_iff)
qed

lemma in_degree_init_get:
  "map_of (in_degree_init dag) v = (if v \<in> set (node_ids dag) then Some 0 else None)"
  by (simp add: in_degree_init_def dict_simps map_of_rev_zero node_ids_def split: option.splits)

lemma in_degree_init_keys: "fst ` set (in_degree_init dag) = set (node_ids dag)"
  by (auto simp: dom_map_of_conv_image_fst [symmetric] dom_def in_degree_init_get)

lemma wf_in_degree_init: "wf_dict (in_degree_init dag)"
  by (simp add: in_degree_init_def wf_dict_dict_of)

lemma kahn_inv_init:
  assumes known: "\<forall>d \<in> set (dependencies dag). downstream_id d \<in> set (node_ids dag)"
  shows "\<exists>deg. count_edges (dependencies dag) (in_degree_init dag) = Inr deg \<and>
     kahn_inv dag deg (map fst (filter (\<lambda>p. snd p = 0) deg)) []"
proof -
  obtain deg where
    c: "count_edges (dependencies dag) (in_degree_init dag) = Inr deg" and
    keys: "map fst deg = map fst (in_degree_init dag)" and
    get: "\<forall>v. map_of deg v = map_option
        (\<lambda>n. n + int (length (filter (\<lambda>d. downstream_id d = v) (dependencies dag))))
        (map_of (in_degree_init dag) v)"
    using count_edges_ok [of "dependencies dag" "in_degree_init dag"] known in_degree_init_keys
    by metis
  have wf: "wf_dict deg"
    using wf_in_degree_init keys by (simp add: wf_dict_def)
  have get': "map_of deg v =
      (if v \<in> set (node_ids dag) then Some (int (pending dag {} v)) else None)" for v
    using get by (simp add: in_degree_init_get pending_def)
  have "v \<in> set (map fst (filter (\<lambda>p. snd p = 0) deg)) \<longleftrightarrow> map_of deg v = Some 0" for v
    using wf by (auto simp: wf_dict_def image_iff)
  then have "v \<in> set (map fst (filter (\<lambda>p. snd p = 0) deg)) \<longleftrightarrow>
      v \<in> set (node_ids dag) \<and> pending dag {} v = 0" for v
    unfolding get' by simp
  then have front: "set (map fst (filter (\<lambda>p. snd p = 0) deg)) =
      {v \<in> set (node_ids dag). pending dag {} v = 0}"
    by blast
  have "distinct (map fst (filter (\<lambda>p. snd p = 0) deg))"
    using wf by (simp add: wf_dict_def distinct_map_filter)
  with front get' have "kahn_inv dag deg (map fst (filter (\<lambda>p. snd p = 0) deg)) []"
    unfolding kahn_inv_def by simp
  with c show ?thesis by blast
qed

text \<open>What the whole run computes: the final order holds exactly the nodes with no pending edge.\<close>

lemma topological_order_run:
  assumes known: "\<forall>d \<in> set (dependencies dag). downstream_id d \<in> set (node_ids dag)"
  obtains order deg where "kahn_inv dag deg [] order"
    and "topological_order dag =
      (if length order \<noteq> length (operators dag)
       then Inl (ValueError (''DAG has a cycle '' @ em_dash @ '' topological sort failed.''))
       else Inr order)"
proof -
  obtain deg where c: "count_edges (dependencies dag) (in_degree_init dag) = Inr deg"
    and i: "kahn_inv dag deg (map fst (filter (\<lambda>p. snd p = 0) deg)) []"
    using kahn_inv_init [OF known] by blast
  obtain order deg' where "kahn dag deg (map fst (filter (\<lambda>p. snd p = 0) deg)) [] = Inr order"
    and "kahn_inv dag deg' [] order"
    using kahn_total [OF i known] by blast
  then show ?thesis using c by (intro that [of deg' order]) (simp_all add: topological_order_def)
qed

lemma topological_order_known:
  assumes "topological_order dag = Inr order" "d \<in> set (dependencies dag)"
  shows "downstream_id d \<in> set (node_ids dag)"
proof (rule ccontr)
  assume "downstream_id d \<notin> set (node_ids dag)"
  then obtain k where "count_edges (dependencies dag) (in_degree_init dag) = Inl (KeyError k)"
    using count_edges_unknown assms(2) in_degree_init_keys by metis
  with assms(1) show False by (simp add: topological_order_def)
qed

lemma mset_eq_of_distinct:
  assumes "distinct xs" "set xs \<subseteq> set ys" "length xs = length ys"
  shows "mset xs = mset ys"
proof -
  have "card (set xs) = length ys" using assms by (simp add: distinct_card)
  moreover have "card (set xs) \<le> card (set ys)" using assms(2) by (simp add: card_mono)
  ultimately have "card (set ys) = length ys" and eq: "card (set xs) = card (set ys)"
    using card_length [of ys] by linarith+
  then have "distinct ys" by (simp add: card_distinct)
  moreover have "set xs = set ys" using assms(2) eq by (simp add: card_subset_eq)
  ultimately show ?thesis using assms(1) set_eq_iff_mset_eq_distinct by blast
qed

lemma acyclic_if_ordered:
  assumes "distinct order" "\<And>u v. (u, v) \<in> R \<Longrightarrow> precedes order u v"
  shows "acyclic R"
proof (rule acyclicI_order [where f = "\<lambda>u. length (dropWhile (\<lambda>x. x \<noteq> u) order)"])
  fix u v assume "(u, v) \<in> R"
  then have "precedes order u v" by (rule assms(2))
  with assms(1) show "length (dropWhile (\<lambda>x. x \<noteq> v) order) < length (dropWhile (\<lambda>x. x \<noteq> u) order)"
  proof (induction order)
    case (Cons x order)
    have "length (dropWhile (\<lambda>x. x \<noteq> v) order) < Suc (length order)"
      by (simp add: le_imp_less_Suc length_dropWhile_le)
    with Cons show ?case by (auto split: if_splits dest: precedes_in)
  qed simp
qed

text \<open>If the loop stops early, the nodes left over have no source, which needs a cycle.\<close>

lemma kahn_reaches_all:
  assumes inv: "kahn_inv dag deg [] order" and wf: "well_formed_dag dag"
    and acy: "acyclic (edge_rel dag)"
  shows "set order = set (node_ids dag)"
proof (rule ccontr)
  assume "set order \<noteq> set (node_ids dag)"
  with kahn_invD(3) [OF inv] obtain x where x: "x \<in> set (node_ids dag) - set order" by auto
  have "wf (edge_rel dag)"
    by (rule finite_acyclic_wf [OF _ acy]) (simp add: edge_rel_def)
  from wfE_min [OF this x] obtain v where v: "v \<in> set (node_ids dag) - set order"
    and least: "\<And>u. (u, v) \<in> edge_rel dag \<Longrightarrow> u \<notin> set (node_ids dag) - set order"
    by blast
  then have "pending dag (set order) v \<noteq> 0" using kahn_invD(3) [OF inv] by auto
  then obtain d where d: "d \<in> set (dependencies dag)" "downstream_id d = v"
    "upstream_id d \<notin> set order"
    by (auto simp: pending_zero_iff)
  then have "(upstream_id d, v) \<in> edge_rel dag" by (auto simp: edge_rel_def)
  with least d wf show False by (auto simp: well_formed_dag_def)
qed

lemma topological_order_is_topological:
  assumes "topological_order dag = Inr order"
  shows "is_topological_order dag order"
proof -
  have known: "\<forall>d \<in> set (dependencies dag). downstream_id d \<in> set (node_ids dag)"
    using topological_order_known [OF assms] by blast
  obtain order' deg where inv: "kahn_inv dag deg [] order'"
    and run: "topological_order dag =
      (if length order' \<noteq> length (operators dag)
       then Inl (ValueError (''DAG has a cycle '' @ em_dash @ '' topological sort failed.''))
       else Inr order')"
    using topological_order_run [OF known] by blast
  then have [simp]: "order' = order" and len: "length order = length (node_ids dag)"
    using assms by (auto simp: node_ids_def split: if_splits)
  have d: "distinct order" and sub: "set order \<subseteq> set (node_ids dag)"
    using kahn_invD(1,3) [OF inv] by auto
  have m: "mset order = mset (node_ids dag)"
    by (rule mset_eq_of_distinct [OF d sub len])
  then have "set order = set (node_ids dag)" by (metis set_mset_mset)
  then have "\<forall>e \<in> set (dependencies dag). precedes order (upstream_id e) (downstream_id e)"
    using kahn_invD(4) [OF inv] known by simp
  with d m show ?thesis by (simp add: is_topological_order_def list_all_iff)
qed

lemma topological_order_returns_iff:
  "(\<exists>order. topological_order dag = Inr order) \<longleftrightarrow> well_formed_dag dag \<and> acyclic (edge_rel dag)"
proof
  assume "\<exists>order. topological_order dag = Inr order"
  then obtain order where r: "topological_order dag = Inr order" ..
  have top: "is_topological_order dag order" by (rule topological_order_is_topological [OF r])
  then have d: "distinct order" and m: "mset order = mset (node_ids dag)" and
    pre: "\<forall>e \<in> set (dependencies dag). precedes order (upstream_id e) (downstream_id e)"
    by (simp_all add: is_topological_order_def list_all_iff)
  have s: "set order = set (node_ids dag)" using m by (metis set_mset_mset)
  have wf: "well_formed_dag dag"
    unfolding well_formed_dag_def
    using mset_eq_imp_distinct_iff [OF m] d pre s precedes_in by metis
  show "well_formed_dag dag \<and> acyclic (edge_rel dag)"
    using wf acyclic_if_ordered [OF d, of "edge_rel dag"] pre by (fastforce simp: edge_rel_def)
next
  assume a: "well_formed_dag dag \<and> acyclic (edge_rel dag)"
  then have known: "\<forall>d \<in> set (dependencies dag). downstream_id d \<in> set (node_ids dag)"
    by (simp add: well_formed_dag_def)
  from topological_order_run [OF known] obtain order deg where inv: "kahn_inv dag deg [] order"
    and run: "topological_order dag =
      (if length order \<noteq> length (operators dag)
       then Inl (ValueError (''DAG has a cycle '' @ em_dash @ '' topological sort failed.''))
       else Inr order)"
    by blast
  have "set order = set (node_ids dag)"
    by (rule kahn_reaches_all [OF inv]) (use a in auto)
  then have "length order = length (operators dag)"
    using kahn_invD(1) [OF inv] a
    by (metis append_Nil2 distinct_card length_map node_ids_def well_formed_dag_def)
  with run show "\<exists>order. topological_order dag = Inr order" by simp
qed

section \<open>Properties\<close>

text \<open>C1: An order that \<open>topological_order\<close> returns is a topological order of the whole graph: every
  operator occurs exactly once, and the source of every dependency comes before its target.\<close>

theorem topological_order_sound:
  assumes "topological_order dag = Inr order"
  shows "is_topological_order dag order"
  using assms by (rule topological_order_is_topological)

text \<open>C2: \<open>topological_order\<close> returns an order exactly on the graphs that have one to return: operator
  identifiers are unique, both ends of every dependency are operators, and the dependencies have no
  cycle.  On every other graph it raises.\<close>

theorem topological_order_complete:
  "(\<exists>order. topological_order dag = Inr order) \<longleftrightarrow> well_formed_dag dag \<and> acyclic (edge_rel dag)"
  by (rule topological_order_returns_iff)

text \<open>C3: The exception tells the two failures apart.  A dependency whose target is not an operator
  raises \<open>KeyError\<close> (before any traversal); every other graph that has no order, in particular one with a
  cycle, an unknown source or a duplicate identifier, raises the \<open>ValueError\<close> of the cycle check.\<close>

theorem topological_order_errors:
  "topological_order dag = Inl e \<longleftrightarrow>
     (if \<exists>d \<in> set (dependencies dag). downstream_id d \<notin> set (node_ids dag)
      then count_edges (dependencies dag) (in_degree_init dag) = Inl e \<and>
           (\<exists>k. e = KeyError k \<and> k \<notin> set (node_ids dag))
      else e = ValueError (''DAG has a cycle '' @ em_dash @ '' topological sort failed.'') \<and>
           \<not> (well_formed_dag dag \<and> acyclic (edge_rel dag)))"
proof (cases "\<exists>d \<in> set (dependencies dag). downstream_id d \<notin> set (node_ids dag)")
  case True
  then obtain k where "count_edges (dependencies dag) (in_degree_init dag) = Inl (KeyError k)"
    and "k \<notin> set (node_ids dag)"
    using count_edges_unknown in_degree_init_keys by metis
  with True show ?thesis by (auto simp: topological_order_def)
next
  case False
  then have known: "\<forall>d \<in> set (dependencies dag). downstream_id d \<in> set (node_ids dag)" by blast
  obtain order where
    "topological_order dag =
      (if length order \<noteq> length (operators dag)
       then Inl (ValueError (''DAG has a cycle '' @ em_dash @ '' topological sort failed.''))
       else Inr order)"
    using topological_order_run [OF known] by blast
  with False topological_order_returns_iff [of dag] show ?thesis by (auto split: if_splits)
qed

text \<open>A small graph: a source, two filters and a sink.\<close>

definition sample_dag :: OperatorDAG where
  "sample_dag =
     \<lparr>operators = map (\<lambda>i. \<lparr>operator_id = i, operator_type = ''T'', lambda_class = STANDARD,
                             slo_ms = None, parallelism = 1, extra_config = []\<rparr>) [''d'', ''b'', ''a'', ''c''],
      dependencies = [\<lparr>upstream_id = ''a'', downstream_id = ''b''\<rparr>,
                      \<lparr>upstream_id = ''a'', downstream_id = ''c''\<rparr>,
                      \<lparr>upstream_id = ''b'', downstream_id = ''d''\<rparr>,
                      \<lparr>upstream_id = ''c'', downstream_id = ''d''\<rparr>]\<rparr>"

theorem topological_order_sound_witness:
  "is_topological_order sample_dag [''a'', ''b'', ''c'', ''d'']"
proof (rule topological_order_sound)
  show "topological_order sample_dag = Inr [''a'', ''b'', ''c'', ''d'']"
    by code_simp
qed

section \<open>Reading a graph from a document\<close>

text \<open>
  \<open>from_yaml\<close> after the YAML library has parsed the file: the document is a Python value.  Identifiers and
  types must be strings, an objective a number or \<open>None\<close>, the parallelism an integer; the dataclasses
  would take other values unchecked.
\<close>

fun py_index :: "pyval \<Rightarrow> string \<Rightarrow> pyval res" where
  "py_index (PDict d) k = (case dict_get d k of None \<Rightarrow> Inl (KeyError k) | Some v \<Rightarrow> Inr v)"
| "py_index v k = Inl (TypeError ([CHR 39] @ type_name v @ [CHR 39] @ '' object is not subscriptable''))"

fun as_objective :: "pyval \<Rightarrow> real option res" where
  "as_objective PNone = Inr None"
| "as_objective v = bind_res (as_number v) (\<lambda>x. Inr (Some x))"

fun as_int :: "pyval \<Rightarrow> int res" where
  "as_int (PInt i) = Inr i"
| "as_int v = Inl (TypeError ''an integer is required'')"

definition node_keys :: "string list" where
  "node_keys = [''id'', ''type'', ''lambda'', ''slo_ms'', ''parallelism'']"

definition node_of_document :: "pyval \<Rightarrow> OperatorNode res" where
  "node_of_document op =
     bind_res (bind_res (py_index op ''id'') as_key) (\<lambda>oid.
     bind_res (bind_res (py_index op ''type'') as_key) (\<lambda>ty.
     bind_res (bind_res (bind_res (py_index op ''lambda'') as_key) LambdaClass_of) (\<lambda>lc.
     bind_res (as_dict op) (\<lambda>d.
     bind_res (as_objective (rec_get d ''slo_ms'' PNone)) (\<lambda>slo.
     bind_res (as_int (rec_get d ''parallelism'' (PInt 1))) (\<lambda>par.
       Inr \<lparr>operator_id = oid, operator_type = ty, lambda_class = lc, slo_ms = slo, parallelism = par,
             extra_config = filter (\<lambda>(k, v). k \<notin> set node_keys) d\<rparr>))))))"

definition edge_of_document :: "pyval \<Rightarrow> Dependency res" where
  "edge_of_document e =
     bind_res (bind_res (py_index e ''from'') as_key) (\<lambda>u.
     bind_res (bind_res (py_index e ''to'') as_key) (\<lambda>d.
       Inr \<lparr>upstream_id = u, downstream_id = d\<rparr>))"

definition dag_of_document :: "pyval \<Rightarrow> OperatorDAG res" where
  "dag_of_document doc =
     bind_res (bind_res (py_index doc ''operators'') as_list) (\<lambda>ops.
     bind_res (mapM_res node_of_document ops) (\<lambda>nodes.
     bind_res (as_dict doc) (\<lambda>d.
     bind_res (as_list (rec_get d ''edges'' (PList []))) (\<lambda>es.
     bind_res (mapM_res edge_of_document es) (\<lambda>deps.
       Inr \<lparr>operators = nodes, dependencies = deps\<rparr>)))))"

text \<open>A document that describes a given graph, for the round trip.\<close>

definition document_of_node :: "OperatorNode \<Rightarrow> pyval" where
  "document_of_node n =
     PDict ([(''id'', PStr (operator_id n)), (''type'', PStr (operator_type n)),
             (''lambda'', PStr (lambda_value (lambda_class n))), (''slo_ms'', opt_float (slo_ms n)),
             (''parallelism'', PInt (parallelism n))] @ extra_config n)"

definition document_of :: "OperatorDAG \<Rightarrow> pyval" where
  "document_of dag =
     PDict [(''operators'', PList (map document_of_node (operators dag))),
            (''edges'', PList (map (\<lambda>d. PDict [(''from'', PStr (upstream_id d)), (''to'', PStr (downstream_id d))])
               (dependencies dag)))]"

lemma LambdaClass_of_value [simp]: "LambdaClass_of (lambda_value l) = Inr l"
  by (cases l) (simp_all add: LambdaClass_of_def)

lemma node_roundtrip:
  assumes "\<forall>p \<in> set (extra_config n). fst p \<notin> set node_keys"
  shows "node_of_document (document_of_node n) = Inr n"
proof -
  have e: "filter (\<lambda>(k, v). k \<notin> set node_keys) (extra_config n) = extra_config n"
    using assms by (auto simp: filter_id_conv)
  have o': "as_objective (opt_float (slo_ms n)) = Inr (slo_ms n)"
    by (simp add: opt_float_def split: option.split)
  show ?thesis
    unfolding node_of_document_def document_of_node_def
    using e o' by (simp add: dict_get_default_def) (simp add: node_keys_def)
qed

lemma mapM_res_map: "mapM_res f (map g xs) = mapM_res (\<lambda>x. f (g x)) xs"
  by (induction xs) auto

lemma mapM_res_id: "(\<And>x. x \<in> set xs \<Longrightarrow> f x = Inr x) \<Longrightarrow> mapM_res f xs = Inr xs"
  by (induction xs) auto

text \<open>Reading back what describes a graph gives the graph: \<open>from_yaml\<close> loses nothing, keeps the order of
  operators and edges, and files every key that is not one of its own five under the extra configuration.\<close>

theorem from_yaml_roundtrip:
  assumes "\<forall>n \<in> set (operators dag). \<forall>p \<in> set (extra_config n). fst p \<notin> set node_keys"
  shows "dag_of_document (document_of dag) = Inr dag"
proof -
  have "mapM_res node_of_document (map document_of_node (operators dag)) = Inr (operators dag)"
    unfolding mapM_res_map using assms node_roundtrip by (intro mapM_res_id) blast
  moreover have "mapM_res edge_of_document (map (\<lambda>d. PDict [(''from'', PStr (upstream_id d)), (''to'', PStr (downstream_id d))])
      (dependencies dag)) = Inr (dependencies dag)"
    unfolding mapM_res_map by (intro mapM_res_id) (simp add: edge_of_document_def)
  ultimately show ?thesis
    unfolding dag_of_document_def document_of_def by (simp add: dict_get_default_def)
qed

theorem from_yaml_roundtrip_witness:
  "dag_of_document (document_of sample_dag) = Inr sample_dag"
  by (rule from_yaml_roundtrip) (simp add: sample_dag_def)

end
