(* ===== verification/Operators.thy ===== *)
theory Operators
  imports Pyval Numerics Dag
begin

text \<open>
  The contract of a stream operator (\<open>hea/hea/execution/base_operator.py\<close>): it processes one record at a
  time on a private state, and can be moved by \<open>get_state\<close> on one node and \<open>restore_state\<close> on a fresh
  instance of the same configuration on another.  The workload theories interpret the contract on
  their operators.  The wall clock and the monotonic clock are part of the input of a step.
\<close>

record clocks =
  clk_wall :: real
  clk_mono :: real

type_synonym stream_input = "clocks \<times> py_record"

text \<open>
  One step on a state: the records it emits or the exception it raises, and the state after it.  An
  exception leaves whatever the code had assigned before it.
\<close>

type_synonym 's operator_step = "stream_input \<Rightarrow> 's \<Rightarrow> py_record list res \<times> 's"

text \<open>The outputs of a run, exceptions included: the engine logs them and goes on with the next record.\<close>

fun run_operator :: "'s operator_step \<Rightarrow> stream_input list \<Rightarrow> 's \<Rightarrow> py_record list res list \<times> 's" where
  "run_operator step [] s = ([], s)"
| "run_operator step (x # xs) s =
     (case step x s of (out, s') \<Rightarrow> (case run_operator step xs s' of (outs, s'') \<Rightarrow> (out # outs, s'')))"

lemma run_operator_Cons:
  "run_operator step (x # xs) s =
     (fst (step x s) # fst (run_operator step xs (snd (step x s))), snd (run_operator step xs (snd (step x s))))"
  by (simp split: prod.split)

lemma run_operator_append:
  "run_operator step (xs @ ys) s =
     (case run_operator step xs s of (o1, s1) \<Rightarrow> (case run_operator step ys s1 of (o2, s2) \<Rightarrow> (o1 @ o2, s2)))"
  by (induction xs arbitrary: s) (auto split: prod.splits)

text \<open>An invariant that relates the state to the values read so far, carried along a run.\<close>

lemma run_operator_reads:
  assumes step: "\<And>x s v vs. I vs s \<Longrightarrow> read x = Inr v \<Longrightarrow> I (vs @ [v]) (snd (step x s))"
    and "I ws s" "mapM_res read xs = Inr vs"
  shows "I (ws @ vs) (snd (run_operator step xs s))"
  using assms(2,3)
proof (induction xs arbitrary: ws s vs)
  case (Cons x xs)
  obtain v vs' where v: "read x = Inr v" "mapM_res read xs = Inr vs'" "vs = v # vs'"
    using Cons.prems(2) by (auto simp: res_simps)
  obtain out s' where x: "step x s = (out, s')" by (rule prod.exhaust)
  have "I (ws @ [v]) s'" using step [OF Cons.prems(1) v(1)] x by simp
  from Cons.IH [OF this v(2)] x v(3) show ?case by (simp add: run_operator_Cons del: run_operator.simps)
qed simp

lemma run_operator_length: "length (fst (run_operator step xs s)) = length xs"
  by (induction xs arbitrary: s) (simp_all add: run_operator_Cons del: run_operator.simps(2))

section \<open>Requirements\<close>

text \<open>What an operator inherits when it says nothing about its latency class or its objective.\<close>

definition BaseOperator_lambda_class :: string where
  "BaseOperator_lambda_class = ''standard''"

definition BaseOperator_slo_ms :: "real option" where
  "BaseOperator_slo_ms = None"

text \<open>A step of one kind of operator inside a sum of kinds.\<close>

definition lift_step :: "('s \<Rightarrow> 't) \<Rightarrow> 's operator_step \<Rightarrow> stream_input \<Rightarrow> 's \<Rightarrow> py_record list res \<times> 't" where
  "lift_step wrap step x s = (fst (step x s), wrap (snd (step x s)))"

section \<open>Values that come back unchanged\<close>

lemma as_objective_opt_float [simp]: "as_objective (opt_float x) = Inr x"
  by (cases x) (simp_all add: opt_float_def)

lemma numbers_back [simp]: "mapM_res as_number (map PFloat xs) = Inr xs"
  by (simp add: mapM_res_map mapM_res_id)

lemma counts_back [simp]:
  "mapM_res (\<lambda>(k, v). bind_res (as_int v) (\<lambda>n. Inr (k, n))) (map (\<lambda>(k, n). (k, PInt n)) d) = Inr d"
  unfolding mapM_res_map by (intro mapM_res_id) (auto split: prod.splits)

section \<open>Pipelines\<close>

text \<open>
  A workload is a list of operators, each with its input and its output topics.  The operator graph of a
  pipeline has an edge from every producer of a topic to every consumer of it.
\<close>

type_synonym 'op pipeline = "('op \<times> string list \<times> string list) list"

definition pipeline_shape :: "('op \<Rightarrow> string) \<Rightarrow> 'op pipeline \<Rightarrow> string pipeline" where
  "pipeline_shape ident p = map (\<lambda>(op, ins, outs). (ident op, ins, outs)) p"

definition pipeline_dag :: "string pipeline \<Rightarrow> OperatorDAG" where
  "pipeline_dag p =
     \<lparr>operators = map (\<lambda>(op, ins, outs). \<lparr>operator_id = op, operator_type = [], lambda_class = STANDARD,
         slo_ms = None, parallelism = 1, extra_config = []\<rparr>) p,
      dependencies = concat (map (\<lambda>(op, ins, outs).
         concat (map (\<lambda>(op', ins', outs').
           if list_ex (\<lambda>t. t \<in> set ins') outs
           then [\<lparr>upstream_id = op, downstream_id = op'\<rparr>] else []) p)) p)\<rparr>"

section \<open>Migration\<close>

text \<open>A run that is moved to a fresh instance after every part of the input but the last.\<close>

fun run_migrating ::
    "'s operator_step \<Rightarrow> ('s \<Rightarrow> py_record) \<Rightarrow> (py_record \<Rightarrow> 's \<Rightarrow> 's res) \<Rightarrow> 's \<Rightarrow> stream_input list list \<Rightarrow> 's \<Rightarrow>
     (py_record list res list \<times> 's) res" where
  "run_migrating step get_state restore fresh [] s = Inr ([], s)"
| "run_migrating step get_state restore fresh [xs] s = Inr (run_operator step xs s)"
| "run_migrating step get_state restore fresh (xs # ys # rest) s =
     (case run_operator step xs s of (outs, s') \<Rightarrow>
        bind_res (restore (get_state s') fresh) (\<lambda>s''.
        bind_res (run_migrating step get_state restore fresh (ys # rest) s'') (\<lambda>(outs', t).
          Inr (outs @ outs', t))))"

text \<open>
  The contract.  \<open>good\<close> is an invariant of the operator's life from its construction on; on such a state,
  restoring the state into a fresh instance gives the very same state.
\<close>

locale stream_operator =
  fixes step :: "'s operator_step" and get_state :: "'s \<Rightarrow> py_record"
    and restore :: "py_record \<Rightarrow> 's \<Rightarrow> 's res" and fresh :: "'s" and good :: "'s \<Rightarrow> bool"
  assumes good_fresh: "good fresh"
    and good_step: "good s \<Longrightarrow> good (snd (step x s))"
    and restore_get: "good s \<Longrightarrow> restore (get_state s) fresh = Inr s"
begin

lemma good_run: "good s \<Longrightarrow> good (snd (run_operator step xs s))"
proof (induction xs arbitrary: s)
  case (Cons x xs)
  obtain out s' where x: "step x s = (out, s')" by (rule prod.exhaust)
  obtain outs t where r: "run_operator step xs s' = (outs, t)" by (rule prod.exhaust)
  show ?case using Cons.IH [OF good_step [OF Cons.prems, of x]] x r by simp
qed simp

text \<open>Moving the operator, however often and wherever in the input, changes no output and no state.\<close>

lemma migration_transparent:
  "good s \<Longrightarrow> run_migrating step get_state restore fresh parts s = Inr (run_operator step (concat parts) s)"
proof (induction parts arbitrary: s)
  case IH: (Cons xs parts)
  obtain outs s' where run: "run_operator step xs s = (outs, s')" by (rule prod.exhaust)
  then have s': "good s'" using good_run [OF IH.prems, of xs] by simp
  show ?case
  proof (cases parts)
    case Nil
    then show ?thesis by simp
  next
    case (Cons ys rest)
    then show ?thesis
      using run restore_get [OF s'] IH.IH [OF s']
      by (auto simp: run_operator_append split: prod.splits)
  qed
qed simp

lemma migration_from_start:
  "run_migrating step get_state restore fresh parts fresh = Inr (run_operator step (concat parts) fresh)"
  by (rule migration_transparent [OF good_fresh])

end

end
