(* ===== verification/Metrics.thy ===== *)
theory Metrics
  imports Numerics
begin

text \<open>
  Configuration and metrics of an edge node (\<open>hea/hea/config.py\<close>, \<open>hea/hea/metrics.py\<close>): latency samples per
  operator, the ingest rate over the last thirty seconds, smoothed load and round trip time.  The samples of
  \<open>psutil\<close>, the connection attempt and the monotonic clock are inputs.
\<close>

section \<open>Configuration\<close>

record HEAConfig =
  hc_node_id :: string
  hc_grpc_port :: int
  hc_kafka_bootstrap :: string
  hc_kafka_batch_size :: int
  hc_kafka_group_prefix :: string
  hc_minio_endpoint :: string
  hc_minio_access_key :: string
  hc_minio_secret_key :: string
  hc_minio_bucket :: string
  hc_etcd_endpoints :: "string list"
  hc_rocksdb_path :: string
  hc_checkpoint_interval_s :: int
  hc_worker_pool_size :: int
  hc_backpressure_high_water :: int
  hc_backpressure_low_water :: int
  hc_rtt_probe_interval_ms :: int
  hc_ewma_alpha :: real
  hc_cloud_kafka_endpoint :: string
  hc_schema_dir :: string

text \<open>The defaults, with no variable set in the environment.\<close>

definition HEAConfig_default :: HEAConfig where
  "HEAConfig_default =
     \<lparr>hc_node_id = ''edge-node-1'', hc_grpc_port = 50051, hc_kafka_bootstrap = ''kafka:9092'', hc_kafka_batch_size = 500,
      hc_kafka_group_prefix = ''hea'', hc_minio_endpoint = ''http://minio:9000'', hc_minio_access_key = ''hybridstream'',
      hc_minio_secret_key = ''hybridstream123'', hc_minio_bucket = ''hybridstream-snapshots'',
      hc_etcd_endpoints = [''http://etcd:2379''], hc_rocksdb_path = ''/data/rocksdb'', hc_checkpoint_interval_s = 30,
      hc_worker_pool_size = 3, hc_backpressure_high_water = 6, hc_backpressure_low_water = 2,
      hc_rtt_probe_interval_ms = 500, hc_ewma_alpha = 2/10, hc_cloud_kafka_endpoint = ''localhost:9092'',
      hc_schema_dir = ''../../schema-registry/schemas''\<rparr>"

section \<open>State\<close>

record HEAMetrics =
  hm_alpha :: real
  hm_rtt_probe_ms :: int
  hm_cloud_endpoint :: string
  hm_cpu_utilization :: real
  hm_memory_utilization :: real
  hm_rtt_ms :: real
  hm_ingest_rate_eps :: real
  hm_latency_samples :: "(string, real list) dict"
  hm_ingest_counts :: "(real \<times> int) list"

definition HEAMetrics_new :: "real \<Rightarrow> int \<Rightarrow> string \<Rightarrow> HEAMetrics" where
  "HEAMetrics_new alpha rtt_probe_interval_ms cloud_kafka_endpoint =
     \<lparr>hm_alpha = alpha, hm_rtt_probe_ms = rtt_probe_interval_ms, hm_cloud_endpoint = cloud_kafka_endpoint,
      hm_cpu_utilization = 0, hm_memory_utilization = 0, hm_rtt_ms = 10, hm_ingest_rate_eps = 0,
      hm_latency_samples = [], hm_ingest_counts = []\<rparr>"

definition EWMA_ALPHA :: real where
  "EWMA_ALPHA = 2/10"

section \<open>Latencies\<close>

definition record_latency :: "string \<Rightarrow> real \<Rightarrow> HEAMetrics \<Rightarrow> HEAMetrics" where
  "record_latency operator_id latency_ms m =
     m\<lparr>hm_latency_samples :=
         dict_set operator_id (deque_append 1000 (dict_get_default (hm_latency_samples m) operator_id []) latency_ms)
           (hm_latency_samples m)\<rparr>"

definition get_operator_p95 :: "HEAMetrics \<Rightarrow> (string, real) dict" where
  "get_operator_p95 m =
     dict_of (map (\<lambda>(oid, samples). (oid, p95 samples)) (filter (\<lambda>(oid, samples). samples \<noteq> []) (hm_latency_samples m))) []"

section \<open>Ingest rate\<close>

definition record_ingest :: "real \<Rightarrow> int \<Rightarrow> HEAMetrics \<Rightarrow> HEAMetrics" where
  "record_ingest now n_records m = m\<lparr>hm_ingest_counts := deque_append 300 (hm_ingest_counts m) (now, n_records)\<rparr>"

definition compute_ingest_rate :: "real \<Rightarrow> HEAMetrics \<Rightarrow> real" where
  "compute_ingest_rate now m =
     (let cutoff = now - 30;
          recent = filter (\<lambda>(t, n). cutoff \<le> t) (hm_ingest_counts m)
      in if recent = [] then 0
         else
           (let total = sum_list (map snd recent);
                window = (if 1 < length recent then now - fst (hd recent) else 1)
            in of_int total / max window 1))"

section \<open>Update loop\<close>

text \<open>
  \<open>rsplit(":", 1)\<close> splits at the last colon.  A connection attempt answers with the seconds it took or
  fails; a failure, timeouts included, is reported as a second.
\<close>

definition rsplit_colon :: "string \<Rightarrow> (string \<times> string) option" where
  "rsplit_colon s =
     (let r = rev s
      in case dropWhile (\<lambda>c. c \<noteq> CHR '':'') r of
           [] \<Rightarrow> None
         | _ # host \<Rightarrow> Some (rev host, rev (takeWhile (\<lambda>c. c \<noteq> CHR '':'') r)))"

type_synonym connector = "string \<Rightarrow> int \<Rightarrow> real res"

definition probe_rtt :: "connector \<Rightarrow> HEAMetrics \<Rightarrow> real res" where
  "probe_rtt connect m =
     (case rsplit_colon (hm_cloud_endpoint m) of
        None \<Rightarrow> Inl (ValueError ''not enough values to unpack (expected 2, got 1)'')
      | Some (host, port_str) \<Rightarrow>
          bind_res (int_of_string port_str) (\<lambda>port.
            Inr (case connect host port of Inl e \<Rightarrow> 1000 | Inr secs \<Rightarrow> secs * 1000)))"

text \<open>One turn of the loop.  An exception is logged, and keeps what was assigned before it.\<close>

record metrics_sample =
  ms_cpu_percent :: "real res"
  ms_memory_percent :: "real res"
  ms_connect :: connector
  ms_now :: real

definition update_metrics :: "metrics_sample \<Rightarrow> HEAMetrics \<Rightarrow> HEAMetrics" where
  "update_metrics x m =
     (case bind_res (ms_cpu_percent x) (\<lambda>cpu. bind_res (ms_memory_percent x) (\<lambda>mem. Inr (cpu / 100, mem / 100))) of
        Inl e \<Rightarrow> m
      | Inr (cpu_sample, mem_sample) \<Rightarrow>
          (let m = m\<lparr>hm_cpu_utilization := ewma (hm_alpha m) (hm_cpu_utilization m) cpu_sample,
                     hm_memory_utilization := ewma (hm_alpha m) (hm_memory_utilization m) mem_sample\<rparr>
           in case probe_rtt (ms_connect x) m of
                Inl e \<Rightarrow> m
              | Inr rtt \<Rightarrow>
                  (let m = m\<lparr>hm_rtt_ms := ewma (hm_alpha m) (hm_rtt_ms m) rtt\<rparr>
                   in m\<lparr>hm_ingest_rate_eps := compute_ingest_rate (ms_now x) m\<rparr>)))"

section \<open>Properties\<close>

lemma update_metrics_keeps [simp]:
  "hm_alpha (update_metrics x m) = hm_alpha m" "hm_cloud_endpoint (update_metrics x m) = hm_cloud_endpoint m"
  "hm_latency_samples (update_metrics x m) = hm_latency_samples m" "hm_ingest_counts (update_metrics x m) = hm_ingest_counts m"
  by (simp_all add: update_metrics_def Let_def split: sum.split prod.split)

definition sample_in_range :: "metrics_sample \<Rightarrow> bool" where
  "sample_in_range x \<longleftrightarrow>
     (\<forall>v. ms_cpu_percent x = Inr v \<longrightarrow> 0 \<le> v \<and> v \<le> 100) \<and> (\<forall>v. ms_memory_percent x = Inr v \<longrightarrow> 0 \<le> v \<and> v \<le> 100) \<and>
     (\<forall>h p v. ms_connect x h p = Inr v \<longrightarrow> 0 \<le> v \<and> v \<le> 1)"

definition load_in_range :: "HEAMetrics \<Rightarrow> bool" where
  "load_in_range m \<longleftrightarrow>
     0 \<le> hm_cpu_utilization m \<and> hm_cpu_utilization m \<le> 1 \<and> 0 \<le> hm_memory_utilization m \<and> hm_memory_utilization m \<le> 1 \<and>
     0 \<le> hm_rtt_ms m \<and> hm_rtt_ms m \<le> 1000"

lemma probe_rtt_range:
  assumes "sample_in_range x" "probe_rtt (ms_connect x) m = Inr rtt"
  shows "0 \<le> rtt" "rtt \<le> 1000"
proof -
  obtain host port_str where e: "rsplit_colon (hm_cloud_endpoint m) = Some (host, port_str)"
    using assms(2) by (cases "rsplit_colon (hm_cloud_endpoint m)") (auto simp: probe_rtt_def)
  then obtain port where "rtt = (case ms_connect x host port of Inl e \<Rightarrow> 1000 | Inr secs \<Rightarrow> secs * 1000)"
    using assms(2) by (auto simp: probe_rtt_def res_simps)
  moreover have "0 \<le> v \<and> v \<le> 1" if "ms_connect x host port = Inr v" for v
    using that assms(1) by (simp add: sample_in_range_def)
  ultimately show "0 \<le> rtt" "rtt \<le> 1000" by (auto split: sum.split)
qed

lemma update_metrics_range:
  assumes "sample_in_range x" "load_in_range m" "0 \<le> hm_alpha m" "hm_alpha m \<le> 1"
  shows "load_in_range (update_metrics x m)"
proof (cases "bind_res (ms_cpu_percent x) (\<lambda>cpu. bind_res (ms_memory_percent x) (\<lambda>mem. Inr (cpu / 100, mem / 100)))")
  case (Inl e)
  then show ?thesis using assms(2) by (simp add: update_metrics_def)
next
  case (Inr p)
  obtain cpu mem where p: "p = (cpu, mem)" by (rule prod.exhaust)
  have r: "0 \<le> cpu" "cpu \<le> 1" "0 \<le> mem" "mem \<le> 1"
    using Inr assms(1) unfolding p by (auto simp: res_simps sample_in_range_def)
  note b = ewma_bounds [OF assms(3,4)]
  let ?m = "m\<lparr>hm_cpu_utilization := ewma (hm_alpha m) (hm_cpu_utilization m) cpu,
             hm_memory_utilization := ewma (hm_alpha m) (hm_memory_utilization m) mem\<rparr>"
  have m: "load_in_range ?m"
    using assms(2) r b [of 0 "hm_cpu_utilization m" 1 cpu] b [of 0 "hm_memory_utilization m" 1 mem]
    by (simp add: load_in_range_def)
  show ?thesis
  proof (cases "probe_rtt (ms_connect x) ?m")
    case Inl': (Inl e)
    show ?thesis unfolding update_metrics_def Inr p sum.case prod.case Let_def Inl' by (rule m)
  next
    case Inr': (Inr rtt)
    show ?thesis unfolding update_metrics_def Inr p sum.case prod.case Let_def Inr'
      using m b [of 0 "hm_rtt_ms m" 1000 rtt] probe_rtt_range [OF assms(1) Inr'] by (simp add: load_in_range_def)
  qed
qed

text \<open>Whatever the samples, as long as percentages lie between 0 and 100 and a successful probe takes at most a
  second, the smoothed loads of a node stay between 0 and 1 and its round trip time between 0 and 1000 ms.\<close>

theorem metrics_stay_in_range:
  assumes "0 \<le> alpha" "alpha \<le> 1" "list_all sample_in_range xs"
  shows "load_in_range (fold update_metrics xs (HEAMetrics_new alpha interval endpoint))"
proof -
  have "load_in_range (fold update_metrics xs m)" if "load_in_range m" "hm_alpha m = alpha" for m
    using assms(3) that
  proof (induction xs arbitrary: m)
    case (Cons x xs)
    then show ?case using update_metrics_range [of x m] assms(1,2) by simp
  qed simp
  then show ?thesis by (simp add: HEAMetrics_new_def load_in_range_def)
qed

definition sample_metrics :: metrics_sample where
  "sample_metrics = \<lparr>ms_cpu_percent = Inr 50, ms_memory_percent = Inr 25, ms_connect = (\<lambda>h p. Inl (Exc ''refused'')), ms_now = 0\<rparr>"

theorem metrics_stay_in_range_witness:
  "load_in_range (fold update_metrics [sample_metrics, sample_metrics] (HEAMetrics_new (2/10) 500 ''localhost:9092''))"
  by (rule metrics_stay_in_range) (simp_all add: sample_in_range_def sample_metrics_def)

text \<open>The latencies recorded for an operator, in order.\<close>

definition latencies_of :: "(string \<times> real) list \<Rightarrow> string \<Rightarrow> real list" where
  "latencies_of recs oid = map snd (filter (\<lambda>p. fst p = oid) recs)"

definition record_all :: "(string \<times> real) list \<Rightarrow> HEAMetrics \<Rightarrow> HEAMetrics" where
  "record_all recs m = fold (\<lambda>(oid, x). record_latency oid x) recs m"

lemma record_latency_get:
  "dict_get (hm_latency_samples (record_latency k x m)) oid =
     (if oid = k then Some (deque_append 1000 (dict_get_default (hm_latency_samples m) k []) x)
      else dict_get (hm_latency_samples m) oid)"
  "wf_dict (hm_latency_samples m) \<Longrightarrow> wf_dict (hm_latency_samples (record_latency k x m))"
  by (simp_all add: record_latency_def dict_simps)

lemma latencies_of_snoc: "latencies_of (recs @ [(k, x)]) oid = latencies_of recs oid @ (if k = oid then [x] else [])"
  by (simp add: latencies_of_def)

lemma deque_append_Nil: "0 < n \<Longrightarrow> deque_append n [] x = [x]"
  by (cases n) (simp_all add: deque_append_def)

lemma record_latencies:
  "wf_dict (hm_latency_samples (record_all recs (HEAMetrics_new alpha interval endpoint))) \<and>
   (\<forall>oid. dict_get (hm_latency_samples (record_all recs (HEAMetrics_new alpha interval endpoint))) oid =
      (if latencies_of recs oid = [] then None else Some (deque_of 1000 (latencies_of recs oid))))"
proof (induction recs rule: rev_induct)
  case Nil
  show ?case by (simp add: HEAMetrics_new_def latencies_of_def record_all_def)
next
  case (snoc r recs)
  obtain k x where r: "r = (k, x)" by (rule prod.exhaust)
  have step: "record_all (recs @ [r]) m = record_latency k x (record_all recs m)" for m
    by (simp add: record_all_def r)
  have new: "deque_append 1000 (dict_get_default (hm_latency_samples (record_all recs (HEAMetrics_new alpha interval endpoint))) k []) x =
      deque_of 1000 (latencies_of recs k @ [x])"
    using snoc by (simp add: dict_get_default_def deque_append_deque_of deque_append_Nil)
  show ?case
    unfolding step using snoc new by (simp add: r record_latency_get latencies_of_snoc)
qed

lemma map_of_mapped_filter:
  assumes "wf_dict d"
  shows "map_of (rev (map (\<lambda>(k, v). (k, f v)) (filter (\<lambda>(k, v). P v) d))) k =
    (case map_of d k of None \<Rightarrow> None | Some v \<Rightarrow> if P v then Some (f v) else None)"
  using assms
proof (induction d)
  case (Cons p d)
  obtain k' v where p: "p = (k', v)" by (rule prod.exhaust)
  have "map_of d k' = None" using Cons.prems by (simp add: p wf_dict_def map_of_eq_None_iff)
  moreover have "wf_dict d" using Cons.prems by (simp add: wf_dict_def)
  ultimately show ?case using Cons.IH by (cases "k = k'"; cases "map_of d k") (auto simp: p map_add_def)
qed simp

text \<open>The latency a node reports for an operator is the 95th percentile of its last thousand latencies: one of
  them, with at least 95 of a hundred at or below it and fewer than 95 of a hundred below it.\<close>

theorem operator_p95_correct:
  assumes "m = record_all recs (HEAMetrics_new alpha interval endpoint)"
    and "latencies_of recs oid \<noteq> []" "window = deque_of 1000 (latencies_of recs oid)"
  shows "\<exists>v. dict_get (get_operator_p95 m) oid = Some v \<and> v \<in> set window \<and>
    19 * length window \<le> 20 * length (filter (\<lambda>x. x \<le> v) window) \<and>
    20 * length (filter (\<lambda>x. x < v) window) < 19 * length window"
proof -
  have recs: "wf_dict (hm_latency_samples m)" "dict_get (hm_latency_samples m) oid = Some window"
    using record_latencies [of recs alpha interval endpoint] assms by simp_all
  have "length (deque_of 1000 ls) = min 1000 (length ls)" for ls :: "real list" by (simp add: deque_of_def)
  from this [of "latencies_of recs oid"] have ne: "window \<noteq> []" using assms(2,3) by auto
  have "dict_get (get_operator_p95 m) oid = Some (p95 window)"
    unfolding get_operator_p95_def using recs(2) ne by (simp add: dict_simps map_of_mapped_filter [OF recs(1)])
  with p95_rank [OF ne] show ?thesis by blast
qed

theorem operator_p95_correct_witness:
  "\<exists>v. dict_get (get_operator_p95 (record_all [(''a'', 3), (''b'', 9), (''a'', 5)]
     (HEAMetrics_new (2/10) 500 ''localhost:9092''))) ''a'' = Some v \<and> v \<in> {3, 5}"
  using operator_p95_correct [OF refl _ refl, of "[(''a'', 3), (''b'', 9), (''a'', 5)]" "''a''" "2/10" 500 "''localhost:9092''"]
  by (auto simp: latencies_of_def)

text \<open>The ingest rate is never negative and zero when nothing was recorded in the last thirty seconds.\<close>

lemma ingest_rate_idle: "list_all (\<lambda>(t, n). t < now - 30) (hm_ingest_counts m) \<Longrightarrow> compute_ingest_rate now m = 0"
  by (auto simp: compute_ingest_rate_def list_all_iff Let_def filter_empty_conv)

end
