(* ===== verification/Bridge.thy ===== *)
theory Bridge
  imports Pyval "HOL-Library.Word"
begin

text \<open>
  The Kafka producer of an edge node (\<open>hea/hea/kafka/producer.py\<close>).  MessagePack and the broker are
  parameters: packing and unpacking may fail, and so may a send that waits for its acknowledgement.
\<close>

type_synonym bytes = "8 word list"

record kafka_api =
  kf_packb :: "py_record \<Rightarrow> bytes res"
  kf_unpackb :: "bytes \<Rightarrow> pyval res"
  kf_accept :: "string \<Rightarrow> bytes \<Rightarrow> unit res"
  kf_connect :: "string \<Rightarrow> unit res"

text \<open>The producer exists from \<open>start\<close> on; the acknowledged messages are its observable effect.\<close>

record BridgeProducer =
  bp_bootstrap :: string
  bp_producer :: bool
  bp_sent :: "(string \<times> bytes) list"

definition BridgeProducer_new :: "string \<Rightarrow> BridgeProducer" where
  "BridgeProducer_new bootstrap_servers = \<lparr>bp_bootstrap = bootstrap_servers, bp_producer = False, bp_sent = []\<rparr>"

text \<open>\<open>start\<close> keeps the producer even when connecting it fails.\<close>

definition bridge_start :: "kafka_api \<Rightarrow> BridgeProducer \<Rightarrow> unit res \<times> BridgeProducer" where
  "bridge_start kafka b = (kf_connect kafka (bp_bootstrap b), b\<lparr>bp_producer := True\<rparr>)"

definition bridge_send_raw :: "kafka_api \<Rightarrow> string \<Rightarrow> bytes \<Rightarrow> BridgeProducer \<Rightarrow> unit res \<times> BridgeProducer" where
  "bridge_send_raw kafka topic payload b =
     (if \<not> bp_producer b then (Inl (RuntimeError ''BridgeProducer not started''), b)
      else (case kf_accept kafka topic payload of
              Inl e \<Rightarrow> (Inl e, b)
            | Inr _ \<Rightarrow> (Inr (), b\<lparr>bp_sent := bp_sent b @ [(topic, payload)]\<rparr>)))"

definition bridge_send :: "kafka_api \<Rightarrow> string \<Rightarrow> py_record \<Rightarrow> BridgeProducer \<Rightarrow> unit res \<times> BridgeProducer" where
  "bridge_send kafka topic record' b =
     (if \<not> bp_producer b then (Inl (RuntimeError ''BridgeProducer not started''), b)
      else (case kf_packb kafka record' of
              Inl e \<Rightarrow> (Inl e, b)
            | Inr payload \<Rightarrow>
                (case kf_accept kafka topic payload of
                   Inl e \<Rightarrow> (Inl e, b)
                 | Inr _ \<Rightarrow> (Inr (), b\<lparr>bp_sent := bp_sent b @ [(topic, payload)]\<rparr>))))"

text \<open>Sends in order, stopping at the first that fails.\<close>

fun send_all :: "kafka_api \<Rightarrow> (string \<times> py_record) list \<Rightarrow> BridgeProducer \<Rightarrow> unit res \<times> BridgeProducer" where
  "send_all kafka [] b = (Inr (), b)"
| "send_all kafka ((topic, r) # rest) b =
     (case bridge_send kafka topic r b of
        (Inl e, b') \<Rightarrow> (Inl e, b')
      | (Inr _, b') \<Rightarrow> send_all kafka rest b')"

text \<open>A broker that accepts everything, and a packing that never fails.\<close>

definition reliable :: "kafka_api \<Rightarrow> (py_record \<Rightarrow> bytes) \<Rightarrow> bool" where
  "reliable kafka enc \<longleftrightarrow> (\<forall>r. kf_packb kafka r = Inr (enc r)) \<and> (\<forall>t p. kf_accept kafka t p = Inr ())"

lemma send_all_reliable:
  "reliable kafka enc \<Longrightarrow> bp_producer b \<Longrightarrow>
   send_all kafka rs b = (Inr (), b\<lparr>bp_sent := bp_sent b @ map (\<lambda>(t, r). (t, enc r)) rs\<rparr>)"
  by (induction kafka rs b rule: send_all.induct) (simp_all add: bridge_send_def reliable_def)

lemma send_all_sent:
  "\<exists>k \<le> length rs. \<exists>ps. length ps = k \<and> bp_sent (snd (send_all kafka rs b)) = bp_sent b @ zip (map fst (take k rs)) ps"
proof (induction kafka rs b rule: send_all.induct)
  case (2 kafka topic r rest b)
  show ?case
  proof (cases "fst (bridge_send kafka topic r b)")
    case (Inl e)
    then obtain b' where b': "bridge_send kafka topic r b = (Inl e, b')" by (metis prod.collapse)
    then have "bp_sent b' = bp_sent b" by (auto simp: bridge_send_def split: if_splits sum.splits)
    with b' show ?thesis by (intro exI [of _ 0]) simp
  next
    case (Inr u)
    then obtain b' where b': "bridge_send kafka topic r b = (Inr u, b')" by (metis prod.collapse)
    then obtain p where p: "bp_sent b' = bp_sent b @ [(topic, p)]"
      by (auto simp: bridge_send_def split: if_splits sum.splits)
    obtain k ps where k: "k \<le> length rest" "length ps = k"
      "bp_sent (snd (send_all kafka rest b')) = bp_sent b' @ zip (map fst (take k rest)) ps"
      using "2.IH" [OF b' [symmetric] refl] by blast
    show ?thesis using b' p k by (intro exI [of _ "Suc k"] conjI exI [of _ "p # ps"]) simp_all
  qed
qed simp

end
