(* ===== verification/Engine.thy ===== *)
theory Engine
  imports Operators Metrics Bridge
begin

text \<open>
  The operator engine of an edge node (\<open>hea/hea/execution/engine.py\<close>, \<open>decorators.py\<close>): operators bound to input
  topics, one consumer per topic, an in-process path and a queue with a process pool for operators marked as
  CPU bound, and backpressure by pausing consumers.  Between two awaits a coroutine is not interrupted; the
  model makes the handling of one poll, of one queued record and each half of a deregistration a step, and
  runs the steps of all coroutines in any order.
\<close>

section \<open>Decorators\<close>

text \<open>The attribute dictionaries of a class and of its bases, in the order in which attributes are looked up.\<close>

type_synonym py_class = "(string, bool) dict list"

fun class_attr :: "py_class \<Rightarrow> string \<Rightarrow> bool \<Rightarrow> bool" where
  "class_attr [] a dflt = dflt"
| "class_attr (d # ds) a dflt = (case dict_get d a of Some b \<Rightarrow> b | None \<Rightarrow> class_attr ds a dflt)"

fun class_set :: "string \<Rightarrow> bool \<Rightarrow> py_class \<Rightarrow> py_class" where
  "class_set a b [] = [[(a, b)]]"
| "class_set a b (d # ds) = dict_set a b d # ds"

definition cpu_bound :: "py_class \<Rightarrow> py_class" where
  "cpu_bound cls = class_set ''_cpu_bound'' True cls"

definition io_bound :: "py_class \<Rightarrow> py_class" where
  "io_bound cls = class_set ''_cpu_bound'' False cls"

definition is_cpu_bound :: "py_class \<Rightarrow> bool" where
  "is_cpu_bound cls = class_attr cls ''_cpu_bound'' False"

lemma decorated [simp]: "is_cpu_bound (cpu_bound cls)" "\<not> is_cpu_bound (io_bound cls)" "\<not> is_cpu_bound []"
  by (cases cls; simp add: is_cpu_bound_def cpu_bound_def io_bound_def dict_simps)+

section \<open>State\<close>

text \<open>What the engine uses of an operator.\<close>

record 'op operator_api =
  oa_id :: "'op \<Rightarrow> string"
  oa_class :: "'op \<Rightarrow> py_class"
  oa_step :: "'op operator_step"

text \<open>
  A consumer with the positions it has read up to and those it has committed, by partition.
  \<open>eng_queues\<close> holds every queue ever created, with the operator whose worker drains it:
  \<open>eng_worker_queues\<close> refers to a queue by its place, because a worker keeps its queue when the
  dictionary loses it.  \<open>eng_draining\<close> are the deregistrations that wait for a queue.
\<close>

record consumer =
  cs_paused :: bool
  cs_position :: "(int, int) dict"
  cs_committed :: "(int, int) dict"
  cs_stopped :: bool

record 'op work_item =
  wi_op :: 'op
  wi_record :: pyval
  wi_offset :: int
  wi_start_ns :: int

record 'op OperatorEngine =
  eng_config :: HEAConfig
  eng_metrics :: HEAMetrics
  eng_bridge :: BridgeProducer
  eng_pool :: bool
  eng_operators :: "(string, 'op) dict"
  eng_topic_bindings :: "(string, string list) dict"
  eng_output_routes :: "(string, string list) dict"
  eng_consumers :: "(string, consumer) dict"
  eng_consumer_tasks :: "string list"
  eng_worker_queues :: "(string, nat) dict"
  eng_paused_topics :: "string set"
  eng_running :: bool
  eng_queues :: "(string \<times> 'op work_item list) list"
  eng_draining :: "(string \<times> nat) list"
  eng_log :: "(string \<times> py_error) list"

definition OperatorEngine_new :: "HEAConfig \<Rightarrow> HEAMetrics \<Rightarrow> BridgeProducer \<Rightarrow> 'op OperatorEngine" where
  "OperatorEngine_new config metrics bridge_producer =
     \<lparr>eng_config = config, eng_metrics = metrics, eng_bridge = bridge_producer, eng_pool = False, eng_operators = [],
      eng_topic_bindings = [], eng_output_routes = [], eng_consumers = [], eng_consumer_tasks = [],
      eng_worker_queues = [], eng_paused_topics = {}, eng_running = False, eng_queues = [], eng_draining = [],
      eng_log = []\<rparr>"

definition log_error :: "string \<Rightarrow> py_error \<Rightarrow> 'op OperatorEngine \<Rightarrow> 'op OperatorEngine" where
  "log_error who e eng = eng\<lparr>eng_log := eng_log eng @ [(who, e)]\<rparr>"

definition engine_start :: "'op OperatorEngine \<Rightarrow> 'op OperatorEngine" where
  "engine_start eng = eng\<lparr>eng_pool := True, eng_running := True\<rparr>"

definition engine_stop :: "'op OperatorEngine \<Rightarrow> 'op OperatorEngine" where
  "engine_stop eng =
     eng\<lparr>eng_running := False, eng_consumer_tasks := [], eng_pool := False,
         eng_consumers := map (\<lambda>(t, c). (t, c\<lparr>cs_stopped := True\<rparr>)) (eng_consumers eng)\<rparr>"

section \<open>Registration\<close>

definition start_consumer :: "kafka_api \<Rightarrow> string \<Rightarrow> 'op OperatorEngine \<Rightarrow> unit res \<times> 'op OperatorEngine" where
  "start_consumer kafka topic eng =
     (case kf_connect kafka topic of
        Inl e \<Rightarrow> (Inl e, eng)
      | Inr _ \<Rightarrow>
          (Inr (), eng\<lparr>eng_consumers := dict_set topic
                         \<lparr>cs_paused = False, cs_position = [], cs_committed = [], cs_stopped = False\<rparr> (eng_consumers eng),
                       eng_consumer_tasks := eng_consumer_tasks eng @ [topic]\<rparr>))"

fun bind_topics :: "kafka_api \<Rightarrow> string \<Rightarrow> string list \<Rightarrow> 'op OperatorEngine \<Rightarrow> unit res \<times> 'op OperatorEngine" where
  "bind_topics kafka oid [] eng = (Inr (), eng)"
| "bind_topics kafka oid (topic # topics) eng =
     (let eng = eng\<lparr>eng_topic_bindings := dict_set topic (dict_get_default (eng_topic_bindings eng) topic [] @ [oid])
                      (eng_topic_bindings eng)\<rparr>
      in if dict_get (eng_consumers eng) topic = None
         then (case start_consumer kafka topic eng of
                 (Inl e, eng) \<Rightarrow> (Inl e, eng)
               | (Inr _, eng) \<Rightarrow> bind_topics kafka oid topics eng)
         else bind_topics kafka oid topics eng)"

definition register_operator ::
    "'op operator_api \<Rightarrow> kafka_api \<Rightarrow> 'op \<Rightarrow> string list \<Rightarrow> string list \<Rightarrow> 'op OperatorEngine \<Rightarrow> unit res \<times> 'op OperatorEngine" where
  "register_operator api kafka op input_topics output_topics eng =
     (let oid = oa_id api op;
          eng = eng\<lparr>eng_operators := dict_set oid op (eng_operators eng),
                    eng_output_routes := dict_set oid output_topics (eng_output_routes eng)\<rparr>
      in case bind_topics kafka oid input_topics eng of
           (Inl e, eng) \<Rightarrow> (Inl e, eng)
         | (Inr _, eng) \<Rightarrow>
             (Inr (), if is_cpu_bound (oa_class api op)
                      then eng\<lparr>eng_worker_queues := dict_set oid (length (eng_queues eng)) (eng_worker_queues eng),
                               eng_queues := eng_queues eng @ [(oid, [])]\<rparr>
                      else eng))"

text \<open>
  Deregistration.  An operator with records in its queue waits for the queue to be drained: the first part
  ends there, the second runs once its worker has handled the last record.
\<close>

definition deregister_begin :: "string \<Rightarrow> 'op OperatorEngine \<Rightarrow> 'op OperatorEngine" where
  "deregister_begin oid eng =
     (if dict_get (eng_operators eng) oid = None then eng
      else
        (let eng' = eng\<lparr>eng_operators := dict_pop oid (eng_operators eng),
                        eng_worker_queues := dict_pop oid (eng_worker_queues eng)\<rparr>
         in case dict_get (eng_worker_queues eng) oid of
              None \<Rightarrow> eng'\<lparr>eng_output_routes := dict_pop oid (eng_output_routes eng')\<rparr>
            | Some q \<Rightarrow>
                if snd (eng_queues eng ! q) = []
                then eng'\<lparr>eng_output_routes := dict_pop oid (eng_output_routes eng')\<rparr>
                else eng'\<lparr>eng_draining := eng_draining eng' @ [(oid, q)]\<rparr>))"

definition deregister_end :: "string \<Rightarrow> nat \<Rightarrow> 'op OperatorEngine \<Rightarrow> 'op OperatorEngine" where
  "deregister_end oid q eng =
     (if (oid, q) \<in> set (eng_draining eng) \<and> snd (eng_queues eng ! q) = []
      then eng\<lparr>eng_output_routes := dict_pop oid (eng_output_routes eng),
               eng_draining := remove1 (oid, q) (eng_draining eng)\<rparr>
      else eng)"

section \<open>Processing\<close>

text \<open>\<open>process\<close> begins with \<open>record.get\<close> in every operator: a payload that is no map raises there.\<close>

definition run_process :: "'op operator_api \<Rightarrow> clocks \<Rightarrow> pyval \<Rightarrow> 'op \<Rightarrow> py_record list res \<times> 'op" where
  "run_process api clk v op =
     (case v of
        PDict r \<Rightarrow> oa_step api (clk, r) op
      | _ \<Rightarrow> (Inl (AttributeError ([CHR 39] @ type_name v @ [CHR 39] @ '' object has no attribute '' @ [CHR 39] @ ''get'' @ [CHR 39])), op))"

definition emit :: "kafka_api \<Rightarrow> string \<Rightarrow> py_record list \<Rightarrow> 'op OperatorEngine \<Rightarrow> unit res \<times> 'op OperatorEngine" where
  "emit kafka oid records eng =
     (let routes = dict_get_default (eng_output_routes eng) oid [];
          (out, b) = send_all kafka (concat (map (\<lambda>t. map (\<lambda>r. (t, r)) records) routes)) (eng_bridge eng)
      in (out, eng\<lparr>eng_bridge := b\<rparr>))"

text \<open>The end of both paths: emit what the operator returned and record how long it took, or log.\<close>

definition finish_record ::
    "kafka_api \<Rightarrow> string \<Rightarrow> py_record list res \<Rightarrow> int \<Rightarrow> int \<Rightarrow> 'op OperatorEngine \<Rightarrow> 'op OperatorEngine" where
  "finish_record kafka oid result start_ns end_ns eng =
     (case result of
        Inl e \<Rightarrow> log_error oid e eng
      | Inr records \<Rightarrow>
          (case emit kafka oid records eng of
             (Inl e, eng) \<Rightarrow> log_error oid e eng
           | (Inr _, eng) \<Rightarrow>
               eng\<lparr>eng_metrics := record_latency oid (of_int (end_ns - start_ns) / 10 ^ 6) (eng_metrics eng)\<rparr>))"

text \<open>The clock readings of one dispatch: the operator's own, and the engine's before and after.\<close>

record timing =
  tm_clocks :: clocks
  tm_start_ns :: int
  tm_end_ns :: int

definition dispatch ::
    "'op operator_api \<Rightarrow> kafka_api \<Rightarrow> string \<Rightarrow> pyval \<Rightarrow> int \<Rightarrow> timing \<Rightarrow> 'op OperatorEngine \<Rightarrow> 'op OperatorEngine" where
  "dispatch api kafka oid v offset tm eng =
     (case dict_get (eng_operators eng) oid of
        None \<Rightarrow> eng
      | Some op \<Rightarrow>
          if is_cpu_bound (oa_class api op)
          then (case dict_get (eng_worker_queues eng) oid of
                  None \<Rightarrow> eng
                | Some q \<Rightarrow>
                    eng\<lparr>eng_queues := (eng_queues eng)[q := (fst (eng_queues eng ! q), snd (eng_queues eng ! q) @
                      [\<lparr>wi_op = op, wi_record = v, wi_offset = offset, wi_start_ns = tm_start_ns tm\<rparr>])]\<rparr>)
          else (case run_process api (tm_clocks tm) v op of
                  (result, op') \<Rightarrow>
                    finish_record kafka oid result (tm_start_ns tm) (tm_end_ns tm)
                      (eng\<lparr>eng_operators := dict_set oid op' (eng_operators eng)\<rparr>)))"

text \<open>
  One record of a worker's queue.  The process pool works on a pickled copy of the operator, so the state after
  the call is dropped; a pool that was shut down refuses the call.
\<close>

definition worker_step ::
    "'op operator_api \<Rightarrow> kafka_api \<Rightarrow> nat \<Rightarrow> timing \<Rightarrow> 'op OperatorEngine \<Rightarrow> 'op OperatorEngine" where
  "worker_step api kafka q tm eng =
     (if q < length (eng_queues eng)
      then (case eng_queues eng ! q of
              (oid, []) \<Rightarrow> eng
            | (oid, item # items) \<Rightarrow>
                finish_record kafka oid
                  (if eng_pool eng then fst (run_process api (tm_clocks tm) (wi_record item) (wi_op item))
                   else Inl (RuntimeError ''cannot schedule new futures after shutdown''))
                  (wi_start_ns item) (tm_end_ns tm)
                  (eng\<lparr>eng_queues := (eng_queues eng)[q := (oid, items)]\<rparr>))
      else eng)"

section \<open>Consuming\<close>

text \<open>A message of a poll, with the clock readings of each of its dispatches.\<close>

record message =
  mg_value :: bytes
  mg_offset :: int
  mg_timing :: "nat \<Rightarrow> timing"

fun dispatch_all ::
    "'op operator_api \<Rightarrow> kafka_api \<Rightarrow> (nat \<times> string) list \<Rightarrow> pyval \<Rightarrow> message \<Rightarrow> 'op OperatorEngine \<Rightarrow> 'op OperatorEngine" where
  "dispatch_all api kafka [] v msg eng = eng"
| "dispatch_all api kafka ((i, oid) # oids) v msg eng =
     dispatch_all api kafka oids v msg (dispatch api kafka oid v (mg_offset msg) (mg_timing msg i) eng)"

fun consume_messages ::
    "'op operator_api \<Rightarrow> kafka_api \<Rightarrow> string \<Rightarrow> message list \<Rightarrow> 'op OperatorEngine \<Rightarrow> unit res \<times> 'op OperatorEngine" where
  "consume_messages api kafka topic [] eng = (Inr (), eng)"
| "consume_messages api kafka topic (msg # msgs) eng =
     (case kf_unpackb kafka (mg_value msg) of
        Inl e \<Rightarrow> (Inl e, eng)
      | Inr v \<Rightarrow>
          consume_messages api kafka topic msgs
            (dispatch_all api kafka (enumerate 0 (dict_get_default (eng_topic_bindings eng) topic [])) v msg eng))"

text \<open>Backpressure of one bound operator, and of all operators bound to a topic.\<close>

definition set_consumer :: "string \<Rightarrow> (consumer \<Rightarrow> consumer) \<Rightarrow> 'op OperatorEngine \<Rightarrow> 'op OperatorEngine" where
  "set_consumer topic f eng =
     (case dict_get (eng_consumers eng) topic of
        None \<Rightarrow> eng
      | Some c \<Rightarrow> eng\<lparr>eng_consumers := dict_set topic (f c) (eng_consumers eng)\<rparr>)"

definition backpressure_one :: "string \<Rightarrow> string \<Rightarrow> 'op OperatorEngine \<Rightarrow> 'op OperatorEngine" where
  "backpressure_one topic oid eng =
     (case dict_get (eng_worker_queues eng) oid of
        None \<Rightarrow> eng
      | Some q \<Rightarrow>
          (let depth = int (length (snd (eng_queues eng ! q)))
           in if hc_backpressure_high_water (eng_config eng) < depth \<and> topic \<notin> eng_paused_topics eng
              then (set_consumer topic (\<lambda>c. c\<lparr>cs_paused := True\<rparr>) eng)
                     \<lparr>eng_paused_topics := insert topic (eng_paused_topics eng)\<rparr>
              else if depth < hc_backpressure_low_water (eng_config eng) \<and> topic \<in> eng_paused_topics eng
              then (set_consumer topic (\<lambda>c. c\<lparr>cs_paused := False\<rparr>) eng)
                     \<lparr>eng_paused_topics := eng_paused_topics eng - {topic}\<rparr>
              else eng))"

definition check_backpressure :: "string \<Rightarrow> 'op OperatorEngine \<Rightarrow> 'op OperatorEngine" where
  "check_backpressure topic eng =
     fold (backpressure_one topic) (dict_get_default (eng_topic_bindings eng) topic []) eng"

text \<open>
  One turn of a consumer's loop.  \<open>poll\<close> is what \<open>getmany\<close> returns, by partition, or its exception; a paused
  consumer gets nothing.  Returning messages advances the position of the consumer past them, and
  \<open>commit\<close> commits the position; both are what the client library documents.
\<close>

definition advance :: "(int \<times> message list) list \<Rightarrow> consumer \<Rightarrow> consumer" where
  "advance records c =
     c\<lparr>cs_position := dict_of (map (\<lambda>(p, msgs). (p, mg_offset (last msgs) + 1)) (filter (\<lambda>(p, msgs). msgs \<noteq> []) records))
         (cs_position c)\<rparr>"

definition consume_turn ::
    "'op operator_api \<Rightarrow> kafka_api \<Rightarrow> string \<Rightarrow> (int \<times> message list) list res \<Rightarrow> unit res \<Rightarrow> 'op OperatorEngine \<Rightarrow> 'op OperatorEngine" where
  "consume_turn api kafka topic poll commit eng =
     (case dict_get (eng_consumers eng) topic of
        None \<Rightarrow> eng
      | Some c \<Rightarrow>
          if eng_running eng \<and> topic \<in> set (eng_consumer_tasks eng)
          then (case poll of
                  Inl e \<Rightarrow> log_error topic e eng
                | Inr polled \<Rightarrow>
                    (let records = (if cs_paused c then [] else polled)
                     in case consume_messages api kafka topic (concat (map snd records)) (set_consumer topic (advance records) eng) of
                          (Inl e, eng) \<Rightarrow> log_error topic e eng
                        | (Inr _, eng) \<Rightarrow>
                            (let eng = check_backpressure topic eng
                             in case commit of
                                  Inl e \<Rightarrow> log_error topic e eng
                                | Inr _ \<Rightarrow> set_consumer topic (\<lambda>c. c\<lparr>cs_committed := cs_position c\<rparr>) eng)))
          else eng)"

section \<open>Interleavings\<close>

datatype 'op engine_event =
    Start
  | Stop
  | Register 'op "string list" "string list"
  | Deregister string
  | DeregisterDone string nat
  | Consume string "(int \<times> message list) list res" "unit res"
  | Work nat timing
  | Sample metrics_sample

fun engine_step :: "'op operator_api \<Rightarrow> kafka_api \<Rightarrow> 'op engine_event \<Rightarrow> 'op OperatorEngine \<Rightarrow> 'op OperatorEngine" where
  "engine_step api kafka Start eng = engine_start eng"
| "engine_step api kafka Stop eng = engine_stop eng"
| "engine_step api kafka (Register op ins outs) eng = snd (register_operator api kafka op ins outs eng)"
| "engine_step api kafka (Deregister oid) eng = deregister_begin oid eng"
| "engine_step api kafka (DeregisterDone oid q) eng = deregister_end oid q eng"
| "engine_step api kafka (Consume topic poll commit) eng = consume_turn api kafka topic poll commit eng"
| "engine_step api kafka (Work q tm) eng = worker_step api kafka q tm eng"
| "engine_step api kafka (Sample x) eng = eng\<lparr>eng_metrics := update_metrics x (eng_metrics eng)\<rparr>"

definition engine_run :: "'op operator_api \<Rightarrow> kafka_api \<Rightarrow> 'op engine_event list \<Rightarrow> 'op OperatorEngine \<Rightarrow> 'op OperatorEngine" where
  "engine_run api kafka events eng = fold (engine_step api kafka) events eng"

section \<open>What each step leaves alone\<close>

named_theorems engine_simps \<open>fields that a step of the engine does not change\<close>

lemma log_error_frame [engine_simps]:
  "eng_operators (log_error w e eng) = eng_operators eng" "eng_topic_bindings (log_error w e eng) = eng_topic_bindings eng"
  "eng_output_routes (log_error w e eng) = eng_output_routes eng" "eng_consumers (log_error w e eng) = eng_consumers eng"
  "eng_worker_queues (log_error w e eng) = eng_worker_queues eng" "eng_queues (log_error w e eng) = eng_queues eng"
  "eng_bridge (log_error w e eng) = eng_bridge eng" "eng_metrics (log_error w e eng) = eng_metrics eng"
  "eng_config (log_error w e eng) = eng_config eng" "eng_running (log_error w e eng) = eng_running eng"
  "eng_consumer_tasks (log_error w e eng) = eng_consumer_tasks eng" "eng_paused_topics (log_error w e eng) = eng_paused_topics eng"
  "eng_draining (log_error w e eng) = eng_draining eng" "eng_pool (log_error w e eng) = eng_pool eng"
  by (simp_all add: log_error_def)

lemma finish_record_frame [engine_simps]:
  "eng_operators (finish_record kafka oid res s n eng) = eng_operators eng"
  "eng_topic_bindings (finish_record kafka oid res s n eng) = eng_topic_bindings eng"
  "eng_output_routes (finish_record kafka oid res s n eng) = eng_output_routes eng"
  "eng_consumers (finish_record kafka oid res s n eng) = eng_consumers eng"
  "eng_worker_queues (finish_record kafka oid res s n eng) = eng_worker_queues eng"
  "eng_queues (finish_record kafka oid res s n eng) = eng_queues eng"
  "eng_config (finish_record kafka oid res s n eng) = eng_config eng"
  "eng_running (finish_record kafka oid res s n eng) = eng_running eng"
  "eng_consumer_tasks (finish_record kafka oid res s n eng) = eng_consumer_tasks eng"
  "eng_paused_topics (finish_record kafka oid res s n eng) = eng_paused_topics eng"
  "eng_draining (finish_record kafka oid res s n eng) = eng_draining eng"
  "eng_pool (finish_record kafka oid res s n eng) = eng_pool eng"
  "hm_ingest_counts (eng_metrics (finish_record kafka oid res s n eng)) = hm_ingest_counts (eng_metrics eng)"
  by (auto simp: finish_record_def emit_def log_error_def record_latency_def Let_def split: sum.splits prod.splits)

lemma dispatch_frame [engine_simps]:
  "eng_topic_bindings (dispatch api kafka oid v off tm eng) = eng_topic_bindings eng"
  "eng_output_routes (dispatch api kafka oid v off tm eng) = eng_output_routes eng"
  "eng_consumers (dispatch api kafka oid v off tm eng) = eng_consumers eng"
  "eng_worker_queues (dispatch api kafka oid v off tm eng) = eng_worker_queues eng"
  "eng_config (dispatch api kafka oid v off tm eng) = eng_config eng"
  "eng_running (dispatch api kafka oid v off tm eng) = eng_running eng"
  "eng_consumer_tasks (dispatch api kafka oid v off tm eng) = eng_consumer_tasks eng"
  "eng_paused_topics (dispatch api kafka oid v off tm eng) = eng_paused_topics eng"
  "eng_draining (dispatch api kafka oid v off tm eng) = eng_draining eng"
  "hm_ingest_counts (eng_metrics (dispatch api kafka oid v off tm eng)) = hm_ingest_counts (eng_metrics eng)"
  by (auto simp: dispatch_def engine_simps split: option.split prod.split)

lemma dispatch_all_frame [engine_simps]:
  "eng_topic_bindings (dispatch_all api kafka ps v msg eng) = eng_topic_bindings eng"
  "eng_output_routes (dispatch_all api kafka ps v msg eng) = eng_output_routes eng"
  "eng_consumers (dispatch_all api kafka ps v msg eng) = eng_consumers eng"
  "eng_worker_queues (dispatch_all api kafka ps v msg eng) = eng_worker_queues eng"
  "eng_config (dispatch_all api kafka ps v msg eng) = eng_config eng"
  "eng_running (dispatch_all api kafka ps v msg eng) = eng_running eng"
  "eng_consumer_tasks (dispatch_all api kafka ps v msg eng) = eng_consumer_tasks eng"
  "eng_paused_topics (dispatch_all api kafka ps v msg eng) = eng_paused_topics eng"
  "eng_draining (dispatch_all api kafka ps v msg eng) = eng_draining eng"
  "hm_ingest_counts (eng_metrics (dispatch_all api kafka ps v msg eng)) = hm_ingest_counts (eng_metrics eng)"
  by (induction ps arbitrary: eng) (auto simp: engine_simps)

lemma consume_messages_frame [engine_simps]:
  "eng_topic_bindings (snd (consume_messages api kafka topic msgs eng)) = eng_topic_bindings eng"
  "eng_output_routes (snd (consume_messages api kafka topic msgs eng)) = eng_output_routes eng"
  "eng_consumers (snd (consume_messages api kafka topic msgs eng)) = eng_consumers eng"
  "eng_worker_queues (snd (consume_messages api kafka topic msgs eng)) = eng_worker_queues eng"
  "eng_config (snd (consume_messages api kafka topic msgs eng)) = eng_config eng"
  "eng_running (snd (consume_messages api kafka topic msgs eng)) = eng_running eng"
  "eng_consumer_tasks (snd (consume_messages api kafka topic msgs eng)) = eng_consumer_tasks eng"
  "eng_paused_topics (snd (consume_messages api kafka topic msgs eng)) = eng_paused_topics eng"
  "eng_draining (snd (consume_messages api kafka topic msgs eng)) = eng_draining eng"
  "hm_ingest_counts (eng_metrics (snd (consume_messages api kafka topic msgs eng))) = hm_ingest_counts (eng_metrics eng)"
  by (induction msgs arbitrary: eng) (auto simp: engine_simps split: sum.split)

lemma set_consumer_frame [engine_simps]:
  "eng_operators (set_consumer t f eng) = eng_operators eng" "eng_topic_bindings (set_consumer t f eng) = eng_topic_bindings eng"
  "eng_output_routes (set_consumer t f eng) = eng_output_routes eng" "eng_worker_queues (set_consumer t f eng) = eng_worker_queues eng"
  "eng_queues (set_consumer t f eng) = eng_queues eng" "eng_bridge (set_consumer t f eng) = eng_bridge eng"
  "eng_metrics (set_consumer t f eng) = eng_metrics eng" "eng_config (set_consumer t f eng) = eng_config eng"
  "eng_running (set_consumer t f eng) = eng_running eng" "eng_consumer_tasks (set_consumer t f eng) = eng_consumer_tasks eng"
  "eng_paused_topics (set_consumer t f eng) = eng_paused_topics eng" "eng_draining (set_consumer t f eng) = eng_draining eng"
  "eng_pool (set_consumer t f eng) = eng_pool eng" "eng_log (set_consumer t f eng) = eng_log eng"
  by (simp_all add: set_consumer_def split: option.split)

lemma set_consumer_get [engine_simps]:
  "dict_get (eng_consumers (set_consumer t f eng)) t' =
     (if t' = t then map_option f (dict_get (eng_consumers eng) t) else dict_get (eng_consumers eng) t')"
  by (simp add: set_consumer_def dict_simps split: option.split)

lemma backpressure_one_frame [engine_simps]:
  "eng_operators (backpressure_one t oid eng) = eng_operators eng" "eng_topic_bindings (backpressure_one t oid eng) = eng_topic_bindings eng"
  "eng_output_routes (backpressure_one t oid eng) = eng_output_routes eng" "eng_worker_queues (backpressure_one t oid eng) = eng_worker_queues eng"
  "eng_queues (backpressure_one t oid eng) = eng_queues eng" "eng_bridge (backpressure_one t oid eng) = eng_bridge eng"
  "eng_metrics (backpressure_one t oid eng) = eng_metrics eng" "eng_config (backpressure_one t oid eng) = eng_config eng"
  "eng_running (backpressure_one t oid eng) = eng_running eng" "eng_consumer_tasks (backpressure_one t oid eng) = eng_consumer_tasks eng"
  "eng_draining (backpressure_one t oid eng) = eng_draining eng" "eng_pool (backpressure_one t oid eng) = eng_pool eng"
  by (simp_all add: backpressure_one_def Let_def engine_simps split: option.split)

lemma backpressure_fold_frame:
  "eng_operators (fold (backpressure_one t) oids eng) = eng_operators eng"
  "eng_topic_bindings (fold (backpressure_one t) oids eng) = eng_topic_bindings eng"
  "eng_output_routes (fold (backpressure_one t) oids eng) = eng_output_routes eng"
  "eng_worker_queues (fold (backpressure_one t) oids eng) = eng_worker_queues eng"
  "eng_queues (fold (backpressure_one t) oids eng) = eng_queues eng" "eng_bridge (fold (backpressure_one t) oids eng) = eng_bridge eng"
  "eng_metrics (fold (backpressure_one t) oids eng) = eng_metrics eng" "eng_config (fold (backpressure_one t) oids eng) = eng_config eng"
  "eng_running (fold (backpressure_one t) oids eng) = eng_running eng"
  "eng_consumer_tasks (fold (backpressure_one t) oids eng) = eng_consumer_tasks eng"
  "eng_draining (fold (backpressure_one t) oids eng) = eng_draining eng" "eng_pool (fold (backpressure_one t) oids eng) = eng_pool eng"
  by (induction oids arbitrary: eng) (simp_all add: engine_simps)

lemma check_backpressure_frame [engine_simps]:
  "eng_operators (check_backpressure t eng) = eng_operators eng" "eng_topic_bindings (check_backpressure t eng) = eng_topic_bindings eng"
  "eng_output_routes (check_backpressure t eng) = eng_output_routes eng" "eng_worker_queues (check_backpressure t eng) = eng_worker_queues eng"
  "eng_queues (check_backpressure t eng) = eng_queues eng" "eng_bridge (check_backpressure t eng) = eng_bridge eng"
  "eng_metrics (check_backpressure t eng) = eng_metrics eng" "eng_config (check_backpressure t eng) = eng_config eng"
  "eng_running (check_backpressure t eng) = eng_running eng" "eng_consumer_tasks (check_backpressure t eng) = eng_consumer_tasks eng"
  "eng_draining (check_backpressure t eng) = eng_draining eng" "eng_pool (check_backpressure t eng) = eng_pool eng"
  by (simp_all add: check_backpressure_def backpressure_fold_frame)

end
