(* ===== verification/W1.thy ===== *)
theory W1
  imports Operators
begin

text \<open>
  Workload 1, traffic signals: the operators of \<open>workloads/w1/\<close> (\<open>normalizer.py\<close>, \<open>aggregator.py\<close>, \<open>join.py\<close>,
  \<open>classifier.py\<close>).  A window read back from a state dictionary is converted at once, where Python would
  fail only later if it held something that is not a number or not a record.
\<close>

section \<open>Normalizer\<close>

record Normalizer =
  nm_operator_id :: string
  nm_zone_id :: string
  nm_alpha :: real
  nm_mean :: real
  nm_variance :: real
  nm_count :: int

definition Normalizer_new :: "string \<Rightarrow> string \<Rightarrow> real \<Rightarrow> Normalizer" where
  "Normalizer_new oid zone alpha =
     \<lparr>nm_operator_id = oid, nm_zone_id = zone, nm_alpha = alpha, nm_mean = 0, nm_variance = 1, nm_count = 0\<rparr>"

definition normalizer_process :: "Normalizer operator_step" where
  "normalizer_process = (\<lambda>(clk, r) s.
     (case py_float (rec_get r ''sensor_value'' (PFloat 0)) of
        Inl e \<Rightarrow> (Inl e, s)
      | Inr val \<Rightarrow>
          (let count = nm_count s + 1; delta = val - nm_mean s
           in if count = 0 then (Inl ZeroDivisionError, s\<lparr>nm_count := count\<rparr>)
              else
                (let mean = nm_mean s + delta / of_int count;
                     delta2 = val - mean;
                     variance = (of_int (count - 1) * nm_variance s + delta * delta2) / of_int count;
                     std = sqrt (max variance (1 / 10 ^ 9));
                     normalized = (val - mean) / std
                 in (Inr [rec_update r
                       [(''zone_id'', PStr (nm_zone_id s)), (''normalized_value'', PFloat normalized),
                        (''sensor_mean'', PFloat mean), (''sensor_std'', PFloat std)]],
                     s\<lparr>nm_mean := mean, nm_variance := variance, nm_count := count\<rparr>)))))"

definition normalizer_get_state :: "Normalizer \<Rightarrow> py_record" where
  "normalizer_get_state s =
     [(''zone_id'', PStr (nm_zone_id s)), (''mean'', PFloat (nm_mean s)), (''variance'', PFloat (nm_variance s)),
      (''count'', PInt (nm_count s)), (''alpha'', PFloat (nm_alpha s))]"

definition normalizer_restore_state :: "py_record \<Rightarrow> Normalizer \<Rightarrow> Normalizer res" where
  "normalizer_restore_state d s =
     bind_res (py_float (rec_get d ''mean'' (PFloat 0))) (\<lambda>mean.
     bind_res (py_float (rec_get d ''variance'' (PFloat 1))) (\<lambda>variance.
     bind_res (py_int (rec_get d ''count'' (PInt 0))) (\<lambda>count.
     bind_res (py_float (rec_get d ''alpha'' (PFloat (1/100)))) (\<lambda>alpha.
       Inr (s\<lparr>nm_mean := mean, nm_variance := variance, nm_count := count, nm_alpha := alpha\<rparr>)))))"

interpretation normalizer: stream_operator normalizer_process normalizer_get_state normalizer_restore_state
    "Normalizer_new oid zone alpha" "\<lambda>s. nm_operator_id s = oid \<and> nm_zone_id s = zone" for oid zone alpha
  by unfold_locales
    (auto simp: Normalizer_new_def normalizer_process_def normalizer_get_state_def normalizer_restore_state_def
       dict_get_default_def Let_def split: sum.splits)

section \<open>Window aggregation\<close>

record FeatureAggWindow =
  fa_operator_id :: string
  fa_zone_id :: string
  fa_window_size :: nat
  fa_window :: "real list"
  fa_emit_every :: int
  fa_count_since_emit :: int

definition FeatureAggWindow_new :: "string \<Rightarrow> string \<Rightarrow> nat \<Rightarrow> FeatureAggWindow" where
  "FeatureAggWindow_new oid zone window_size =
     \<lparr>fa_operator_id = oid, fa_zone_id = zone, fa_window_size = window_size, fa_window = [], fa_emit_every = 100,
      fa_count_since_emit = 0\<rparr>"

text \<open>The record of a window that is not empty.\<close>

definition window_record :: "string \<Rightarrow> real list \<Rightarrow> pyval \<Rightarrow> py_record" where
  "window_record zone w source_ts =
     [(''zone_id'', PStr zone), (''agg_sum'', PFloat (sum_list w)), (''agg_mean'', PFloat (mean_of w)),
      (''agg_min'', PFloat (Min (set w))), (''agg_max'', PFloat (Max (set w))), (''agg_p95'', PFloat (p95 w)),
      (''agg_stdev'', PFloat (if 1 < length w then stdev_of w else 0)), (''window_count'', PInt (int (length w))),
      (''source_ts'', source_ts)]"

definition feature_agg_process :: "FeatureAggWindow operator_step" where
  "feature_agg_process = (\<lambda>(clk, r) s.
     (case py_float (rec_get r ''normalized_value'' (PFloat 0)) of
        Inl e \<Rightarrow> (Inl e, s)
      | Inr val \<Rightarrow>
          (let s = s\<lparr>fa_window := deque_append (fa_window_size s) (fa_window s) val,
                     fa_count_since_emit := fa_count_since_emit s + 1\<rparr>
           in if fa_count_since_emit s < fa_emit_every s then (Inr [], s)
              else
                (let s = s\<lparr>fa_count_since_emit := 0\<rparr>
                 in if fa_window s = [] then (Inl (Exc ''mean requires at least one data point''), s)
                    else (Inr [window_record (fa_zone_id s) (fa_window s) (rec_get r ''timestamp'' (PInt 0))], s)))))"

definition feature_agg_get_state :: "FeatureAggWindow \<Rightarrow> py_record" where
  "feature_agg_get_state s =
     [(''zone_id'', PStr (fa_zone_id s)), (''window'', PList (map PFloat (fa_window s))),
      (''window_size'', PInt (int (fa_window_size s))), (''emit_every'', PInt (fa_emit_every s))]"

definition feature_agg_restore_state :: "py_record \<Rightarrow> FeatureAggWindow \<Rightarrow> FeatureAggWindow res" where
  "feature_agg_restore_state d s =
     bind_res (py_int (rec_get d ''window_size'' (PInt 1000))) (\<lambda>n.
     bind_res (as_list (rec_get d ''window'' (PList []))) (\<lambda>vs.
     bind_res (mapM_res as_number vs) (\<lambda>window.
     if n < 0 then Inl (ValueError ''maxlen must be non-negative'')
     else
       bind_res (py_int (rec_get d ''emit_every'' (PInt 100))) (\<lambda>emit_every.
         Inr (s\<lparr>fa_window_size := nat n, fa_window := deque_of (nat n) window, fa_emit_every := emit_every,
               fa_count_since_emit := 0\<rparr>)))))"

section \<open>Join\<close>

record MultiStreamJoin =
  mj_operator_id :: string
  mj_n_zones :: int
  mj_window_timeout :: real
  mj_current_window :: "(string, py_record) dict"
  mj_window_start :: real

definition MultiStreamJoin_new :: "string \<Rightarrow> int \<Rightarrow> real \<Rightarrow> real \<Rightarrow> MultiStreamJoin" where
  "MultiStreamJoin_new oid n_zones timeout_ms now =
     \<lparr>mj_operator_id = oid, mj_n_zones = n_zones, mj_window_timeout = timeout_ms / 1000, mj_current_window = [],
      mj_window_start = now\<rparr>"

definition emit_join :: "real \<Rightarrow> (string, py_record) dict \<Rightarrow> py_record" where
  "emit_join wall_now w =
     dict_of
       (concat (map (\<lambda>(zone, agg).
          [(zone @ ''_mean'', rec_get agg ''agg_mean'' (PFloat 0)), (zone @ ''_max'', rec_get agg ''agg_max'' (PFloat 0)),
           (zone @ ''_p95'', rec_get agg ''agg_p95'' (PFloat 0))]) w))
       [(''join_timestamp'', PFloat wall_now), (''zones_present'', PList (map PStr (dict_keys w)))]"

definition join_process :: "MultiStreamJoin operator_step" where
  "join_process = (\<lambda>(clk, r) s.
     (case as_key (rec_get r ''zone_id'' (PStr ''unknown'')) of
        Inl e \<Rightarrow> (Inl e, s)
      | Inr zone \<Rightarrow>
          (let s = s\<lparr>mj_current_window := dict_set zone r (mj_current_window s)\<rparr>;
               timeout_exceeded = mj_window_timeout s < clk_mono clk - mj_window_start s;
               all_present = mj_n_zones s \<le> int (length (mj_current_window s))
           in if all_present \<or> timeout_exceeded
              then (Inr [emit_join (clk_wall clk) (mj_current_window s)],
                    s\<lparr>mj_current_window := [], mj_window_start := clk_mono clk\<rparr>)
              else (Inr [], s))))"

definition join_get_state :: "MultiStreamJoin \<Rightarrow> py_record" where
  "join_get_state s =
     [(''n_zones'', PInt (mj_n_zones s)), (''window_timeout'', PFloat (mj_window_timeout s)),
      (''current_window'', PDict (map (\<lambda>(z, r). (z, PDict r)) (mj_current_window s)))]"

definition join_restore_state :: "real \<Rightarrow> py_record \<Rightarrow> MultiStreamJoin \<Rightarrow> MultiStreamJoin res" where
  "join_restore_state now d s =
     bind_res (py_int (rec_get d ''n_zones'' (PInt 5))) (\<lambda>n_zones.
     bind_res (py_float (rec_get d ''window_timeout'' (PFloat (1/10)))) (\<lambda>timeout.
     bind_res (as_dict (rec_get d ''current_window'' (PDict []))) (\<lambda>w.
     bind_res (mapM_res (\<lambda>(z, v). bind_res (as_dict v) (\<lambda>r. Inr (z, r))) w) (\<lambda>window.
       Inr (s\<lparr>mj_n_zones := n_zones, mj_window_timeout := timeout, mj_current_window := window,
             mj_window_start := now\<rparr>)))))"

section \<open>Classifier\<close>

record BinaryClassifier =
  bc_operator_id :: string
  bc_threshold :: real
  bc_tp :: int
  bc_fp :: int
  bc_tn :: int
  bc_fn :: int

definition BinaryClassifier_new :: "string \<Rightarrow> real \<Rightarrow> BinaryClassifier" where
  "BinaryClassifier_new oid threshold =
     \<lparr>bc_operator_id = oid, bc_threshold = threshold, bc_tp = 0, bc_fp = 0, bc_tn = 0, bc_fn = 0\<rparr>"

definition ends_with :: "string \<Rightarrow> string \<Rightarrow> bool" where
  "ends_with suffix s \<longleftrightarrow> length suffix \<le> length s \<and> drop (length s - length suffix) s = suffix"

definition classifier_process :: "BinaryClassifier operator_step" where
  "classifier_process = (\<lambda>(clk, r) s.
     (case mapM_res as_number (map snd (filter (\<lambda>(k, v). ends_with ''_max'' k) r)) of
        Inl e \<Rightarrow> (Inl e, s)
      | Inr zone_maxes \<Rightarrow>
          (let score = (if zone_maxes = [] then 0 else sum_list zone_maxes / of_nat (length zone_maxes));
               label = (if bc_threshold s \<le> score then 1 else 0 :: int);
               confidence = (if label = 1 then score else 1 - score)
           in (Inr [rec_update r
                 [(''label'', PInt label), (''score'', PFloat (py_round 4 score)),
                  (''confidence'', PFloat (py_round 4 confidence)), (''threshold'', PFloat (bc_threshold s))]], s))))"

definition classifier_get_state :: "BinaryClassifier \<Rightarrow> py_record" where
  "classifier_get_state s =
     [(''threshold'', PFloat (bc_threshold s)), (''tp'', PInt (bc_tp s)), (''fp'', PInt (bc_fp s)),
      (''tn'', PInt (bc_tn s)), (''fn'', PInt (bc_fn s))]"

definition classifier_restore_state :: "py_record \<Rightarrow> BinaryClassifier \<Rightarrow> BinaryClassifier res" where
  "classifier_restore_state d s =
     bind_res (py_float (rec_get d ''threshold'' (PFloat (6/10)))) (\<lambda>threshold.
     bind_res (py_int (rec_get d ''tp'' (PInt 0))) (\<lambda>tp.
     bind_res (py_int (rec_get d ''fp'' (PInt 0))) (\<lambda>fp.
     bind_res (py_int (rec_get d ''tn'' (PInt 0))) (\<lambda>tn.
     bind_res (py_int (rec_get d ''fn'' (PInt 0))) (\<lambda>fn.
       Inr (s\<lparr>bc_threshold := threshold, bc_tp := tp, bc_fp := fp, bc_tn := tn, bc_fn := fn\<rparr>))))))"

interpretation classifier: stream_operator classifier_process classifier_get_state classifier_restore_state
    "BinaryClassifier_new oid threshold" "\<lambda>s. bc_operator_id s = oid" for oid threshold
  by unfold_locales
    (auto simp: BinaryClassifier_new_def classifier_process_def classifier_get_state_def classifier_restore_state_def
       dict_get_default_def Let_def split: sum.splits)

section \<open>Pipeline\<close>

definition ZONES :: "string list" where
  "ZONES = [''zone_1'', ''zone_2'', ''zone_3'', ''zone_4'', ''zone_5'']"

datatype w1_operator =
    W1_Normalizer Normalizer
  | W1_FeatureAggWindow FeatureAggWindow
  | W1_MultiStreamJoin MultiStreamJoin
  | W1_BinaryClassifier BinaryClassifier

fun w1_operator_id :: "w1_operator \<Rightarrow> string" where
  "w1_operator_id (W1_Normalizer op) = nm_operator_id op"
| "w1_operator_id (W1_FeatureAggWindow op) = fa_operator_id op"
| "w1_operator_id (W1_MultiStreamJoin op) = mj_operator_id op"
| "w1_operator_id (W1_BinaryClassifier op) = bc_operator_id op"

definition build_w1_pipeline :: "real \<Rightarrow> w1_operator pipeline" where
  "build_w1_pipeline now =
     map (\<lambda>zone. (W1_Normalizer (Normalizer_new (''normalizer-'' @ zone) zone (1/100)),
                    [''w1-raw-'' @ zone], [''w1-norm-'' @ zone])) ZONES @
     map (\<lambda>zone. (W1_FeatureAggWindow (FeatureAggWindow_new (''agg-'' @ zone) zone 1000),
                    [''w1-norm-'' @ zone], [''w1-agg-'' @ zone])) ZONES @
     [(W1_MultiStreamJoin (MultiStreamJoin_new ''multi-join'' 5 100 now), map (\<lambda>z. ''w1-agg-'' @ z) ZONES, [''w1-joined'']),
      (W1_BinaryClassifier (BinaryClassifier_new ''classifier'' (6/10)), [''w1-joined''], [''w1-classified''])]"

text \<open>The wiring, without the operators' states.\<close>

definition w1_shape :: "string pipeline" where
  "w1_shape =
     map (\<lambda>zone. (''normalizer-'' @ zone, [''w1-raw-'' @ zone], [''w1-norm-'' @ zone])) ZONES @
     map (\<lambda>zone. (''agg-'' @ zone, [''w1-norm-'' @ zone], [''w1-agg-'' @ zone])) ZONES @
     [(''multi-join'', map (\<lambda>z. ''w1-agg-'' @ z) ZONES, [''w1-joined'']),
      (''classifier'', [''w1-joined''], [''w1-classified''])]"

lemma w1_shape: "pipeline_shape w1_operator_id (build_w1_pipeline now) = w1_shape"
  by (simp add: pipeline_shape_def build_w1_pipeline_def w1_shape_def ZONES_def Normalizer_new_def
      FeatureAggWindow_new_def MultiStreamJoin_new_def BinaryClassifier_new_def)

lemma w1_order: "topological_order (pipeline_dag w1_shape) = Inr (map fst w1_shape)"
  by code_simp

lemma w1_distinct: "distinct (map fst w1_shape)" "length w1_shape = 12"
  by code_simp+

section \<open>Classes and objectives\<close>

definition Normalizer_requirements :: "string \<times> real option" where
  "Normalizer_requirements = (''standard'', Some 5)"

definition FeatureAggWindow_requirements :: "string \<times> real option" where
  "FeatureAggWindow_requirements = (BaseOperator_lambda_class, Some 5)"

definition MultiStreamJoin_requirements :: "string \<times> real option" where
  "MultiStreamJoin_requirements = (''standard'', Some 5)"

definition BinaryClassifier_requirements :: "string \<times> real option" where
  "BinaryClassifier_requirements = (''critical'', Some 5)"

fun w1_operator_type :: "w1_operator \<Rightarrow> string" where
  "w1_operator_type (W1_Normalizer op) = ''NormalizerOperator''"
| "w1_operator_type (W1_FeatureAggWindow op) = ''FeatureAggWindow''"
| "w1_operator_type (W1_MultiStreamJoin op) = ''MultiStreamJoin''"
| "w1_operator_type (W1_BinaryClassifier op) = ''BinaryClassifier''"

fun w1_step :: "w1_operator operator_step" where
  "w1_step x (W1_Normalizer op) = lift_step W1_Normalizer normalizer_process x op"
| "w1_step x (W1_FeatureAggWindow op) = lift_step W1_FeatureAggWindow feature_agg_process x op"
| "w1_step x (W1_MultiStreamJoin op) = lift_step W1_MultiStreamJoin join_process x op"
| "w1_step x (W1_BinaryClassifier op) = lift_step W1_BinaryClassifier classifier_process x op"

fun w1_get_state :: "w1_operator \<Rightarrow> py_record" where
  "w1_get_state (W1_Normalizer op) = normalizer_get_state op"
| "w1_get_state (W1_FeatureAggWindow op) = feature_agg_get_state op"
| "w1_get_state (W1_MultiStreamJoin op) = join_get_state op"
| "w1_get_state (W1_BinaryClassifier op) = classifier_get_state op"

section \<open>Statistics of the normalizer\<close>

definition sensor_value :: "stream_input \<Rightarrow> real res" where
  "sensor_value = (\<lambda>(clk, r). py_float (rec_get r ''sensor_value'' (PFloat 0)))"

definition normalizer_inv :: "real list \<Rightarrow> Normalizer \<Rightarrow> bool" where
  "normalizer_inv vs s \<longleftrightarrow>
     nm_count s = int (length vs) \<and> nm_mean s = mean_of vs \<and>
     (vs \<noteq> [] \<longrightarrow> nm_variance s = sq_dev vs / of_nat (length vs))"

lemma normalizer_inv_step:
  assumes inv: "normalizer_inv vs s" and read: "sensor_value x = Inr v"
  shows "normalizer_inv (vs @ [v]) (snd (normalizer_process x s))"
proof -
  obtain clk r where x: "x = (clk, r)" by (rule prod.exhaust)
  let ?n = "of_nat (Suc (length vs)) :: real"
  have c: "nm_count s + 1 = int (Suc (length vs))" using inv by (simp add: normalizer_inv_def)
  have f: "py_float (rec_get r ''sensor_value'' (PFloat 0)) = Inr v" using read x by (simp add: sensor_value_def)
  have mean: "nm_mean s + (v - nm_mean s) / ?n = mean_of (vs @ [v])"
    using inv welford_mean [of vs v] by (simp add: normalizer_inv_def)
  have old: "of_nat (length vs) * nm_variance s = sq_dev vs"
    using inv by (cases "vs = []") (auto simp: normalizer_inv_def sq_dev_def)
  have mean': "nm_mean s + (v - nm_mean s) / (of_nat (length vs) + 1) = mean_of (vs @ [v])"
    using mean by (simp add: add.commute)
  have s': "snd (normalizer_process x s) = s\<lparr>nm_mean := mean_of (vs @ [v]),
      nm_variance := (sq_dev vs + (v - nm_mean s) * (v - mean_of (vs @ [v]))) / (of_nat (length vs) + 1),
      nm_count := int (length vs) + 1\<rparr>"
    unfolding x normalizer_process_def split f using c mean' old by (simp add: Let_def)
  show ?thesis
    using inv welford_sq [of vs v] unfolding s' by (simp add: normalizer_inv_def add.commute)
qed

text \<open>The normalizer's running statistics are the statistics of everything it has read: after any stream of
  readings its mean is their arithmetic mean and its variance their population variance, although it
  starts from a variance of one.\<close>

theorem normalizer_statistics:
  assumes "mapM_res sensor_value xs = Inr vs" "vs \<noteq> []"
    and "s = snd (run_operator normalizer_process xs (Normalizer_new oid zone alpha))"
  shows "nm_count s = int (length vs) \<and> nm_mean s = mean_of vs \<and>
    nm_variance s = sum_list (map (\<lambda>v. (v - mean_of vs)\<^sup>2) vs) / of_nat (length vs)"
proof -
  have "normalizer_inv [] (Normalizer_new oid zone alpha)"
    by (simp add: normalizer_inv_def Normalizer_new_def mean_of_def)
  from run_operator_reads [of normalizer_inv, OF normalizer_inv_step this assms(1)] show ?thesis
    using assms(2,3) by (simp add: normalizer_inv_def sq_dev_def)
qed

definition sample_readings :: "stream_input list" where
  "sample_readings = map (\<lambda>v. (\<lparr>clk_wall = 0, clk_mono = 0\<rparr>, [(''sensor_value'', PInt v)])) [2, 4, 6]"

theorem normalizer_statistics_witness:
  "nm_mean (snd (run_operator normalizer_process sample_readings (Normalizer_new ''n'' ''zone_1'' (1/100)))) = 4"
  using normalizer_statistics [of sample_readings "[2, 4, 6]" _ "''n''" "''zone_1''" "1/100"]
  by (simp add: sample_readings_def sensor_value_def dict_get_default_def mean_of_def)

section \<open>Emissions of the window\<close>

definition window_value :: "stream_input \<Rightarrow> real res" where
  "window_value = (\<lambda>(clk, r). py_float (rec_get r ''normalized_value'' (PFloat 0)))"

definition input_ts :: "stream_input \<Rightarrow> pyval" where
  "input_ts = (\<lambda>(clk, r). rec_get r ''timestamp'' (PInt 0))"

definition window_emission :: "string \<Rightarrow> nat \<Rightarrow> real list \<Rightarrow> stream_input \<Rightarrow> nat \<Rightarrow> py_record list" where
  "window_emission zone wsz seen x k =
     (if k mod 100 = 0 then [window_record zone (deque_of wsz seen) (input_ts x)] else [])"

lemma feature_agg_step:
  assumes "0 < wsz" "fa_window_size s = wsz" "fa_window s = deque_of wsz seen" "fa_emit_every s = 100"
    and "fa_zone_id s = zone" "fa_count_since_emit s = int (k mod 100)" "window_value x = Inr v"
  shows "feature_agg_process x s =
    (Inr (window_emission zone wsz (seen @ [v]) x (Suc k)),
     s\<lparr>fa_window := deque_of wsz (seen @ [v]), fa_count_since_emit := int (Suc k mod 100)\<rparr>)"
proof -
  obtain clk r where x: "x = (clk, r)" by (rule prod.exhaust)
  have f: "py_float (rec_get r ''normalized_value'' (PFloat 0)) = Inr v" using assms(7) x by (simp add: window_value_def)
  have ne: "deque_of wsz (seen @ [v]) \<noteq> []" using assms(1) by (simp add: deque_of_def)
  have w: "deque_append (fa_window_size s) (fa_window s) v = deque_of wsz (seen @ [v])"
    using assms(2,3) by (simp add: deque_append_deque_of)
  have m: "Suc k mod 100 = (if k mod 100 = 99 then 0 else Suc (k mod 100))"
    by (simp add: mod_Suc)
  have lt: "k mod 100 < 100" by simp
  show ?thesis
    unfolding x feature_agg_process_def split f using assms(2,4-6) ne w m lt
    by (auto simp: Let_def window_emission_def input_ts_def)
qed

lemma feature_agg_run:
  assumes "0 < wsz" "fa_window_size s = wsz" "fa_window s = deque_of wsz seen" "fa_emit_every s = 100"
    and "fa_zone_id s = zone" "fa_count_since_emit s = int (k mod 100)" "mapM_res window_value xs = Inr vs"
  shows "fst (run_operator feature_agg_process xs s) =
      map (\<lambda>i. Inr (window_emission zone wsz (seen @ take (Suc i) vs) (xs ! i) (k + Suc i))) [0..<length xs]"
    and "snd (run_operator feature_agg_process xs s) =
      s\<lparr>fa_window := deque_of wsz (seen @ vs), fa_count_since_emit := int ((k + length xs) mod 100)\<rparr>"
proof -
  have "fst (run_operator feature_agg_process xs s) =
      map (\<lambda>i. Inr (window_emission zone wsz (seen @ take (Suc i) vs) (xs ! i) (k + Suc i))) [0..<length xs] \<and>
    snd (run_operator feature_agg_process xs s) =
      s\<lparr>fa_window := deque_of wsz (seen @ vs), fa_count_since_emit := int ((k + length xs) mod 100)\<rparr>"
    using assms
  proof (induction xs arbitrary: s seen k vs)
    case (Cons x xs)
    obtain v vs' where v: "window_value x = Inr v" "mapM_res window_value xs = Inr vs'" "vs = v # vs'"
      using Cons.prems(7) by (auto simp: res_simps)
    note step = feature_agg_step [OF Cons.prems(1-6) v(1)]
    let ?s = "s\<lparr>fa_window := deque_of wsz (seen @ [v]), fa_count_since_emit := int (Suc k mod 100)\<rparr>"
    have IH: "fst (run_operator feature_agg_process xs ?s) =
        map (\<lambda>i. Inr (window_emission zone wsz ((seen @ [v]) @ take (Suc i) vs') (xs ! i) (Suc k + Suc i))) [0..<length xs] \<and>
      snd (run_operator feature_agg_process xs ?s) =
        ?s\<lparr>fa_window := deque_of wsz ((seen @ [v]) @ vs'), fa_count_since_emit := int ((Suc k + length xs) mod 100)\<rparr>"
      by (rule Cons.IH [OF Cons.prems(1) _ _ _ _ _ v(2)]) (use Cons.prems in simp_all)
    have u: "[0..<length (x # xs)] = 0 # map Suc [0..<length xs]"
      by (simp add: map_Suc_upt upt_conv_Cons del: upt_Suc)
    show ?case
      unfolding u run_operator_Cons using step IH v(3) by (simp add: comp_def)
  qed simp
  then show "fst (run_operator feature_agg_process xs s) =
      map (\<lambda>i. Inr (window_emission zone wsz (seen @ take (Suc i) vs) (xs ! i) (k + Suc i))) [0..<length xs]"
    and "snd (run_operator feature_agg_process xs s) =
      s\<lparr>fa_window := deque_of wsz (seen @ vs), fa_count_since_emit := int ((k + length xs) mod 100)\<rparr>" by simp_all
qed

lemma no_emission:
  "n < 100 \<Longrightarrow> map (\<lambda>i. Inr (window_emission zone wsz (f i) (g i) (Suc i))) [0..<n] = replicate n (Inr [])"
  by (rule nth_equalityI) (auto simp: window_emission_def)

text \<open>C20: The window emits every hundredth record, and what it emits are the statistics of the last
  \<open>window_size\<close> values: a sliding window over the stream, not a tumbling one.\<close>

theorem feature_window_emissions:
  assumes "mapM_res window_value xs = Inr vs" "0 < window_size" "i < length xs"
  shows "fst (run_operator feature_agg_process xs (FeatureAggWindow_new oid zone window_size)) ! i =
    Inr (if Suc i mod 100 = 0
         then [window_record zone (drop (Suc i - window_size) (take (Suc i) vs)) (input_ts (xs ! i))] else [])"
proof -
  have l: "length vs = length xs" using assms(1) by (rule mapM_res_length)
  have "fst (run_operator feature_agg_process xs (FeatureAggWindow_new oid zone window_size)) =
      map (\<lambda>i. Inr (window_emission zone window_size ([] @ take (Suc i) vs) (xs ! i) (0 + Suc i))) [0..<length xs]"
    by (rule feature_agg_run(1) [OF assms(2) _ _ _ _ _ assms(1)])
       (simp_all add: FeatureAggWindow_new_def deque_of_def)
  moreover have "deque_of window_size (take (Suc i) vs) = drop (Suc i - window_size) (take (Suc i) vs)"
    using assms(3) l by (simp add: deque_of_def min_absorb2)
  ultimately show ?thesis using assms(3) by (simp add: window_emission_def)
qed

definition sample_window_input :: "nat \<Rightarrow> stream_input list" where
  "sample_window_input n = replicate n (\<lparr>clk_wall = 0, clk_mono = 0\<rparr>, [(''normalized_value'', PFloat 1)])"

lemma sample_window_values: "mapM_res window_value (sample_window_input n) = Inr (replicate n 1)"
  by (induction n) (simp_all add: sample_window_input_def window_value_def dict_get_default_def)

theorem feature_window_emissions_witness:
  "fst (run_operator feature_agg_process (sample_window_input 100) (FeatureAggWindow_new ''a'' ''zone_1'' 1000)) ! 0 = Inr []"
  using feature_window_emissions [OF sample_window_values, of 1000 0 100 "''a''" "''zone_1''"]
  by (simp add: sample_window_input_def)

text \<open>A migration makes the window lose its place.  The counter of records since the last emission is
  not part of the saved state: of two parts of a stream that are each shorter than a hundred records but
  together are not, the operator that is moved in between emits nothing, the one that stays emits at the
  hundredth record.\<close>

theorem feature_window_migration_delays:
  assumes "mapM_res window_value (xs @ ys) = Inr vs" "0 < window_size"
    and "length xs < 100" "length ys < 100" "100 \<le> length xs + length ys"
  shows "(\<exists>t. run_migrating feature_agg_process feature_agg_get_state feature_agg_restore_state
        (FeatureAggWindow_new oid zone window_size) [xs, ys] (FeatureAggWindow_new oid zone window_size) =
      Inr (replicate (length xs + length ys) (Inr []), t)) \<and>
    fst (run_operator feature_agg_process (xs @ ys) (FeatureAggWindow_new oid zone window_size)) ! 99 =
      Inr [window_record zone (drop (100 - window_size) (take 100 vs)) (input_ts ((xs @ ys) ! 99))]"
proof -
  let ?f = "FeatureAggWindow_new oid zone window_size"
  obtain vx vy where v: "mapM_res window_value xs = Inr vx" "mapM_res window_value ys = Inr vy" "vs = vx @ vy"
  proof -
    have "\<exists>vx vy. mapM_res window_value xs = Inr vx \<and> mapM_res window_value ys = Inr vy \<and> vs = vx @ vy"
      using assms(1) by (induction xs arbitrary: vs) (auto simp: res_simps)
    then show ?thesis using that by blast
  qed
  have l: "length vs = length xs + length ys" using mapM_res_length [OF assms(1)] by simp
  note runx = feature_agg_run [of window_size ?f "[]" zone 0, OF assms(2) _ _ _ _ _ v(1)]
  have sx: "snd (run_operator feature_agg_process xs ?f) =
      ?f\<lparr>fa_window := deque_of window_size vx, fa_count_since_emit := int (length xs)\<rparr>"
    using runx(2) assms(3) by (simp add: FeatureAggWindow_new_def deque_of_def)
  have fx: "fst (run_operator feature_agg_process xs ?f) = replicate (length xs) (Inr [])"
    by (subst runx(1)) (use assms(3) in \<open>simp_all add: FeatureAggWindow_new_def deque_of_def no_emission\<close>)
  let ?s = "?f\<lparr>fa_window := deque_of window_size vx\<rparr>"
  have restore: "feature_agg_restore_state (feature_agg_get_state (snd (run_operator feature_agg_process xs ?f))) ?f = Inr ?s"
    unfolding sx by (simp add: feature_agg_get_state_def feature_agg_restore_state_def FeatureAggWindow_new_def
        dict_get_default_def mapM_res_map mapM_res_id deque_of_bound)
  have fy: "fst (run_operator feature_agg_process ys ?s) = replicate (length ys) (Inr [])"
    by (subst feature_agg_run(1) [of window_size ?s vx zone 0, OF assms(2) _ _ _ _ _ v(2)])
       (use assms(4) in \<open>simp_all add: FeatureAggWindow_new_def no_emission\<close>)
  have all: "fst (run_operator feature_agg_process (xs @ ys) ?f) =
      map (\<lambda>i. Inr (window_emission zone window_size ([] @ take (Suc i) vs) ((xs @ ys) ! i) (0 + Suc i))) [0..<length (xs @ ys)]"
    by (rule feature_agg_run(1) [OF assms(2) _ _ _ _ _ assms(1)])
       (simp_all add: FeatureAggWindow_new_def deque_of_def)
  have "fst (run_operator feature_agg_process (xs @ ys) ?f) ! 99 =
      Inr [window_record zone (drop (100 - window_size) (take 100 vs)) (input_ts ((xs @ ys) ! 99))]"
    unfolding all using assms(5) l by (simp add: window_emission_def deque_of_def min_absorb2)
  moreover have "run_migrating feature_agg_process feature_agg_get_state feature_agg_restore_state ?f [xs, ys] ?f =
      Inr (replicate (length xs + length ys) (Inr []), snd (run_operator feature_agg_process ys ?s))"
    using restore fx fy by (simp add: split_def replicate_add)
  ultimately show ?thesis by blast
qed

theorem feature_window_migration_delays_witness:
  "\<exists>t. run_migrating feature_agg_process feature_agg_get_state feature_agg_restore_state
      (FeatureAggWindow_new ''a'' ''zone_1'' 1000) [sample_window_input 60, sample_window_input 60]
      (FeatureAggWindow_new ''a'' ''zone_1'' 1000) = Inr (replicate 120 (Inr []), t)"
proof -
  have "sample_window_input 60 @ sample_window_input 60 = sample_window_input 120"
    by (simp add: sample_window_input_def flip: replicate_add)
  with sample_window_values [of 120]
  have "mapM_res window_value (sample_window_input 60 @ sample_window_input 60) = Inr (replicate 120 1)" by simp
  from feature_window_migration_delays [OF this, of 1000 "''a''" "''zone_1''"] show ?thesis
    by (simp add: sample_window_input_def)
qed

text \<open>The W1 pipeline is wired as documented: twelve operators with different identifiers, every topic that
  is read is raw or written by an operator, and the operator graph has a topological order from the
  normalizers to the classifier.\<close>

theorem w1_pipeline_ordered:
  "length (build_w1_pipeline now) = 12 \<and>
   distinct (map fst (pipeline_shape w1_operator_id (build_w1_pipeline now))) \<and>
   topological_order (pipeline_dag (pipeline_shape w1_operator_id (build_w1_pipeline now))) =
     Inr (map fst (pipeline_shape w1_operator_id (build_w1_pipeline now)))"
proof -
  have "length (build_w1_pipeline now) = length (pipeline_shape w1_operator_id (build_w1_pipeline now))"
    by (simp add: pipeline_shape_def)
  then show ?thesis using w1_order w1_distinct by (simp add: w1_shape)
qed

end
