(* ===== verification/W2.thy ===== *)
theory W2
  imports Operators
begin

text \<open>
  Workload 2, vehicle detection: the operators of \<open>workloads/w2/\<close> (\<open>detector.py\<close>, \<open>zone_agg.py\<close>,
  \<open>pattern.py\<close>) and its pipeline.  Values read back from a state dictionary without a conversion in the
  source (a timestamp, a history) are checked at once here.
\<close>

section \<open>Vehicle detector\<close>

record VehicleDetector =
  vd_operator_id :: string
  vd_sensor_id :: string
  vd_alpha :: real
  vd_ewma_occ :: real
  vd_ewma_speed :: real
  vd_detection_count :: int
  vd_last_detection_ts :: "real option"
  vd_detection_times :: "real list"

definition VehicleDetector_new :: "string \<Rightarrow> string \<Rightarrow> real \<Rightarrow> VehicleDetector" where
  "VehicleDetector_new oid sensor alpha =
     \<lparr>vd_operator_id = oid, vd_sensor_id = sensor, vd_alpha = alpha, vd_ewma_occ = 0, vd_ewma_speed = 0,
      vd_detection_count = 0, vd_last_detection_ts = None, vd_detection_times = []\<rparr>"

text \<open>The mean of the gaps between consecutive detections, \<open>None\<close> with fewer than two.\<close>

definition headway :: "real list \<Rightarrow> real option" where
  "headway stamps =
     (if 2 \<le> length stamps
      then Some (sum_list (map (\<lambda>i. stamps ! i - stamps ! (i - 1)) [1..<length stamps]) / of_nat (length stamps - 1))
      else None)"

definition detector_update :: "real \<Rightarrow> real \<Rightarrow> real \<Rightarrow> VehicleDetector \<Rightarrow> bool \<times> VehicleDetector" where
  "detector_update occupancy speed ts s =
     (let occ = ewma (vd_alpha s) (vd_ewma_occ s) occupancy;
          spd = ewma (vd_alpha s) (vd_ewma_speed s) speed;
          detected = (15/100 < occ \<and> 2 < spd);
          s = s\<lparr>vd_ewma_occ := occ, vd_ewma_speed := spd\<rparr>
      in (detected,
          if detected
          then s\<lparr>vd_detection_count := vd_detection_count s + 1, vd_last_detection_ts := Some ts,
                 vd_detection_times := deque_append 100 (vd_detection_times s) ts\<rparr>
          else s))"

definition detector_process :: "VehicleDetector operator_step" where
  "detector_process = (\<lambda>(clk, r) s.
     (case bind_res (py_float (rec_get r ''occupancy'' (PFloat 0))) (\<lambda>occupancy.
           bind_res (py_float (rec_get r ''speed_kmh'' (PFloat 0))) (\<lambda>speed.
           bind_res (py_float (rec_get r ''timestamp'' (PFloat (clk_wall clk)))) (\<lambda>ts.
             Inr (occupancy, speed, ts)))) of
        Inl e \<Rightarrow> (Inl e, s)
      | Inr (occupancy, speed, ts) \<Rightarrow>
          (case detector_update occupancy speed ts s of
             (detected, s') \<Rightarrow>
               (Inr [[(''sensor_id'', PStr (vd_sensor_id s')), (''vehicle_detected'', PBool detected),
                      (''ewma_occupancy'', PFloat (py_round 4 (vd_ewma_occ s'))),
                      (''ewma_speed_kmh'', PFloat (py_round 4 (vd_ewma_speed s'))),
                      (''detection_count'', PInt (vd_detection_count s')),
                      (''mean_headway_s'', (case headway (vd_detection_times s') of
                          None \<Rightarrow> PNone | Some h \<Rightarrow> if h = 0 then PNone else PFloat (py_round 3 h))),
                      (''timestamp'', PFloat ts)]], s'))))"

definition detector_get_state :: "VehicleDetector \<Rightarrow> py_record" where
  "detector_get_state s =
     [(''sensor_id'', PStr (vd_sensor_id s)), (''alpha'', PFloat (vd_alpha s)), (''ewma_occ'', PFloat (vd_ewma_occ s)),
      (''ewma_speed'', PFloat (vd_ewma_speed s)), (''detection_count'', PInt (vd_detection_count s)),
      (''last_detection_ts'', opt_float (vd_last_detection_ts s)),
      (''detection_times'', PList (map PFloat (vd_detection_times s)))]"

definition detector_restore_state :: "py_record \<Rightarrow> VehicleDetector \<Rightarrow> VehicleDetector res" where
  "detector_restore_state d s =
     bind_res (py_float (rec_get d ''alpha'' (PFloat (2/10)))) (\<lambda>alpha.
     bind_res (py_float (rec_get d ''ewma_occ'' (PFloat 0))) (\<lambda>occ.
     bind_res (py_float (rec_get d ''ewma_speed'' (PFloat 0))) (\<lambda>spd.
     bind_res (py_int (rec_get d ''detection_count'' (PInt 0))) (\<lambda>count.
     bind_res (as_objective (rec_get d ''last_detection_ts'' PNone)) (\<lambda>last_ts.
     bind_res (as_list (rec_get d ''detection_times'' (PList []))) (\<lambda>vs.
     bind_res (mapM_res as_number vs) (\<lambda>stamps.
       Inr (s\<lparr>vd_alpha := alpha, vd_ewma_occ := occ, vd_ewma_speed := spd, vd_detection_count := count,
             vd_last_detection_ts := last_ts, vd_detection_times := deque_of 100 stamps\<rparr>))))))))"

lemma detector_update_keeps:
  "vd_operator_id (snd (detector_update o' v t s)) = vd_operator_id s"
  "vd_sensor_id (snd (detector_update o' v t s)) = vd_sensor_id s"
  "vd_alpha (snd (detector_update o' v t s)) = vd_alpha s"
  "length (vd_detection_times s) \<le> 100 \<Longrightarrow> length (vd_detection_times (snd (detector_update o' v t s))) \<le> 100"
  by (auto simp: detector_update_def Let_def deque_append_bound)

lemma detector_process_state:
  "snd (detector_process x s) = s \<or> (\<exists>o' v t. snd (detector_process x s) = snd (detector_update o' v t s))"
  by (auto simp: detector_process_def split: sum.splits prod.splits) (metis snd_conv)

definition detector_good :: "string \<Rightarrow> string \<Rightarrow> VehicleDetector \<Rightarrow> bool" where
  "detector_good oid sensor s \<longleftrightarrow>
     vd_operator_id s = oid \<and> vd_sensor_id s = sensor \<and> length (vd_detection_times s) \<le> 100"

interpretation detector: stream_operator detector_process detector_get_state detector_restore_state
    "VehicleDetector_new oid sensor alpha" "detector_good oid sensor" for oid sensor alpha
proof
  show "detector_good oid sensor (VehicleDetector_new oid sensor alpha)"
    by (simp add: detector_good_def VehicleDetector_new_def)
  show "detector_good oid sensor (snd (detector_process x s))" if "detector_good oid sensor s" for s x
    using detector_process_state [of x s] that by (auto simp: detector_good_def detector_update_keeps)
  show "detector_restore_state (detector_get_state s) (VehicleDetector_new oid sensor alpha) = Inr s"
    if "detector_good oid sensor s" for s
    using that by (simp add: detector_good_def detector_restore_state_def detector_get_state_def
        VehicleDetector_new_def dict_get_default_def)
qed

section \<open>Zone aggregator\<close>

record ZoneAggregator =
  za_operator_id :: string
  za_zone_id :: string
  za_n_sensors :: int
  za_sensor_counts :: "(string, int) dict"
  za_zone_total :: int
  za_last_emit_ts :: real
  za_emit_interval :: real

definition ZoneAggregator_new :: "string \<Rightarrow> string \<Rightarrow> int \<Rightarrow> real \<Rightarrow> ZoneAggregator" where
  "ZoneAggregator_new oid zone n_sensors now =
     \<lparr>za_operator_id = oid, za_zone_id = zone, za_n_sensors = n_sensors, za_sensor_counts = [], za_zone_total = 0,
      za_last_emit_ts = now, za_emit_interval = 5\<rparr>"

text \<open>A sensor identifier is looked at as a key only when a vehicle was detected.\<close>

definition zone_process :: "ZoneAggregator operator_step" where
  "zone_process = (\<lambda>(clk, r) s.
     (case (if truthy (rec_get r ''vehicle_detected'' (PBool False))
            then bind_res (as_key (rec_get r ''sensor_id'' (PStr ''unknown''))) (\<lambda>sensor.
              Inr (s\<lparr>za_sensor_counts :=
                      dict_set sensor (dict_get_default (za_sensor_counts s) sensor 0 + 1) (za_sensor_counts s),
                     za_zone_total := za_zone_total s + 1\<rparr>))
            else Inr s) of
        Inl e \<Rightarrow> (Inl e, s)
      | Inr s \<Rightarrow>
          (if za_emit_interval s \<le> clk_mono clk - za_last_emit_ts s
           then (Inr [[(''zone_id'', PStr (za_zone_id s)), (''total_detections'', PInt (za_zone_total s)),
                       (''active_sensors'', PInt (int (length (za_sensor_counts s)))),
                       (''density'', PFloat (of_nat (length (za_sensor_counts s)) / of_int (max (za_n_sensors s) 1))),
                       (''timestamp'', PFloat (clk_wall clk))]],
                 s\<lparr>za_last_emit_ts := clk_mono clk\<rparr>)
           else (Inr [], s))))"

definition zone_get_state :: "ZoneAggregator \<Rightarrow> py_record" where
  "zone_get_state s =
     [(''zone_id'', PStr (za_zone_id s)), (''n_sensors'', PInt (za_n_sensors s)),
      (''sensor_counts'', PDict (map (\<lambda>(k, n). (k, PInt n)) (za_sensor_counts s))),
      (''zone_total'', PInt (za_zone_total s)), (''emit_interval'', PFloat (za_emit_interval s))]"

definition zone_restore_state :: "real \<Rightarrow> py_record \<Rightarrow> ZoneAggregator \<Rightarrow> ZoneAggregator res" where
  "zone_restore_state now d s =
     bind_res (as_key (rec_get d ''zone_id'' (PStr (za_zone_id s)))) (\<lambda>zone.
     bind_res (py_int (rec_get d ''n_sensors'' (PInt 25))) (\<lambda>n_sensors.
     bind_res (as_dict (rec_get d ''sensor_counts'' (PDict []))) (\<lambda>raw.
     bind_res (mapM_res (\<lambda>(k, v). bind_res (py_int v) (\<lambda>n. Inr (k, n))) raw) (\<lambda>counts.
     bind_res (py_int (rec_get d ''zone_total'' (PInt 0))) (\<lambda>total.
     bind_res (py_float (rec_get d ''emit_interval'' (PFloat 5))) (\<lambda>emit_interval.
       Inr (s\<lparr>za_zone_id := zone, za_n_sensors := n_sensors, za_sensor_counts := counts, za_zone_total := total,
             za_emit_interval := emit_interval, za_last_emit_ts := now\<rparr>)))))))"

section \<open>Pattern detector\<close>

record PatternDetector =
  pd_operator_id :: string
  pd_congestion_threshold :: real
  pd_zone_history :: "(string, real list) dict"
  pd_incident_count :: int

definition PatternDetector_new :: "string \<Rightarrow> real \<Rightarrow> PatternDetector" where
  "PatternDetector_new oid threshold =
     \<lparr>pd_operator_id = oid, pd_congestion_threshold = threshold, pd_zone_history = [], pd_incident_count = 0\<rparr>"

definition congested_zones :: "real \<Rightarrow> (string, real list) dict \<Rightarrow> string list" where
  "congested_zones threshold hist =
     map fst (filter (\<lambda>(z, h). h \<noteq> [] \<and> threshold < last h) hist)"

definition pattern_process :: "PatternDetector operator_step" where
  "pattern_process = (\<lambda>(clk, r) s.
     (case bind_res (py_float (rec_get r ''density'' (PFloat 0))) (\<lambda>density.
           bind_res (as_key (rec_get r ''zone_id'' (PStr ''unknown''))) (\<lambda>zone. Inr (density, zone))) of
        Inl e \<Rightarrow> (Inl e, s)
      | Inr (density, zone) \<Rightarrow>
          (let hist = dict_set zone (deque_append 20 (dict_get_default (pd_zone_history s) zone []) density)
                        (pd_zone_history s);
               s = s\<lparr>pd_zone_history := hist\<rparr>;
               congested = congested_zones (pd_congestion_threshold s) hist
           in if 3 \<le> length congested
              then (let s = s\<lparr>pd_incident_count := pd_incident_count s + 1\<rparr>
                    in (Inr [[(''pattern_type'', PStr ''congestion_wave''), (''congested_zones'', PList (map PStr congested)),
                              (''incident_count'', PInt (pd_incident_count s)), (''severity'', PInt (int (length congested))),
                              (''timestamp'', rec_get r ''timestamp'' (PInt 0))]], s))
              else (Inr [], s))))"

definition pattern_get_state :: "PatternDetector \<Rightarrow> py_record" where
  "pattern_get_state s =
     [(''congestion_threshold'', PFloat (pd_congestion_threshold s)),
      (''zone_history'', PDict (map (\<lambda>(z, h). (z, PList (map PFloat h))) (pd_zone_history s))),
      (''incident_count'', PInt (pd_incident_count s))]"

definition history_of :: "string \<times> pyval \<Rightarrow> (string \<times> real list) res" where
  "history_of = (\<lambda>(z, v). bind_res (as_list v) (\<lambda>vs. bind_res (mapM_res as_number vs) (\<lambda>h. Inr (z, deque_of 20 h))))"

definition pattern_restore_state :: "py_record \<Rightarrow> PatternDetector \<Rightarrow> PatternDetector res" where
  "pattern_restore_state d s =
     bind_res (py_float (rec_get d ''congestion_threshold'' (PFloat (7/10)))) (\<lambda>threshold.
     bind_res (py_int (rec_get d ''incident_count'' (PInt 0))) (\<lambda>incidents.
     bind_res (as_dict (rec_get d ''zone_history'' (PDict []))) (\<lambda>raw.
     bind_res (mapM_res history_of raw) (\<lambda>hist.
       Inr (s\<lparr>pd_congestion_threshold := threshold, pd_incident_count := incidents, pd_zone_history := hist\<rparr>)))))"

definition pattern_good :: "string \<Rightarrow> PatternDetector \<Rightarrow> bool" where
  "pattern_good oid s \<longleftrightarrow>
     pd_operator_id s = oid \<and> wf_dict (pd_zone_history s) \<and> (\<forall>p \<in> set (pd_zone_history s). length (snd p) \<le> 20)"

lemma pattern_good_history:
  assumes "pattern_good oid s"
  shows "pattern_good oid (s\<lparr>pd_zone_history :=
    dict_set zone (deque_append 20 (dict_get_default (pd_zone_history s) zone []) x) (pd_zone_history s)\<rparr>)"
proof -
  have "length (dict_get_default (pd_zone_history s) zone []) \<le> 20"
    using assms get_in_set [of "pd_zone_history s" zone]
    by (fastforce simp: pattern_good_def dict_get_default_def split: option.split)
  then show ?thesis
    using assms by (auto simp: pattern_good_def set_update_wf deque_append_bound)
qed

interpretation pattern: stream_operator pattern_process pattern_get_state pattern_restore_state
    "PatternDetector_new oid threshold" "pattern_good oid" for oid threshold
proof
  show "pattern_good oid (PatternDetector_new oid threshold)"
    by (simp add: pattern_good_def PatternDetector_new_def)
  show "pattern_good oid (snd (pattern_process x s))" if good: "pattern_good oid s" for s x
  proof -
    have counted: "pattern_good oid (t\<lparr>pd_incident_count := n\<rparr>) = pattern_good oid t" for t n
      by (simp add: pattern_good_def)
    show ?thesis
      using good pattern_good_history [OF good]
      by (auto simp: pattern_process_def Let_def counted split: sum.splits prod.splits)
  qed
  show "pattern_restore_state (pattern_get_state s) (PatternDetector_new oid threshold) = Inr s"
    if "pattern_good oid s" for s
  proof -
    have "mapM_res history_of (map (\<lambda>(z, h). (z, PList (map PFloat h))) (pd_zone_history s)) = Inr (pd_zone_history s)"
      unfolding mapM_res_map using that
      by (intro mapM_res_id) (auto simp: history_of_def pattern_good_def)
    with that show ?thesis
      by (simp add: pattern_restore_state_def pattern_get_state_def PatternDetector_new_def dict_get_default_def
          pattern_good_def)
  qed
qed

section \<open>Pipeline\<close>

definition N_SENSORS :: nat where "N_SENSORS = 500"
definition N_ZONES :: nat where "N_ZONES = 20"

datatype w2_operator =
    W2_VehicleDetector VehicleDetector
  | W2_ZoneAggregator ZoneAggregator
  | W2_PatternDetector PatternDetector

fun w2_operator_id :: "w2_operator \<Rightarrow> string" where
  "w2_operator_id (W2_VehicleDetector op) = vd_operator_id op"
| "w2_operator_id (W2_ZoneAggregator op) = za_operator_id op"
| "w2_operator_id (W2_PatternDetector op) = pd_operator_id op"

definition zone_name :: "nat \<Rightarrow> string" where
  "zone_name i = ''zone_'' @ pad0 2 (show_nat (i + 1))"

definition build_w2_pipeline :: "real \<Rightarrow> w2_operator pipeline" where
  "build_w2_pipeline now =
     (let sensors_per_zone = N_SENSORS div N_ZONES
      in map (\<lambda>i. (W2_VehicleDetector (VehicleDetector_new (''detector-'' @ pad0 4 (show_nat i)) (''sensor_'' @ pad0 4 (show_nat i)) (2/10)),
                 [''w2-sensors''], [''w2-detections-'' @ zone_name (i div sensors_per_zone)])) [0..<N_SENSORS] @
         map (\<lambda>i. (W2_ZoneAggregator (ZoneAggregator_new (''zone-agg-'' @ zone_name i) (zone_name i) 25 now),
                 [''w2-detections-'' @ zone_name i], [''w2-zone-'' @ zone_name i])) [0..<N_ZONES] @
         [(W2_PatternDetector (PatternDetector_new ''pattern-detector'' (7/10)),
           map (\<lambda>i. ''w2-zone-'' @ zone_name i) [0..<N_ZONES], [''w2-incidents''])])"

lemma zone_name_inj [simp]: "zone_name i = zone_name j \<longleftrightarrow> i = j"
  by (simp add: zone_name_def)

lemma w2_shape:
  "pipeline_shape w2_operator_id (build_w2_pipeline now) =
     map (\<lambda>i. (''detector-'' @ pad0 4 (show_nat i), [''w2-sensors''], [''w2-detections-'' @ zone_name (i div 25)])) [0..<500] @
     map (\<lambda>i. (''zone-agg-'' @ zone_name i, [''w2-detections-'' @ zone_name i], [''w2-zone-'' @ zone_name i])) [0..<20] @
     [(''pattern-detector'', map (\<lambda>i. ''w2-zone-'' @ zone_name i) [0..<20], [''w2-incidents''])]"
  unfolding pipeline_shape_def build_w2_pipeline_def Let_def N_SENSORS_def N_ZONES_def
  by (simp add: VehicleDetector_new_def ZoneAggregator_new_def PatternDetector_new_def comp_def del: upt_rec_numeral)

text \<open>The W2 pipeline has the documented shape: 521 operators with different identifiers, and every zone
  aggregator reads the detections of exactly twenty-five detectors.\<close>

theorem w2_pipeline_shape:
  "length (build_w2_pipeline now) = 521 \<and>
   distinct (map fst (pipeline_shape w2_operator_id (build_w2_pipeline now))) \<and>
   list_all (\<lambda>z. length (filter (\<lambda>(ident, ins, outs). outs = [''w2-detections-'' @ zone_name z])
      (pipeline_shape w2_operator_id (build_w2_pipeline now))) = 25) [0..<20]"
proof -
  have "length (build_w2_pipeline now) = 521"
    by (simp add: build_w2_pipeline_def N_SENSORS_def N_ZONES_def Let_def del: upt_rec_numeral)
  moreover have "distinct (map fst (pipeline_shape w2_operator_id (build_w2_pipeline now)))"
    unfolding w2_shape by (auto simp: distinct_map comp_def inj_on_def zone_name_def simp del: upt_rec_numeral)
  moreover have "length (filter (\<lambda>(ident, ins, outs). outs = [''w2-detections-'' @ zone_name z])
      (pipeline_shape w2_operator_id (build_w2_pipeline now))) = 25" if z: "z < 20" for z
  proof -
    have "length (filter (\<lambda>i. i div 25 = z) [0..<500]) = card ({i. i div 25 = z} \<inter> set [0..<500])"
      by (rule distinct_length_filter) simp
    also have "{i. i div 25 = z} \<inter> set [0..<500] = {25 * z..<25 * z + 25}"
      using z by auto
    finally have "length (filter (\<lambda>i. i div 25 = z) [0..<500]) = 25" by simp
    then show ?thesis unfolding w2_shape by (simp add: filter_map comp_def del: upt_rec_numeral)
  qed
  ultimately show ?thesis unfolding list_all_iff by simp
qed

text \<open>A detector does not look at whose record it reads.  All five hundred detectors read the one topic
  \<open>w2-sensors\<close>, and the sensor named in a record has no influence on what a detector does with it: each
  detector mixes the readings of all the sensors.\<close>

theorem detector_ignores_sensor:
  "detector_process (clk, dict_set ''sensor_id'' v r) s = detector_process (clk, r) s \<and>
   list_all (\<lambda>(op, ins, outs). ins = [''w2-sensors'']) (take 500 (build_w2_pipeline now))"
proof -
  have "rec_get (dict_set ''sensor_id'' v r) k d = rec_get r k d" if "k \<noteq> ''sensor_id''" for k d
    using that by (simp add: dict_get_default_def dict_simps)
  then have "detector_process (clk, dict_set ''sensor_id'' v r) s = detector_process (clk, r) s"
    unfolding detector_process_def by simp
  moreover have "take 500 (build_w2_pipeline now) = map (\<lambda>i. (W2_VehicleDetector (VehicleDetector_new
      (''detector-'' @ pad0 4 (show_nat i)) (''sensor_'' @ pad0 4 (show_nat i)) (2/10)),
      [''w2-sensors''], [''w2-detections-'' @ zone_name (i div 25)])) [0..<500]"
    by (simp add: build_w2_pipeline_def N_SENSORS_def N_ZONES_def Let_def del: upt_rec_numeral)
  ultimately show ?thesis by (simp add: list_all_iff del: upt_rec_numeral)
qed

section \<open>Classes and objectives\<close>

definition VehicleDetector_requirements :: "string \<times> real option" where
  "VehicleDetector_requirements = (''standard'', Some 2000)"

definition ZoneAggregator_requirements :: "string \<times> real option" where
  "ZoneAggregator_requirements = (''batch'', None)"

definition PatternDetector_requirements :: "string \<times> real option" where
  "PatternDetector_requirements = (''batch'', None)"

fun w2_operator_type :: "w2_operator \<Rightarrow> string" where
  "w2_operator_type (W2_VehicleDetector op) = ''VehicleDetector''"
| "w2_operator_type (W2_ZoneAggregator op) = ''ZoneAggregator''"
| "w2_operator_type (W2_PatternDetector op) = ''PatternDetector''"

fun w2_step :: "w2_operator operator_step" where
  "w2_step x (W2_VehicleDetector op) = lift_step W2_VehicleDetector detector_process x op"
| "w2_step x (W2_ZoneAggregator op) = lift_step W2_ZoneAggregator zone_process x op"
| "w2_step x (W2_PatternDetector op) = lift_step W2_PatternDetector pattern_process x op"

fun w2_get_state :: "w2_operator \<Rightarrow> py_record" where
  "w2_get_state (W2_VehicleDetector op) = detector_get_state op"
| "w2_get_state (W2_ZoneAggregator op) = zone_get_state op"
| "w2_get_state (W2_PatternDetector op) = pattern_get_state op"

section \<open>State of a detector\<close>

definition detector_reading :: "stream_input \<Rightarrow> (real \<times> real \<times> real) res" where
  "detector_reading = (\<lambda>(clk, r).
     bind_res (py_float (rec_get r ''occupancy'' (PFloat 0))) (\<lambda>occupancy.
     bind_res (py_float (rec_get r ''speed_kmh'' (PFloat 0))) (\<lambda>speed.
     bind_res (py_float (rec_get r ''timestamp'' (PFloat (clk_wall clk)))) (\<lambda>ts. Inr (occupancy, speed, ts)))))"

definition detector_inv :: "real \<Rightarrow> real \<Rightarrow> (real \<times> real \<times> real) list \<Rightarrow> VehicleDetector \<Rightarrow> bool" where
  "detector_inv alpha hi reads s \<longleftrightarrow>
     vd_alpha s = alpha \<and> 0 \<le> vd_ewma_speed s \<and> vd_ewma_speed s \<le> hi \<and>
     0 \<le> vd_ewma_occ s \<and> vd_ewma_occ s \<le> 1 \<and>
     vd_detection_count s \<le> int (length reads) \<and>
     int (length (vd_detection_times s)) = min 100 (vd_detection_count s)"

lemma detector_inv_step:
  assumes inv: "detector_inv alpha hi reads s" and a: "0 \<le> alpha" "alpha \<le> 1"
    and read: "detector_reading x = Inr v"
    and v: "0 \<le> fst v" "fst v \<le> 1" "0 \<le> fst (snd v)" "fst (snd v) \<le> hi"
  shows "detector_inv alpha hi (reads @ [v]) (snd (detector_process x s))"
proof -
  obtain clk r where x: "x = (clk, r)" by (rule prod.exhaust)
  obtain o' sp ts where vv: "v = (o', sp, ts)" by (rule prod_cases3)
  have "snd (detector_process x s) = snd (detector_update o' sp ts s)"
    using read unfolding x vv detector_process_def detector_reading_def split by (simp split: prod.split)
  moreover have "detector_inv alpha hi (reads @ [v]) (snd (detector_update o' sp ts s))"
    using inv v a ewma_bounds [of alpha 0 "vd_ewma_occ s" 1 o'] ewma_bounds [of alpha 0 "vd_ewma_speed s" hi sp]
    by (auto simp: vv detector_inv_def detector_update_def Let_def deque_append_length)
  ultimately show ?thesis by simp
qed

text \<open>Whatever a detector reads within range, its state stays within range: the averages of the occupancy in
  \<open>[0, 1]\<close> and of the speed below the highest speed, the number of detections at most the number of records,
  and the last hundred detection times kept.\<close>

theorem detector_state_bounds:
  assumes "mapM_res detector_reading xs = Inr reads" "0 \<le> alpha" "alpha \<le> 1" "0 \<le> hi"
    and "\<forall>v \<in> set reads. 0 \<le> fst v \<and> fst v \<le> 1 \<and> 0 \<le> fst (snd v) \<and> fst (snd v) \<le> hi"
    and "s = snd (run_operator detector_process xs (VehicleDetector_new oid sensor alpha))"
  shows "0 \<le> vd_ewma_occ s \<and> vd_ewma_occ s \<le> 1 \<and> 0 \<le> vd_ewma_speed s \<and> vd_ewma_speed s \<le> hi \<and>
    vd_detection_count s \<le> int (length xs) \<and> int (length (vd_detection_times s)) = min 100 (vd_detection_count s)"
proof -
  define I where "I ws t \<longleftrightarrow> ((\<forall>v \<in> set ws. v \<in> set reads) \<longrightarrow> detector_inv alpha hi ws t)" for ws t
  define ok where "ok v \<longleftrightarrow> 0 \<le> fst v \<and> fst v \<le> 1 \<and> 0 \<le> fst (snd v) \<and> fst (snd v) \<le> hi" for v :: "real \<times> real \<times> real"
  have step: "I (ws @ [v]) (snd (detector_process x t))" if "I ws t" "detector_reading x = Inr v" for x t v ws
    using that detector_inv_step [OF _ assms(2,3) that(2)] assms(5) unfolding I_def by auto
  have start: "I [] (VehicleDetector_new oid sensor alpha)"
    using assms(4) by (simp add: I_def detector_inv_def VehicleDetector_new_def)
  have "I ([] @ reads) s" unfolding assms(6) by (rule run_operator_reads [OF step start assms(1)])
  then have "detector_inv alpha hi reads s" by (simp add: I_def)
  with mapM_res_length [OF assms(1)] show ?thesis by (simp add: detector_inv_def)
qed

definition sample_vehicles :: "stream_input list" where
  "sample_vehicles =
     replicate 3 (\<lparr>clk_wall = 5, clk_mono = 0\<rparr>, [(''occupancy'', PFloat (9/10)), (''speed_kmh'', PInt 50)])"

theorem detector_state_bounds_witness:
  "vd_ewma_occ (snd (run_operator detector_process sample_vehicles (VehicleDetector_new ''d'' ''s'' (2/10)))) \<le> 1"
proof -
  have r: "mapM_res detector_reading sample_vehicles = Inr (replicate 3 (9/10, 50, 5))"
    by (simp add: sample_vehicles_def detector_reading_def dict_get_default_def numeral_3_eq_3)
  show ?thesis
    using detector_state_bounds [OF r, of "2/10" 50 _ "''d''" "''s''"] by simp
qed

text \<open>The mean headway is the time from the first to the last kept detection divided by the number of gaps.\<close>

theorem headway_telescopes:
  assumes "2 \<le> length ts"
  shows "headway ts = Some ((last ts - hd ts) / of_nat (length ts - 1))"
proof -
  have "sum_list (map (\<lambda>i. ts ! i - ts ! (i - 1)) [1..<Suc n]) = ts ! n - ts ! 0" for n
    by (induction n) simp_all
  from this [of "length ts - 1"] show ?thesis
    using assms by (cases ts) (simp_all add: headway_def last_conv_nth)
qed

theorem headway_telescopes_witness: "headway [10, 12, 18] = Some ((18 - 10) / of_nat 2)"
  using headway_telescopes [of "[10, 12, 18]"] by simp

section \<open>Congestion\<close>

definition zone_reading :: "stream_input \<Rightarrow> (string \<times> real) res" where
  "zone_reading = (\<lambda>(clk, r).
     bind_res (py_float (rec_get r ''density'' (PFloat 0))) (\<lambda>density.
     bind_res (as_key (rec_get r ''zone_id'' (PStr ''unknown''))) (\<lambda>zone. Inr (zone, density))))"

text \<open>The densities that were read for a zone, in order.\<close>

definition densities :: "(string \<times> real) list \<Rightarrow> string \<Rightarrow> real list" where
  "densities reads z = map snd (filter (\<lambda>p. fst p = z) reads)"

definition pattern_inv :: "real \<Rightarrow> (string \<times> real) list \<Rightarrow> PatternDetector \<Rightarrow> bool" where
  "pattern_inv threshold reads s \<longleftrightarrow>
     pd_congestion_threshold s = threshold \<and> wf_dict (pd_zone_history s) \<and>
     (\<forall>z. dict_get (pd_zone_history s) z = (if densities reads z = [] then None else Some (deque_of 20 (densities reads z))))"

lemma densities_snoc: "densities (reads @ [(z', x)]) z = densities reads z @ (if z = z' then [x] else [])"
  by (simp add: densities_def)

lemma pattern_step:
  assumes inv: "pattern_inv threshold reads s" and read: "zone_reading x = Inr (zone, dens)"
  shows "pattern_inv threshold (reads @ [(zone, dens)]) (snd (pattern_process x s))"
    and "fst (pattern_process x s) \<noteq> Inr [] \<longleftrightarrow>
      3 \<le> length (congested_zones threshold (pd_zone_history (snd (pattern_process x s))))"
proof -
  obtain clk r where x: "x = (clk, r)" by (rule prod.exhaust)
  have f: "py_float (rec_get r ''density'' (PFloat 0)) = Inr dens"
    "as_key (rec_get r ''zone_id'' (PStr ''unknown'')) = Inr zone"
    using read by (auto simp: x zone_reading_def res_simps)
  let ?h = "dict_set zone (deque_append 20 (dict_get_default (pd_zone_history s) zone []) dens) (pd_zone_history s)"
  have s': "pd_zone_history (snd (pattern_process x s)) = ?h"
    "pd_congestion_threshold (snd (pattern_process x s)) = pd_congestion_threshold s"
    using f by (auto simp: x pattern_process_def Let_def)
  have old: "dict_get_default (pd_zone_history s) zone [] = deque_of 20 (densities reads zone)"
    using inv by (simp add: pattern_inv_def dict_get_default_def)
  show "pattern_inv threshold (reads @ [(zone, dens)]) (snd (pattern_process x s))"
    using inv unfolding pattern_inv_def s' old
    by (simp add: dict_simps densities_snoc deque_append_deque_of)
  show "fst (pattern_process x s) \<noteq> Inr [] \<longleftrightarrow>
      3 \<le> length (congested_zones threshold (pd_zone_history (snd (pattern_process x s))))"
    using f inv unfolding s' by (auto simp: x pattern_process_def Let_def pattern_inv_def)
qed

lemma keys_where:
  assumes "wf_dict d"
  shows "k \<in> set (map fst (filter (\<lambda>(k, v). P v \<and> Q v) d)) \<longleftrightarrow> (\<exists>v. map_of d k = Some v \<and> P v \<and> Q v)"
proof
  assume "k \<in> set (map fst (filter (\<lambda>(k, v). P v \<and> Q v) d))"
  then obtain v where "(k, v) \<in> set d" "P v" "Q v" by auto
  then show "\<exists>v. map_of d k = Some v \<and> P v \<and> Q v" using in_set_get [OF assms] by blast
next
  assume "\<exists>v. map_of d k = Some v \<and> P v \<and> Q v"
  then obtain v where v: "map_of d k = Some v" "P v" "Q v" by blast
  have "(k, v) \<in> set d" using v(1) by (rule get_in_set)
  with v(2,3) have "(k, v) \<in> set (filter (\<lambda>(k, v). P v \<and> Q v) d)" by simp
  then show "k \<in> set (map fst (filter (\<lambda>(k, v). P v \<and> Q v) d))" by force
qed

lemma congested_zones_set:
  assumes inv: "pattern_inv threshold reads s"
  shows "set (congested_zones threshold (pd_zone_history s)) =
      {z. densities reads z \<noteq> [] \<and> threshold < last (densities reads z)}"
    and "distinct (congested_zones threshold (pd_zone_history s))"
proof -
  have wf: "wf_dict (pd_zone_history s)" using inv by (simp add: pattern_inv_def)
  have tail: "last (deque_of 20 xs) = last xs" "deque_of 20 xs \<noteq> []" if "xs \<noteq> []" for xs :: "real list"
    using that by (cases xs; simp add: deque_of_def last_drop)+
  have "z \<in> set (congested_zones threshold (pd_zone_history s)) \<longleftrightarrow>
      (\<exists>h. dict_get (pd_zone_history s) z = Some h \<and> h \<noteq> [] \<and> threshold < last h)" for z
    unfolding congested_zones_def by (rule keys_where [OF wf])
  then show "set (congested_zones threshold (pd_zone_history s)) =
      {z. densities reads z \<noteq> [] \<and> threshold < last (densities reads z)}"
    using inv tail by (auto simp: pattern_inv_def split: if_splits)
  show "distinct (congested_zones threshold (pd_zone_history s))"
    using wf by (simp add: congested_zones_def wf_dict_def distinct_map_filter)
qed

text \<open>C21: A congestion wave is reported exactly when at least three zones are congested now: a record is emitted for
  a reading if and only if, after it, the latest densities of at least three zones lie above the
  threshold.\<close>

theorem congestion_wave_reported:
  assumes "mapM_res zone_reading xs = Inr reads" "zone_reading x = Inr reading"
    and "s = snd (run_operator pattern_process xs (PatternDetector_new oid threshold))"
  shows "fst (pattern_process x s) \<noteq> Inr [] \<longleftrightarrow>
    3 \<le> card {z. densities (reads @ [reading]) z \<noteq> [] \<and> threshold < last (densities (reads @ [reading]) z)}"
proof -
  have step: "pattern_inv threshold (ws @ [v]) (snd (pattern_process y t))"
    if "pattern_inv threshold ws t" "zone_reading y = Inr v" for y t v ws
    using pattern_step(1) [of threshold ws t y "fst v" "snd v"] that by simp
  have start: "pattern_inv threshold [] (PatternDetector_new oid threshold)"
    by (simp add: pattern_inv_def PatternDetector_new_def densities_def)
  have "pattern_inv threshold ([] @ reads) s"
    unfolding assms(3) by (rule run_operator_reads [OF step start assms(1)])
  then have inv: "pattern_inv threshold reads s" by simp
  have read: "zone_reading x = Inr (fst reading, snd reading)" using assms(2) by simp
  have inv': "pattern_inv threshold (reads @ [reading]) (snd (pattern_process x s))"
    using pattern_step(1) [OF inv read] by simp
  show ?thesis
    unfolding pattern_step(2) [OF inv read]
    using congested_zones_set [OF inv'] distinct_card [of "congested_zones threshold (pd_zone_history (snd (pattern_process x s)))"]
    by simp
qed

definition sample_zone :: "string \<Rightarrow> stream_input" where
  "sample_zone z = (\<lparr>clk_wall = 0, clk_mono = 0\<rparr>, [(''zone_id'', PStr z), (''density'', PFloat (8/10))])"

theorem congestion_wave_reported_witness:
  "fst (pattern_process (sample_zone ''b'') (snd (run_operator pattern_process [sample_zone ''a'']
     (PatternDetector_new ''p'' (7/10))))) = Inr []"
proof -
  have r: "mapM_res zone_reading [sample_zone ''a''] = Inr [(''a'', 8/10)]" "zone_reading (sample_zone ''b'') = Inr (''b'', 8/10)"
    by (simp_all add: zone_reading_def sample_zone_def dict_get_default_def)
  have "{z. densities ([(''a'', 8/10)] @ [(''b'', 8/10)]) z \<noteq> [] \<and>
      7/10 < last (densities ([(''a'', 8/10)] @ [(''b'', 8/10)]) z)} \<subseteq> {''a'', ''b''}"
    by (auto simp: densities_def split: if_splits)
  from card_mono [OF _ this] have "card {z. densities ([(''a'', 8/10)] @ [(''b'', 8/10)]) z \<noteq> [] \<and>
      7/10 < last (densities ([(''a'', 8/10)] @ [(''b'', 8/10)]) z)} \<le> 2" by simp
  with congestion_wave_reported [OF r refl, of "''p''" "7/10"] show ?thesis by linarith
qed

end
