(* ===== verification/W3.thy ===== *)
theory W3
  imports Operators
begin

text \<open>
  Workload 3, financial stream: the operators of \<open>workloads/w3/\<close> (\<open>risk.py\<close>, \<open>anomaly.py\<close>, \<open>stat_agg.py\<close>,
  \<open>compliance.py\<close>) and its pipeline.
\<close>

section \<open>Numbers with infinities\<close>

text \<open>The running minimum and maximum start from the infinities, the only place where the source stores one.\<close>

datatype xreal = NegInf | Fin real | PosInf

instantiation xreal :: linorder
begin

fun less_eq_xreal :: "xreal \<Rightarrow> xreal \<Rightarrow> bool" where
  "less_eq_xreal NegInf y = True"
| "less_eq_xreal (Fin x) NegInf = False"
| "less_eq_xreal (Fin x) (Fin y) = (x \<le> y)"
| "less_eq_xreal (Fin x) PosInf = True"
| "less_eq_xreal PosInf y = (y = PosInf)"

definition less_xreal :: "xreal \<Rightarrow> xreal \<Rightarrow> bool" where
  "less_xreal x y \<longleftrightarrow> x \<le> y \<and> \<not> y \<le> x"

instance
proof
  fix x y z :: xreal
  show "x < y \<longleftrightarrow> x \<le> y \<and> \<not> y \<le> x" by (rule less_xreal_def)
  show "x \<le> x" by (cases x) simp_all
  show "x \<le> y \<Longrightarrow> y \<le> z \<Longrightarrow> x \<le> z" by (cases x; cases y; cases z) simp_all
  show "x \<le> y \<Longrightarrow> y \<le> x \<Longrightarrow> x = y" by (cases x; cases y) simp_all
  show "x \<le> y \<or> y \<le> x" by (cases x; cases y) auto
qed

end

lemma xreal_min_max [simp]:
  "min PosInf (Fin x) = Fin x" "max NegInf (Fin x) = Fin x"
  "min (Fin x) (Fin y) = Fin (min x y)" "max (Fin x) (Fin y) = Fin (max x y)"
  by (simp_all add: min_def max_def)

section \<open>Risk check\<close>

record RiskCheck =
  rk_operator_id :: string
  rk_category :: string
  rk_limit :: real
  rk_breach_count :: int
  rk_total_checked :: int

definition CATEGORIES :: "(string, real) dict" where
  "CATEGORIES =
     [(''credit'', 5000000), (''market'', 10000000), (''liquidity'', 2000000), (''operational'', 1000000),
      (''counterparty'', 3000000), (''settlement'', 500000), (''model'', 1500000), (''reputational'', 250000)]"

definition RiskCheck_new :: "string \<Rightarrow> string \<Rightarrow> RiskCheck" where
  "RiskCheck_new oid category =
     \<lparr>rk_operator_id = oid, rk_category = category, rk_limit = dict_get_default CATEGORIES category 1000000,
      rk_breach_count = 0, rk_total_checked = 0\<rparr>"

definition risk_process :: "RiskCheck operator_step" where
  "risk_process = (\<lambda>(clk, r) s.
     (case py_float (rec_get r ''exposure'' (PFloat 0)) of
        Inl e \<Rightarrow> (Inl e, s)
      | Inr x \<Rightarrow>
          (let exposure = max 0 x;
               exceeded = rk_limit s < exposure;
               s = s\<lparr>rk_total_checked := rk_total_checked s + 1,
                     rk_breach_count := rk_breach_count s + (if exceeded then 1 else 0)\<rparr>
           in (Inr [rec_update r
                 [(''risk_category'', PStr (rk_category s)), (''limit'', PFloat (rk_limit s)), (''exposure'', PFloat exposure),
                  (''risk_exceeded'', PBool exceeded),
                  (''exposure_ratio'', PFloat (if 0 < rk_limit s then exposure / rk_limit s else 0)),
                  (''breach_count'', PInt (rk_breach_count s))]], s))))"

definition risk_get_state :: "RiskCheck \<Rightarrow> py_record" where
  "risk_get_state s =
     [(''risk_category'', PStr (rk_category s)), (''limit'', PFloat (rk_limit s)),
      (''breach_count'', PInt (rk_breach_count s)), (''total_checked'', PInt (rk_total_checked s))]"

definition risk_restore_state :: "py_record \<Rightarrow> RiskCheck \<Rightarrow> RiskCheck res" where
  "risk_restore_state d s =
     bind_res (as_key (rec_get d ''risk_category'' (PStr (rk_category s)))) (\<lambda>category.
     bind_res (py_float (rec_get d ''limit'' (PFloat 1000000))) (\<lambda>lim.
     bind_res (py_int (rec_get d ''breach_count'' (PInt 0))) (\<lambda>breaches.
     bind_res (py_int (rec_get d ''total_checked'' (PInt 0))) (\<lambda>total.
       Inr (s\<lparr>rk_category := category, rk_limit := lim, rk_breach_count := breaches, rk_total_checked := total\<rparr>)))))"

interpretation risk: stream_operator risk_process risk_get_state risk_restore_state
    "RiskCheck_new oid category" "\<lambda>s. rk_operator_id s = oid" for oid category
  by unfold_locales
    (auto simp: RiskCheck_new_def risk_process_def risk_get_state_def risk_restore_state_def
       dict_get_default_def Let_def split: sum.splits)

section \<open>Anomaly detector\<close>

record AnomalyDetector =
  an_operator_id :: string
  an_metric_class :: string
  an_alpha :: real
  an_z_threshold :: real
  an_ewma_mean :: real
  an_ewma_m2 :: real
  an_anomaly_count :: int
  an_recent_zscores :: "real list"

definition AnomalyDetector_new :: "string \<Rightarrow> string \<Rightarrow> real \<Rightarrow> real \<Rightarrow> AnomalyDetector" where
  "AnomalyDetector_new oid metric alpha z_threshold =
     \<lparr>an_operator_id = oid, an_metric_class = metric, an_alpha = alpha, an_z_threshold = z_threshold,
      an_ewma_mean = 0, an_ewma_m2 = 1, an_anomaly_count = 0, an_recent_zscores = []\<rparr>"

definition anomaly_process :: "AnomalyDetector operator_step" where
  "anomaly_process = (\<lambda>(clk, r) s.
     (case py_float (rec_get r ''value'' (PFloat 0)) of
        Inl e \<Rightarrow> (Inl e, s)
      | Inr val \<Rightarrow>
          (let prev_mean = an_ewma_mean s;
               mean = ewma (an_alpha s) (an_ewma_mean s) val;
               m2 = ewma (an_alpha s) (an_ewma_m2 s) ((val - prev_mean)\<^sup>2);
               std = sqrt (max m2 (1 / 10 ^ 12));
               z = (if 0 < std then \<bar>val - prev_mean\<bar> / std else 0);
               is_anomaly = an_z_threshold s < z;
               s = s\<lparr>an_ewma_mean := mean, an_ewma_m2 := m2,
                     an_recent_zscores := deque_append 100 (an_recent_zscores s) z,
                     an_anomaly_count := an_anomaly_count s + (if is_anomaly then 1 else 0)\<rparr>
           in (Inr [rec_update r
                 [(''metric_class'', PStr (an_metric_class s)), (''is_anomaly'', PBool is_anomaly),
                  (''z_score'', PFloat (py_round 4 z)), (''ewma_mean'', PFloat (py_round 6 mean)),
                  (''ewma_std'', PFloat (py_round 6 std)), (''anomaly_count'', PInt (an_anomaly_count s))]], s))))"

definition anomaly_get_state :: "AnomalyDetector \<Rightarrow> py_record" where
  "anomaly_get_state s =
     [(''metric_class'', PStr (an_metric_class s)), (''alpha'', PFloat (an_alpha s)),
      (''z_threshold'', PFloat (an_z_threshold s)), (''ewma_mean'', PFloat (an_ewma_mean s)),
      (''ewma_m2'', PFloat (an_ewma_m2 s)), (''anomaly_count'', PInt (an_anomaly_count s)),
      (''recent_zscores'', PList (map PFloat (an_recent_zscores s)))]"

definition anomaly_restore_state :: "py_record \<Rightarrow> AnomalyDetector \<Rightarrow> AnomalyDetector res" where
  "anomaly_restore_state d s =
     bind_res (as_key (rec_get d ''metric_class'' (PStr (an_metric_class s)))) (\<lambda>metric.
     bind_res (py_float (rec_get d ''alpha'' (PFloat (2/10)))) (\<lambda>alpha.
     bind_res (py_float (rec_get d ''z_threshold'' (PFloat 3))) (\<lambda>z_threshold.
     bind_res (py_float (rec_get d ''ewma_mean'' (PFloat 0))) (\<lambda>mean.
     bind_res (py_float (rec_get d ''ewma_m2'' (PFloat 1))) (\<lambda>m2.
     bind_res (py_int (rec_get d ''anomaly_count'' (PInt 0))) (\<lambda>count.
     bind_res (as_list (rec_get d ''recent_zscores'' (PList []))) (\<lambda>vs.
     bind_res (mapM_res as_number vs) (\<lambda>zscores.
       Inr (s\<lparr>an_metric_class := metric, an_alpha := alpha, an_z_threshold := z_threshold, an_ewma_mean := mean,
             an_ewma_m2 := m2, an_anomaly_count := count, an_recent_zscores := deque_of 100 zscores\<rparr>)))))))))"

interpretation anomaly: stream_operator anomaly_process anomaly_get_state anomaly_restore_state
    "AnomalyDetector_new oid metric alpha z_threshold"
    "\<lambda>s. an_operator_id s = oid \<and> length (an_recent_zscores s) \<le> 100" for oid metric alpha z_threshold
  by unfold_locales
    (auto simp: AnomalyDetector_new_def anomaly_process_def anomaly_get_state_def anomaly_restore_state_def
       dict_get_default_def Let_def deque_append_bound split: sum.splits)

section \<open>Statistics\<close>

record StatAggregator =
  sa_operator_id :: string
  sa_instrument_class :: string
  sa_count :: int
  sa_mean :: real
  sa_m2 :: real
  sa_min :: xreal
  sa_max :: xreal

definition StatAggregator_new :: "string \<Rightarrow> string \<Rightarrow> StatAggregator" where
  "StatAggregator_new oid instrument =
     \<lparr>sa_operator_id = oid, sa_instrument_class = instrument, sa_count = 0, sa_mean = 0, sa_m2 = 0,
      sa_min = PosInf, sa_max = NegInf\<rparr>"

text \<open>
  \<open>x if x != inf else None\<close>.  The emitted record holds the attribute itself, which is finite as soon as one
  value has been read.
\<close>

fun finite_or_none :: "xreal \<Rightarrow> pyval" where
  "finite_or_none (Fin x) = PFloat x"
| "finite_or_none NegInf = PNone"
| "finite_or_none PosInf = PNone"

definition stat_record :: "StatAggregator \<Rightarrow> real \<Rightarrow> py_record" where
  "stat_record s variance =
     [(''instrument_class'', PStr (sa_instrument_class s)), (''count'', PInt (sa_count s)),
      (''mean'', PFloat (py_round 6 (sa_mean s))), (''std'', PFloat (py_round 6 (sqrt variance))),
      (''variance'', PFloat (py_round 8 variance)), (''min'', finite_or_none (sa_min s)), (''max'', finite_or_none (sa_max s))]"

definition stat_process :: "StatAggregator operator_step" where
  "stat_process = (\<lambda>(clk, r) s.
     (case py_float (rec_get r ''value'' (PFloat 0)) of
        Inl e \<Rightarrow> (Inl e, s)
      | Inr val \<Rightarrow>
          (let count = sa_count s + 1; delta = val - sa_mean s
           in if count = 0 then (Inl ZeroDivisionError, s\<lparr>sa_count := count\<rparr>)
              else
                (let mean = sa_mean s + delta / of_int count;
                     s = s\<lparr>sa_count := count, sa_mean := mean, sa_m2 := sa_m2 s + delta * (val - mean),
                           sa_min := min (sa_min s) (Fin val), sa_max := max (sa_max s) (Fin val)\<rparr>
                 in if sa_count s mod 500 = 0
                    then (let variance = (if 1 < sa_count s then sa_m2 s / of_int (sa_count s - 1) else 0)
                          in if variance < 0 then (Inl (ValueError ''math domain error''), s)
                             else (Inr [stat_record s variance], s))
                    else (Inr [], s)))))"

definition stat_get_state :: "StatAggregator \<Rightarrow> py_record" where
  "stat_get_state s =
     [(''instrument_class'', PStr (sa_instrument_class s)), (''count'', PInt (sa_count s)), (''mean'', PFloat (sa_mean s)),
      (''m2'', PFloat (sa_m2 s)), (''min'', finite_or_none (sa_min s)), (''max'', finite_or_none (sa_max s))]"

definition stat_restore_state :: "py_record \<Rightarrow> StatAggregator \<Rightarrow> StatAggregator res" where
  "stat_restore_state d s =
     bind_res (as_key (rec_get d ''instrument_class'' (PStr (sa_instrument_class s)))) (\<lambda>instrument.
     bind_res (py_int (rec_get d ''count'' (PInt 0))) (\<lambda>count.
     bind_res (py_float (rec_get d ''mean'' (PFloat 0))) (\<lambda>mean.
     bind_res (py_float (rec_get d ''m2'' (PFloat 0))) (\<lambda>m2.
     bind_res (if rec_get d ''min'' PNone = PNone then Inr PosInf
               else bind_res (py_float (rec_get d ''min'' PNone)) (\<lambda>x. Inr (Fin x))) (\<lambda>lo.
     bind_res (if rec_get d ''max'' PNone = PNone then Inr NegInf
               else bind_res (py_float (rec_get d ''max'' PNone)) (\<lambda>x. Inr (Fin x))) (\<lambda>hi.
       Inr (s\<lparr>sa_instrument_class := instrument, sa_count := count, sa_mean := mean, sa_m2 := m2,
             sa_min := lo, sa_max := hi\<rparr>)))))))"

text \<open>The minimum is never minus infinity and the maximum never plus infinity, so \<open>None\<close> is unambiguous.\<close>

definition stat_good :: "string \<Rightarrow> StatAggregator \<Rightarrow> bool" where
  "stat_good oid s \<longleftrightarrow> sa_operator_id s = oid \<and> sa_min s \<noteq> NegInf \<and> sa_max s \<noteq> PosInf"

lemma xreal_min_max_ne:
  "x \<noteq> NegInf \<Longrightarrow> min x (Fin v) \<noteq> NegInf" "x \<noteq> PosInf \<Longrightarrow> max x (Fin v) \<noteq> PosInf"
  by (cases x; simp add: min_def max_def)+

interpretation stat: stream_operator stat_process stat_get_state stat_restore_state
    "StatAggregator_new oid instrument" "stat_good oid" for oid instrument
proof
  show "stat_good oid (StatAggregator_new oid instrument)"
    by (simp add: stat_good_def StatAggregator_new_def)
  show "stat_good oid (snd (stat_process x s))" if "stat_good oid s" for s x
    using that by (cases x) (auto simp: stat_process_def stat_good_def Let_def xreal_min_max_ne split: sum.splits)
  show "stat_restore_state (stat_get_state s) (StatAggregator_new oid instrument) = Inr s" if "stat_good oid s" for s
    using that by (cases "sa_min s"; cases "sa_max s")
      (simp_all add: stat_restore_state_def stat_get_state_def StatAggregator_new_def dict_get_default_def stat_good_def)
qed

section \<open>Compliance log\<close>

record ComplianceLogger =
  cl_operator_id :: string
  cl_domain :: string
  cl_log_seq :: int
  cl_event_counts :: "(string, int) dict"
  cl_first_event_ts :: "real option"
  cl_last_event_ts :: "real option"

definition DOMAINS :: "string list" where
  "DOMAINS = [''mifid2'', ''dodd_frank'', ''basel3'', ''sox'', ''gdpr'', ''aml'']"

definition ComplianceLogger_new :: "string \<Rightarrow> string \<Rightarrow> ComplianceLogger" where
  "ComplianceLogger_new oid compliance_domain =
     \<lparr>cl_operator_id = oid, cl_domain = compliance_domain, cl_log_seq = 0, cl_event_counts = [],
      cl_first_event_ts = None, cl_last_event_ts = None\<rparr>"

definition compliance_process :: "ComplianceLogger operator_step" where
  "compliance_process = (\<lambda>(clk, r) s.
     (case bind_res (py_str (rec_get r ''event_type'' (PStr ''unknown''))) (\<lambda>event_type.
           bind_res (py_float (rec_get r ''timestamp'' (PFloat (clk_wall clk)))) (\<lambda>ts. Inr (event_type, ts))) of
        Inl e \<Rightarrow> (Inl e, s)
      | Inr (event_type, ts) \<Rightarrow>
          (let s = s\<lparr>cl_log_seq := cl_log_seq s + 1,
                     cl_event_counts := dict_set event_type (dict_get_default (cl_event_counts s) event_type 0 + 1)
                                          (cl_event_counts s),
                     cl_first_event_ts := (if cl_first_event_ts s = None then Some ts else cl_first_event_ts s),
                     cl_last_event_ts := Some ts\<rparr>
           in (Inr [rec_update r
                 [(''compliance_domain'', PStr (cl_domain s)), (''log_sequence'', PInt (cl_log_seq s)),
                  (''compliance_logged'', PBool True),
                  (''event_type_counts'', PDict (map (\<lambda>(k, n). (k, PInt n)) (cl_event_counts s))),
                  (''logged_at'', PFloat (clk_wall clk))]], s))))"

definition compliance_get_state :: "ComplianceLogger \<Rightarrow> py_record" where
  "compliance_get_state s =
     [(''domain'', PStr (cl_domain s)), (''log_seq'', PInt (cl_log_seq s)),
      (''event_counts'', PDict (map (\<lambda>(k, n). (k, PInt n)) (cl_event_counts s))),
      (''first_event_ts'', opt_float (cl_first_event_ts s)), (''last_event_ts'', opt_float (cl_last_event_ts s))]"

definition compliance_restore_state :: "py_record \<Rightarrow> ComplianceLogger \<Rightarrow> ComplianceLogger res" where
  "compliance_restore_state d s =
     bind_res (as_key (rec_get d ''domain'' (PStr (cl_domain s)))) (\<lambda>dm.
     bind_res (py_int (rec_get d ''log_seq'' (PInt 0))) (\<lambda>log_seq.
     bind_res (as_dict (rec_get d ''event_counts'' (PDict []))) (\<lambda>raw.
     bind_res (mapM_res (\<lambda>(k, v). bind_res (as_int v) (\<lambda>n. Inr (k, n))) raw) (\<lambda>counts.
     bind_res (as_objective (rec_get d ''first_event_ts'' PNone)) (\<lambda>first_ts.
     bind_res (as_objective (rec_get d ''last_event_ts'' PNone)) (\<lambda>last_ts.
       Inr (s\<lparr>cl_domain := dm, cl_log_seq := log_seq, cl_event_counts := counts, cl_first_event_ts := first_ts,
             cl_last_event_ts := last_ts\<rparr>)))))))"

interpretation compliance: stream_operator compliance_process compliance_get_state compliance_restore_state
    "ComplianceLogger_new oid dm" "\<lambda>s. cl_operator_id s = oid" for oid dm
  by unfold_locales
    (auto simp: ComplianceLogger_new_def compliance_process_def compliance_get_state_def compliance_restore_state_def
       dict_get_default_def Let_def split: sum.splits)

section \<open>Pipeline\<close>

datatype w3_operator =
    W3_RiskCheck RiskCheck
  | W3_AnomalyDetector AnomalyDetector
  | W3_StatAggregator StatAggregator
  | W3_ComplianceLogger ComplianceLogger

fun w3_operator_id :: "w3_operator \<Rightarrow> string" where
  "w3_operator_id (W3_RiskCheck op) = rk_operator_id op"
| "w3_operator_id (W3_AnomalyDetector op) = an_operator_id op"
| "w3_operator_id (W3_StatAggregator op) = sa_operator_id op"
| "w3_operator_id (W3_ComplianceLogger op) = cl_operator_id op"

definition metric_classes :: "string list" where
  "metric_classes = [''price_deviation'', ''volume_spike'', ''spread_anomaly'', ''order_flow_imbalance'']"

definition instruments :: "string list" where
  "instruments =
     [''equities'', ''bonds'', ''fx'', ''commodities'', ''derivatives'', ''etfs'', ''options'', ''futures'', ''swaps'',
      ''indices'', ''crypto'', ''structured_products'']"

definition build_w3_pipeline :: "w3_operator pipeline" where
  "build_w3_pipeline =
     map (\<lambda>category. (W3_RiskCheck (RiskCheck_new (''risk-'' @ category) category),
            [''w3-trades''], [''w3-risk-'' @ category])) (map fst CATEGORIES) @
     map (\<lambda>mc. (W3_AnomalyDetector (AnomalyDetector_new (''anomaly-'' @ mc) mc (2/10) 3),
            [''w3-trades''], [''w3-anomaly-'' @ mc])) metric_classes @
     map (\<lambda>instr. (W3_StatAggregator (StatAggregator_new (''stat-'' @ instr) instr),
            [''w3-trades''], [''w3-stats-'' @ instr])) instruments @
     map (\<lambda>dm. (W3_ComplianceLogger (ComplianceLogger_new (''compliance-'' @ dm) dm),
            [''w3-trades''], [''w3-compliance-'' @ dm])) DOMAINS"

lemma w3_shape:
  "map w3_operator_id (map fst build_w3_pipeline) =
     map ((@) ''risk-'') (map fst CATEGORIES) @ map ((@) ''anomaly-'') metric_classes @
     map ((@) ''stat-'') instruments @ map ((@) ''compliance-'') DOMAINS"
  unfolding build_w3_pipeline_def
  by (simp add: comp_def RiskCheck_new_def AnomalyDetector_new_def StatAggregator_new_def ComplianceLogger_new_def)

text \<open>The W3 pipeline has thirty operators with different identifiers, and none feeds another: its operator graph
  has no edge, so every operator sees the whole stream of trades.\<close>

theorem w3_pipeline_flat:
  "length build_w3_pipeline = 30 \<and> distinct (map w3_operator_id (map fst build_w3_pipeline)) \<and>
   dependencies (pipeline_dag (pipeline_shape w3_operator_id build_w3_pipeline)) = []"
proof (intro conjI)
  show "length build_w3_pipeline = 30"
    by (simp add: build_w3_pipeline_def CATEGORIES_def metric_classes_def instruments_def DOMAINS_def)
  show "distinct (map w3_operator_id (map fst build_w3_pipeline))"
    unfolding w3_shape by (simp add: CATEGORIES_def metric_classes_def instruments_def DOMAINS_def)
  have ins: "\<forall>x \<in> set build_w3_pipeline. fst (snd x) = [''w3-trades'']"
    and outs: "\<forall>x \<in> set build_w3_pipeline. \<forall>t \<in> set (snd (snd x)). t \<noteq> ''w3-trades''"
    by (auto simp: build_w3_pipeline_def)
  show "dependencies (pipeline_dag (pipeline_shape w3_operator_id build_w3_pipeline)) = []"
    using ins outs by (force simp: pipeline_dag_def pipeline_shape_def list_ex_iff)
qed

section \<open>Classes and objectives\<close>

definition RiskCheck_requirements :: "string \<times> real option" where
  "RiskCheck_requirements = (''critical'', Some 1)"

definition AnomalyDetector_requirements :: "string \<times> real option" where
  "AnomalyDetector_requirements = (''critical'', Some 5)"

definition StatAggregator_requirements :: "string \<times> real option" where
  "StatAggregator_requirements = (''batch'', None)"

definition ComplianceLogger_requirements :: "string \<times> real option" where
  "ComplianceLogger_requirements = (''batch'', None)"

fun w3_operator_type :: "w3_operator \<Rightarrow> string" where
  "w3_operator_type (W3_RiskCheck op) = ''RiskCheck''"
| "w3_operator_type (W3_AnomalyDetector op) = ''AnomalyDetector''"
| "w3_operator_type (W3_StatAggregator op) = ''StatAggregator''"
| "w3_operator_type (W3_ComplianceLogger op) = ''ComplianceLogger''"

fun w3_step :: "w3_operator operator_step" where
  "w3_step x (W3_RiskCheck op) = lift_step W3_RiskCheck risk_process x op"
| "w3_step x (W3_AnomalyDetector op) = lift_step W3_AnomalyDetector anomaly_process x op"
| "w3_step x (W3_StatAggregator op) = lift_step W3_StatAggregator stat_process x op"
| "w3_step x (W3_ComplianceLogger op) = lift_step W3_ComplianceLogger compliance_process x op"

fun w3_get_state :: "w3_operator \<Rightarrow> py_record" where
  "w3_get_state (W3_RiskCheck op) = risk_get_state op"
| "w3_get_state (W3_AnomalyDetector op) = anomaly_get_state op"
| "w3_get_state (W3_StatAggregator op) = stat_get_state op"
| "w3_get_state (W3_ComplianceLogger op) = compliance_get_state op"

section \<open>What the operators have counted\<close>

definition stat_reading :: "stream_input \<Rightarrow> real res" where
  "stat_reading = (\<lambda>(clk, r). py_float (rec_get r ''value'' (PFloat 0)))"

definition stat_inv :: "string \<Rightarrow> real list \<Rightarrow> StatAggregator \<Rightarrow> bool" where
  "stat_inv instrument vs s \<longleftrightarrow>
     sa_instrument_class s = instrument \<and> sa_count s = int (length vs) \<and> sa_mean s = mean_of vs \<and> sa_m2 s = sq_dev vs \<and>
     sa_min s = (if vs = [] then PosInf else Fin (Min (set vs))) \<and>
     sa_max s = (if vs = [] then NegInf else Fin (Max (set vs)))"

lemma Min_Max_snoc:
  fixes vs :: "real list"
  assumes "vs \<noteq> []"
  shows "Min (set (vs @ [v])) = min (Min (set vs)) v" "Max (set (vs @ [v])) = max (Max (set vs)) v"
  using assms by (simp_all add: min.commute max.commute)

lemma stat_step:
  assumes inv: "stat_inv instrument vs s" and read: "stat_reading x = Inr v"
  shows "stat_inv instrument (vs @ [v]) (snd (stat_process x s))"
    and "fst (stat_process x s) =
      Inr (if Suc (length vs) mod 500 = 0
           then [stat_record (snd (stat_process x s)) (sq_dev (vs @ [v]) / of_nat (length vs))] else [])"
proof -
  obtain clk r where x: "x = (clk, r)" by (rule prod.exhaust)
  have f: "py_float (rec_get r ''value'' (PFloat 0)) = Inr v" using read by (simp add: x stat_reading_def)
  have mean: "mean_of vs + (v - mean_of vs) / (1 + real (length vs)) = mean_of (vs @ [v])"
    by (simp add: welford_mean)
  have sq: "sq_dev vs + (v - mean_of vs) * (v - mean_of (vs @ [v])) = sq_dev (vs @ [v])"
    by (simp add: welford_sq)
  have lohi: "min (sa_min s) (Fin v) = Fin (Min (set (vs @ [v])))" "max (sa_max s) (Fin v) = Fin (Max (set (vs @ [v])))"
    using inv Min_Max_snoc [of vs v] by (auto simp: stat_inv_def)
  have fields: "sa_count s = int (length vs)" "sa_mean s = mean_of vs" "sa_m2 s = sq_dev vs"
    "sa_instrument_class s = instrument"
    using inv by (simp_all add: stat_inv_def)
  let ?s = "s\<lparr>sa_count := 1 + int (length vs), sa_mean := mean_of (vs @ [v]), sa_m2 := sq_dev (vs @ [v]),
              sa_min := Fin (Min (set (vs @ [v]))), sa_max := Fin (Max (set (vs @ [v])))\<rparr>"
  have nz: "1 + int (length vs) \<noteq> 0" by simp
  have m: "(1 + int (length vs)) mod 500 = 0 \<longleftrightarrow> Suc (length vs) mod 500 = 0" by presburger
  have nn: "\<not> sq_dev (vs @ [v]) / real (length vs) < 0" using sq_dev_nonneg [of "vs @ [v]"] by (simp add: not_less)
  have p: "stat_process x s =
      (if Suc (length vs) mod 500 = 0
       then (Inr [stat_record ?s (sq_dev (vs @ [v]) / of_nat (length vs))], ?s) else (Inr [], ?s))"
    unfolding x stat_process_def prod.case f sum.case Let_def fields lohi
    using nz mean sq m nn by (auto simp: add.commute)
  show "stat_inv instrument (vs @ [v]) (snd (stat_process x s))"
    unfolding p using fields by (simp add: stat_inv_def)
  show "fst (stat_process x s) =
      Inr (if Suc (length vs) mod 500 = 0
           then [stat_record (snd (stat_process x s)) (sq_dev (vs @ [v]) / of_nat (length vs))] else [])"
    unfolding p by simp
qed

text \<open>C22: After any stream of readable trades the aggregator emits, on every five-hundredth record and on no other,
  the count, mean, sample standard deviation, variance, minimum and maximum of all the values read, rounded
  as documented.\<close>

theorem stat_summary_exact:
  assumes "mapM_res stat_reading xs = Inr vs" "stat_reading x = Inr v"
    and "s = snd (run_operator stat_process xs (StatAggregator_new oid instrument))" "ws = vs @ [v]"
  shows "fst (stat_process x s) =
    Inr (if length ws mod 500 = 0
         then [[(''instrument_class'', PStr instrument), (''count'', PInt (int (length ws))),
                (''mean'', PFloat (py_round 6 (mean_of ws))), (''std'', PFloat (py_round 6 (stdev_of ws))),
                (''variance'', PFloat (py_round 8 ((stdev_of ws)\<^sup>2))),
                (''min'', PFloat (Min (set ws))), (''max'', PFloat (Max (set ws)))]]
         else [])"
proof -
  have step: "stat_inv instrument (us @ [u]) (snd (stat_process y t))"
    if "stat_inv instrument us t" "stat_reading y = Inr u" for y t u us
    using stat_step(1) [OF that] .
  have start: "stat_inv instrument [] (StatAggregator_new oid instrument)"
    by (simp add: stat_inv_def StatAggregator_new_def mean_of_def sq_dev_def)
  have "stat_inv instrument ([] @ vs) s"
    unfolding assms(3) by (rule run_operator_reads [OF step start assms(1)])
  then have inv: "stat_inv instrument vs s" by simp
  have inv': "stat_inv instrument ws (snd (stat_process x s))"
    unfolding assms(4) by (rule stat_step(1) [OF inv assms(2)])
  have var: "sq_dev ws / real (length vs) = (stdev_of ws)\<^sup>2" "sqrt (sq_dev ws / real (length vs)) = stdev_of ws"
    using sq_dev_nonneg [of ws] by (simp_all add: stdev_of_def assms(4))
  show ?thesis
    unfolding stat_step(2) [OF inv assms(2)] assms(4) [symmetric] stat_record_def
    unfolding var(2) unfolding var(1)
    using inv' assms(4) by (simp add: stat_inv_def)
qed

lemma mapM_res_replicate: "f x = Inr v \<Longrightarrow> mapM_res f (replicate n x) = Inr (replicate n v)"
  by (induction n) simp_all

definition sample_trade :: "real \<Rightarrow> stream_input" where
  "sample_trade v = (\<lparr>clk_wall = 0, clk_mono = 0\<rparr>, [(''value'', PFloat v)])"

lemma sample_trade_reading: "stat_reading (sample_trade v) = Inr v"
  by (simp add: stat_reading_def sample_trade_def dict_get_default_def)

theorem stat_summary_exact_witness:
  "\<exists>summary. fst (stat_process (sample_trade 5) (snd (run_operator stat_process (replicate 499 (sample_trade 4))
     (StatAggregator_new ''stat-fx'' ''fx'')))) = Inr [summary] \<and>
     dict_get summary ''min'' = Some (PFloat 4) \<and> dict_get summary ''max'' = Some (PFloat 5)"
proof -
  have "mapM_res stat_reading (replicate 499 (sample_trade 4)) = Inr (replicate 499 4)"
    by (rule mapM_res_replicate) (rule sample_trade_reading)
  from stat_summary_exact [OF this sample_trade_reading [of 5] refl refl, of "''stat-fx''" "''fx''"]
  show ?thesis by (simp del: replicate.simps)
qed

section \<open>Audit trail\<close>

definition compliance_reading :: "stream_input \<Rightarrow> (string \<times> real) res" where
  "compliance_reading = (\<lambda>(clk, r).
     bind_res (py_str (rec_get r ''event_type'' (PStr ''unknown''))) (\<lambda>event_type.
     bind_res (py_float (rec_get r ''timestamp'' (PFloat (clk_wall clk)))) (\<lambda>ts. Inr (event_type, ts))))"

definition compliance_inv :: "(string \<times> real) list \<Rightarrow> ComplianceLogger \<Rightarrow> bool" where
  "compliance_inv reads s \<longleftrightarrow>
     cl_log_seq s = int (length reads) \<and>
     (\<forall>k. dict_get_default (cl_event_counts s) k 0 = int (count_list (map fst reads) k)) \<and>
     cl_first_event_ts s = (if reads = [] then None else Some (snd (hd reads))) \<and>
     cl_last_event_ts s = (if reads = [] then None else Some (snd (last reads)))"

lemma compliance_step:
  assumes inv: "compliance_inv reads s" and read: "compliance_reading x = Inr v"
  shows "compliance_inv (reads @ [v]) (snd (compliance_process x s))"
    and "\<exists>out. fst (compliance_process x s) = Inr [out] \<and> dict_get out ''log_sequence'' = Some (PInt (cl_log_seq s + 1))"
proof -
  obtain clk r where x: "x = (clk, r)" by (rule prod.exhaust)
  obtain event_type ts where v: "v = (event_type, ts)" by (rule prod.exhaust)
  have f: "bind_res (py_str (rec_get r ''event_type'' (PStr ''unknown''))) (\<lambda>event_type.
      bind_res (py_float (rec_get r ''timestamp'' (PFloat (clk_wall clk)))) (\<lambda>ts. Inr (event_type, ts))) =
      Inr (event_type, ts)"
    using read by (simp add: x v compliance_reading_def)
  have d: "dict_get_default (dict_set event_type n d) k 0 = (if k = event_type then n else dict_get_default d k 0)"
    for n :: int and d k
    by (simp add: dict_get_default_def dict_simps)
  show "compliance_inv (reads @ [v]) (snd (compliance_process x s))"
    unfolding x compliance_process_def prod.case f sum.case Let_def
    using inv by (cases reads) (simp_all add: compliance_inv_def v d)
  show "\<exists>out. fst (compliance_process x s) = Inr [out] \<and> dict_get out ''log_sequence'' = Some (PInt (cl_log_seq s + 1))"
    unfolding x compliance_process_def prod.case f sum.case Let_def
    by (simp add: rec_update_def dict_simps)
qed

text \<open>C23: The audit trail is complete: after any stream of readable events the sequence number is the number of
  events, the count of every event type is the number of events of that type, the first and the last time
  are those of the first and the last event, and the next event is logged under the next number.\<close>

theorem compliance_audit_complete:
  assumes "mapM_res compliance_reading xs = Inr reads" "reads \<noteq> []" "compliance_reading x = Inr v"
    and "s = snd (run_operator compliance_process xs (ComplianceLogger_new oid dm))"
  shows "cl_log_seq s = int (length reads) \<and>
    dict_get_default (cl_event_counts s) k 0 = int (count_list (map fst reads) k) \<and>
    cl_first_event_ts s = Some (snd (hd reads)) \<and> cl_last_event_ts s = Some (snd (last reads)) \<and>
    (\<exists>out. fst (compliance_process x s) = Inr [out] \<and>
       dict_get out ''log_sequence'' = Some (PInt (int (length reads) + 1)))"
proof -
  have start: "compliance_inv [] (ComplianceLogger_new oid dm)"
    by (simp add: compliance_inv_def ComplianceLogger_new_def dict_get_default_def)
  have "compliance_inv ([] @ reads) s"
    unfolding assms(4) by (rule run_operator_reads [OF compliance_step(1) start assms(1)])
  then have inv: "compliance_inv reads s" by simp
  with compliance_step(2) [OF inv assms(3)] assms(2) show ?thesis by (simp add: compliance_inv_def)
qed

definition sample_event :: "string \<Rightarrow> real \<Rightarrow> stream_input" where
  "sample_event e ts = (\<lparr>clk_wall = 0, clk_mono = 0\<rparr>, [(''event_type'', PStr e), (''timestamp'', PFloat ts)])"

theorem compliance_audit_complete_witness:
  "dict_get_default (cl_event_counts (snd (run_operator compliance_process
     [sample_event ''order'' 1, sample_event ''trade'' 2, sample_event ''order'' 3]
     (ComplianceLogger_new ''c'' ''sox'')))) ''order'' 0 = 2"
proof -
  have "mapM_res compliance_reading [sample_event ''order'' 1, sample_event ''trade'' 2, sample_event ''order'' 3] =
      Inr [(''order'', 1), (''trade'', 2), (''order'', 3)]"
    and "compliance_reading (sample_event ''order'' 4) = Inr (''order'', 4)"
    by (simp_all add: compliance_reading_def sample_event_def dict_get_default_def)
  from compliance_audit_complete [OF this(1) _ this(2) refl, of "''c''" "''sox''" "''order''"] show ?thesis by simp
qed

end
