(* ===== verification/Workloads.thy ===== *)
theory Workloads
  imports W1 W2 W3 Placement "HOL-Library.Char_ord" "HOL-Library.List_Lexorder"
begin

text \<open>
  The workloads together: the registry of operator classes (\<open>hea/hea/operator_registry.py\<close>) and what the
  workload modules put into it, the sum of all operators, their requirements against the tables of the
  placement state, and the migration of every operator whose state is restored exactly.
\<close>

section \<open>Registry\<close>

type_synonym 'c registry = "(string, 'c) dict"

definition register :: "string \<Rightarrow> 'c \<Rightarrow> 'c registry \<Rightarrow> 'c registry" where
  "register op_type cls reg = dict_set op_type cls reg"

definition get :: "string \<Rightarrow> 'c registry \<Rightarrow> 'c res" where
  "get op_type reg =
     (case dict_get reg op_type of
        None \<Rightarrow> Inl (KeyError (''Operator type '' @ [CHR 39] @ op_type @ [CHR 39] @ '' not registered. Available: '' @
                  list_repr (sort (dict_keys reg))))
      | Some cls \<Rightarrow> Inr cls)"

text \<open>
  The members of an imported module, as \<open>inspect.getmembers\<close> lists its classes: the class, whether it is a
  proper subclass of \<open>BaseOperator\<close>, and its \<open>operator_type\<close> if it has one.
\<close>

record 'c module_class =
  mc_class :: 'c
  mc_is_operator :: bool
  mc_operator_type :: "string option"

fun register_all_from_workload :: "'c module_class list \<Rightarrow> 'c registry \<Rightarrow> 'c registry" where
  "register_all_from_workload [] reg = reg"
| "register_all_from_workload (obj # objs) reg =
     register_all_from_workload objs
       (if mc_is_operator obj
        then (case mc_operator_type obj of None \<Rightarrow> reg | Some t \<Rightarrow> register t (mc_class obj) reg)
        else reg)"

datatype operator_class =
    C_NormalizerOperator | C_FeatureAggWindow | C_MultiStreamJoin | C_BinaryClassifier
  | C_VehicleDetector | C_ZoneAggregator | C_PatternDetector
  | C_RiskCheck | C_AnomalyDetector | C_StatAggregator | C_ComplianceLogger

definition register_w1_operators :: "operator_class registry \<Rightarrow> operator_class registry" where
  "register_w1_operators reg =
     register ''BinaryClassifier'' C_BinaryClassifier
      (register ''MultiStreamJoin'' C_MultiStreamJoin
        (register ''FeatureAggWindow'' C_FeatureAggWindow
          (register ''NormalizerOperator'' C_NormalizerOperator reg)))"

definition register_w2_operators :: "operator_class registry \<Rightarrow> operator_class registry" where
  "register_w2_operators reg =
     register ''PatternDetector'' C_PatternDetector
      (register ''ZoneAggregator'' C_ZoneAggregator (register ''VehicleDetector'' C_VehicleDetector reg))"

definition register_w3_operators :: "operator_class registry \<Rightarrow> operator_class registry" where
  "register_w3_operators reg =
     register ''ComplianceLogger'' C_ComplianceLogger
      (register ''StatAggregator'' C_StatAggregator
        (register ''AnomalyDetector'' C_AnomalyDetector (register ''RiskCheck'' C_RiskCheck reg)))"

section \<open>All operators\<close>

datatype any_operator = OpW1 w1_operator | OpW2 w2_operator | OpW3 w3_operator

fun any_operator_id :: "any_operator \<Rightarrow> string" where
  "any_operator_id (OpW1 op) = w1_operator_id op"
| "any_operator_id (OpW2 op) = w2_operator_id op"
| "any_operator_id (OpW3 op) = w3_operator_id op"

fun any_operator_type :: "any_operator \<Rightarrow> string" where
  "any_operator_type (OpW1 op) = w1_operator_type op"
| "any_operator_type (OpW2 op) = w2_operator_type op"
| "any_operator_type (OpW3 op) = w3_operator_type op"

fun any_step :: "any_operator operator_step" where
  "any_step x (OpW1 op) = lift_step OpW1 w1_step x op"
| "any_step x (OpW2 op) = lift_step OpW2 w2_step x op"
| "any_step x (OpW3 op) = lift_step OpW3 w3_step x op"

fun any_get_state :: "any_operator \<Rightarrow> py_record" where
  "any_get_state (OpW1 op) = w1_get_state op"
| "any_get_state (OpW2 op) = w2_get_state op"
| "any_get_state (OpW3 op) = w3_get_state op"

lemma any_step_keeps_type: "any_operator_type (snd (any_step x op)) = any_operator_type op"
proof (cases op)
  case (OpW1 a) then show ?thesis by (cases a) (simp_all add: lift_step_def)
next
  case (OpW2 a) then show ?thesis by (cases a) (simp_all add: lift_step_def)
next
  case (OpW3 a) then show ?thesis by (cases a) (simp_all add: lift_step_def)
qed

section \<open>Requirements\<close>

definition operator_requirements :: "(string \<times> string \<times> real option) list" where
  "operator_requirements =
     [(''NormalizerOperator'', Normalizer_requirements), (''FeatureAggWindow'', FeatureAggWindow_requirements),
      (''MultiStreamJoin'', MultiStreamJoin_requirements), (''BinaryClassifier'', BinaryClassifier_requirements),
      (''VehicleDetector'', VehicleDetector_requirements), (''ZoneAggregator'', ZoneAggregator_requirements),
      (''PatternDetector'', PatternDetector_requirements), (''RiskCheck'', RiskCheck_requirements),
      (''AnomalyDetector'', AnomalyDetector_requirements), (''StatAggregator'', StatAggregator_requirements),
      (''ComplianceLogger'', ComplianceLogger_requirements)]"

text \<open>The placement state's tables repeat what the operators declare: the objective of every operator class is
  the same in both, and the latency class is the same for all but one, the pattern detector, which declares
  itself a batch operator and is placed as a standard one.\<close>

theorem requirement_tables_agree:
  "list_all (\<lambda>(t, lam, slo). dict_get get_slo_map t = Some slo) operator_requirements \<and>
   map fst (filter (\<lambda>(t, lam, slo). dict_get get_lambda_map t \<noteq> Some lam) operator_requirements) = [''PatternDetector'']"
  by (simp add: operator_requirements_def get_slo_map_def get_lambda_map_def BaseOperator_lambda_class_def
      Normalizer_requirements_def FeatureAggWindow_requirements_def MultiStreamJoin_requirements_def
      BinaryClassifier_requirements_def VehicleDetector_requirements_def ZoneAggregator_requirements_def
      PatternDetector_requirements_def RiskCheck_requirements_def AnomalyDetector_requirements_def
      StatAggregator_requirements_def ComplianceLogger_requirements_def)

section \<open>Registration\<close>

definition all_registered :: "operator_class registry" where
  "all_registered = register_w3_operators (register_w2_operators (register_w1_operators []))"

lemma all_registered_types: "dict_keys all_registered = map fst operator_requirements"
  by (simp add: all_registered_def register_w1_operators_def register_w2_operators_def register_w3_operators_def
      register_def operator_requirements_def)

text \<open>After the three workloads have registered their operators, exactly the eleven operator types that the
  pipelines use are found in the registry, under different classes; any other type raises an error that
  lists the registered types.\<close>

theorem registry_complete:
  "distinct (map snd all_registered) \<and>
   ((\<exists>cls. get t all_registered = Inr cls) \<longleftrightarrow> t \<in> set (map fst operator_requirements)) \<and>
   any_operator_type op \<in> set (map fst operator_requirements)"
proof (intro conjI)
  show "distinct (map snd all_registered)"
    by (simp add: all_registered_def register_w1_operators_def register_w2_operators_def register_w3_operators_def
        register_def)
  show "(\<exists>cls. get t all_registered = Inr cls) \<longleftrightarrow> t \<in> set (map fst operator_requirements)"
    unfolding all_registered_types [symmetric] by (force simp: get_def map_of_eq_None_iff dest: map_of_SomeD split: option.split)
  show "any_operator_type op \<in> set (map fst operator_requirements)"
  proof (cases op)
    case (OpW1 a) then show ?thesis by (cases a) (simp_all add: operator_requirements_def)
  next
    case (OpW2 a) then show ?thesis by (cases a) (simp_all add: operator_requirements_def)
  next
    case (OpW3 a) then show ?thesis by (cases a) (simp_all add: operator_requirements_def)
  qed
qed

section \<open>Migration of an operator\<close>

text \<open>Migrating an operator is invisible.  For each of the eight operators whose whole state is in
  \<open>get_state\<close>: however the input is cut into parts, moving the operator to a fresh instance between the parts
  gives the same outputs and the same final state as never moving it.\<close>

theorem migration_invisible:
  "run_migrating normalizer_process normalizer_get_state normalizer_restore_state (Normalizer_new oid a x) parts
      (Normalizer_new oid a x) = Inr (run_operator normalizer_process (concat parts) (Normalizer_new oid a x)) \<and>
   run_migrating classifier_process classifier_get_state classifier_restore_state (BinaryClassifier_new oid x) parts
      (BinaryClassifier_new oid x) = Inr (run_operator classifier_process (concat parts) (BinaryClassifier_new oid x)) \<and>
   run_migrating detector_process detector_get_state detector_restore_state (VehicleDetector_new oid a x) parts
      (VehicleDetector_new oid a x) = Inr (run_operator detector_process (concat parts) (VehicleDetector_new oid a x)) \<and>
   run_migrating pattern_process pattern_get_state pattern_restore_state (PatternDetector_new oid x) parts
      (PatternDetector_new oid x) = Inr (run_operator pattern_process (concat parts) (PatternDetector_new oid x)) \<and>
   run_migrating risk_process risk_get_state risk_restore_state (RiskCheck_new oid a) parts
      (RiskCheck_new oid a) = Inr (run_operator risk_process (concat parts) (RiskCheck_new oid a)) \<and>
   run_migrating anomaly_process anomaly_get_state anomaly_restore_state (AnomalyDetector_new oid a x y) parts
      (AnomalyDetector_new oid a x y) = Inr (run_operator anomaly_process (concat parts) (AnomalyDetector_new oid a x y)) \<and>
   run_migrating stat_process stat_get_state stat_restore_state (StatAggregator_new oid a) parts
      (StatAggregator_new oid a) = Inr (run_operator stat_process (concat parts) (StatAggregator_new oid a)) \<and>
   run_migrating compliance_process compliance_get_state compliance_restore_state (ComplianceLogger_new oid a) parts
      (ComplianceLogger_new oid a) = Inr (run_operator compliance_process (concat parts) (ComplianceLogger_new oid a))"
  by (intro conjI normalizer.migration_from_start classifier.migration_from_start detector.migration_from_start
      pattern.migration_from_start risk.migration_from_start anomaly.migration_from_start stat.migration_from_start
      compliance.migration_from_start)

end
