(* ===== verification/Delivery.thy ===== *)
theory Delivery
  imports Engine Workloads
begin

text \<open>
  What the engine guarantees about records: on a topic with one operator it behaves as the operator run on the
  messages; and where it does not deliver every record exactly once.
\<close>

section \<open>In-process operators\<close>

text \<open>Processing does not change the class of an operator.\<close>

definition class_stable :: "'op operator_api \<Rightarrow> bool" where
  "class_stable api \<longleftrightarrow> (\<forall>x s. oa_class api (snd (oa_step api x s)) = oa_class api s)"

text \<open>The messages that a list of outputs becomes on the topics of a route.\<close>

definition outputs_of :: "(py_record \<Rightarrow> bytes) \<Rightarrow> string list \<Rightarrow> py_record list res list \<Rightarrow> (string \<times> bytes) list" where
  "outputs_of enc routes results =
     concat (map (\<lambda>res. case res of Inl e \<Rightarrow> [] | Inr rs \<Rightarrow> concat (map (\<lambda>t. map (\<lambda>r. (t, enc r)) rs) routes)) results)"

lemma outputs_of_simps [simp]:
  "outputs_of enc routes [] = []"
  "outputs_of enc routes (xs @ ys) = outputs_of enc routes xs @ outputs_of enc routes ys"
  by (simp_all add: outputs_of_def)

lemma outputs_of_Cons: "outputs_of enc routes (res # results) = outputs_of enc routes [res] @ outputs_of enc routes results"
  by (simp add: outputs_of_def)

lemma finish_record_sent:
  assumes "reliable kafka enc" "bp_producer (eng_bridge eng)"
    and "dict_get_default (eng_output_routes eng) oid [] = routes"
  shows "bp_sent (eng_bridge (finish_record kafka oid res s n eng)) = bp_sent (eng_bridge eng) @ outputs_of enc routes [res]"
    and "bp_producer (eng_bridge (finish_record kafka oid res s n eng))"
  using assms by (auto simp: finish_record_def emit_def Let_def outputs_of_def log_error_def send_all_reliable map_concat
      comp_def split: sum.splits)

text \<open>The part of the engine that one operator bound in-process is concerned with.\<close>

definition hosts :: "'op operator_api \<Rightarrow> string \<Rightarrow> 'op \<Rightarrow> string list \<Rightarrow> (string \<times> bytes) list \<Rightarrow> 'op OperatorEngine \<Rightarrow> bool" where
  "hosts api oid op routes sent eng \<longleftrightarrow>
     dict_get (eng_operators eng) oid = Some op \<and> \<not> is_cpu_bound (oa_class api op) \<and>
     dict_get_default (eng_output_routes eng) oid [] = routes \<and>
     bp_producer (eng_bridge eng) \<and> bp_sent (eng_bridge eng) = sent"

lemma dispatch_hosts:
  assumes "hosts api oid op routes sent eng" "reliable kafka enc" "class_stable api"
    and "run_process api (tm_clocks tm) v op = (res, op')" "oa_class api op' = oa_class api op"
  shows "hosts api oid op' routes (sent @ outputs_of enc routes [res]) (dispatch api kafka oid v off tm eng)"
proof -
  let ?eng = "eng\<lparr>eng_operators := dict_set oid op' (eng_operators eng)\<rparr>"
  have d: "dispatch api kafka oid v off tm eng = finish_record kafka oid res (tm_start_ns tm) (tm_end_ns tm) ?eng"
    using assms(1,4) by (simp add: dispatch_def hosts_def)
  have h: "bp_producer (eng_bridge ?eng)" "dict_get_default (eng_output_routes ?eng) oid [] = routes"
    using assms(1) by (simp_all add: hosts_def)
  show ?thesis
    unfolding d using finish_record_sent [OF assms(2) h] assms(1,5) by (simp add: hosts_def engine_simps dict_simps)
qed

text \<open>A record handed to the operator once for every place it has among the bindings of the topic.\<close>

lemma dispatch_all_hosts:
  assumes "reliable kafka enc" "class_stable api" "hosts api oid op routes sent eng"
  shows "hosts api oid (snd (run_operator (oa_step api) (map (\<lambda>i. (tm_clocks (mg_timing msg i), r)) is) op)) routes
     (sent @ outputs_of enc routes (fst (run_operator (oa_step api) (map (\<lambda>i. (tm_clocks (mg_timing msg i), r)) is) op)))
     (dispatch_all api kafka (map (\<lambda>i. (i, oid)) is) (PDict r) msg eng)"
  using assms(3)
proof (induction "is" arbitrary: op sent eng)
  case (Cons i "is")
  obtain res op' where step: "oa_step api (tm_clocks (mg_timing msg i), r) op = (res, op')" by (rule prod.exhaust)
  then have rp: "run_process api (tm_clocks (mg_timing msg i)) (PDict r) op = (res, op')"
    by (simp add: run_process_def)
  have "oa_class api op' = oa_class api op"
    using assms(2) step unfolding class_stable_def by (metis snd_conv)
  note host = dispatch_hosts [OF Cons.prems assms(1,2) rp this, of "mg_offset msg"]
  show ?case using Cons.IH [OF host] step
    by (simp add: run_operator_Cons outputs_of_Cons [of _ _ _ "fst _"] del: run_operator.simps(2))
qed simp

lemma enumerate_replicate: "enumerate 0 (replicate n x) = map (\<lambda>i. (i, x)) [0..<n]"
proof -
  have "enumerate m (replicate n x) = map (\<lambda>i. (i, x)) [m..<m + n]" for m
    by (induction n arbitrary: m) (simp_all add: upt_rec)
  from this [of 0] show ?thesis by simp
qed

text \<open>The inputs of an operator that is bound \<open>n\<close> times to a topic.\<close>

definition bound_inputs :: "nat \<Rightarrow> message list \<Rightarrow> py_record list \<Rightarrow> stream_input list" where
  "bound_inputs n msgs rs =
     concat (map (\<lambda>(msg, r). map (\<lambda>i. (tm_clocks (mg_timing msg i), r)) [0..<n]) (zip msgs rs))"

lemma consume_hosts:
  assumes "reliable kafka enc" "class_stable api"
    and "dict_get_default (eng_topic_bindings eng) topic [] = replicate n oid"
    and "mapM_res (\<lambda>m. kf_unpackb kafka (mg_value m)) msgs = Inr (map PDict rs)"
    and "hosts api oid op routes sent eng"
  shows "fst (consume_messages api kafka topic msgs eng) = Inr () \<and>
    hosts api oid (snd (run_operator (oa_step api) (bound_inputs n msgs rs) op)) routes
     (sent @ outputs_of enc routes (fst (run_operator (oa_step api) (bound_inputs n msgs rs) op)))
     (snd (consume_messages api kafka topic msgs eng))"
  using assms(3-5)
proof (induction msgs arbitrary: rs op sent eng)
  case Nil
  then show ?case by (simp add: bound_inputs_def)
next
  case (Cons msg msgs)
  obtain r rs' where rs: "rs = r # rs'" "kf_unpackb kafka (mg_value msg) = Inr (PDict r)"
    "mapM_res (\<lambda>m. kf_unpackb kafka (mg_value m)) msgs = Inr (map PDict rs')"
    using Cons.prems(2) by (cases rs) (auto simp: res_simps)
  let ?now = "map (\<lambda>i. (tm_clocks (mg_timing msg i), r)) [0..<n]"
  let ?eng = "dispatch_all api kafka (map (\<lambda>i. (i, oid)) [0..<n]) (PDict r) msg eng"
  obtain outs op' where now: "run_operator (oa_step api) ?now op = (outs, op')" by (rule prod.exhaust)
  obtain outs' op'' where then': "run_operator (oa_step api) (bound_inputs n msgs rs') op' = (outs', op'')"
    by (rule prod.exhaust)
  have host: "hosts api oid op' routes (sent @ outputs_of enc routes outs) ?eng"
    using dispatch_all_hosts [OF assms(1,2) Cons.prems(3), of msg r "[0..<n]"] now by simp
  have b: "dict_get_default (eng_topic_bindings ?eng) topic [] = replicate n oid"
    using Cons.prems(1) by (simp add: engine_simps)
  have step: "consume_messages api kafka topic (msg # msgs) eng = consume_messages api kafka topic msgs ?eng"
    by (simp add: rs(2) Cons.prems(1) enumerate_replicate)
  have all: "bound_inputs n (msg # msgs) rs = ?now @ bound_inputs n msgs rs'"
    by (simp add: bound_inputs_def rs(1))
  have run: "run_operator (oa_step api) (bound_inputs n (msg # msgs) rs) op = (outs @ outs', op'')"
    unfolding all run_operator_append now by (simp add: then')
  show ?case unfolding step run using Cons.IH [OF b rs(3) host] then' by simp
qed

lemma bound_inputs_once:
  "bound_inputs 1 msgs rs = map (\<lambda>(msg, r). (tm_clocks (mg_timing msg 0), r)) (zip msgs rs)"
proof -
  have "concat (map (\<lambda>x. [f x]) xs) = map f xs" for f :: "message \<times> py_record \<Rightarrow> stream_input" and xs
    by (induction xs) auto
  then show ?thesis by (simp add: bound_inputs_def split_def)
qed

lemma turn_hosts:
  assumes "reliable kafka enc" "class_stable api"
    and "dict_get (eng_topic_bindings eng) topic = Some (replicate n oid)"
    and "dict_get (eng_consumers eng) topic = Some c" "\<not> cs_paused c" "eng_running eng" "topic \<in> set (eng_consumer_tasks eng)"
    and "mapM_res (\<lambda>m. kf_unpackb kafka (mg_value m)) (concat (map snd polled)) = Inr (map PDict rs)"
    and "hosts api oid op routes sent eng"
  defines "ins \<equiv> bound_inputs n (concat (map snd polled)) rs"
  defines "eng' \<equiv> consume_turn api kafka topic (Inr polled) (Inr ()) eng"
  shows "hosts api oid (snd (run_operator (oa_step api) ins op)) routes
     (sent @ outputs_of enc routes (fst (run_operator (oa_step api) ins op))) eng'"
    and "\<exists>c'. dict_get (eng_consumers eng') topic = Some c' \<and> cs_committed c' = cs_position (advance polled c)"
proof -
  let ?eng = "set_consumer topic (advance polled) eng"
  have b: "dict_get_default (eng_topic_bindings ?eng) topic [] = replicate n oid"
    using assms(3) by (simp add: engine_simps dict_get_default_def)
  have h: "hosts api oid op routes sent ?eng" using assms(9) by (simp add: hosts_def engine_simps)
  obtain eng1 where eng1: "consume_messages api kafka topic (concat (map snd polled)) ?eng = (Inr (), eng1)"
    "hosts api oid (snd (run_operator (oa_step api) ins op)) routes
      (sent @ outputs_of enc routes (fst (run_operator (oa_step api) ins op))) eng1"
    using consume_hosts [OF assms(1,2) b assms(8) h] unfolding ins_def by (metis prod.collapse)
  have cons1: "dict_get (eng_consumers eng1) topic = Some (advance polled c)"
    using consume_messages_frame(3) [of api kafka topic "concat (map snd polled)" ?eng] assms(4)
    by (simp add: eng1(1) engine_simps)
  have eng': "eng' = set_consumer topic (\<lambda>c. c\<lparr>cs_committed := cs_position c\<rparr>) (check_backpressure topic eng1)"
    using assms(4-7) eng1(1) by (simp add: eng'_def consume_turn_def)
  show "hosts api oid (snd (run_operator (oa_step api) ins op)) routes
     (sent @ outputs_of enc routes (fst (run_operator (oa_step api) ins op))) eng'"
    using eng1(2) by (simp add: eng' hosts_def engine_simps)
  have pos: "\<exists>c''. dict_get (eng_consumers (fold (backpressure_one topic) oids e)) topic = Some c'' \<and>
      cs_position c'' = cs_position d" if "dict_get (eng_consumers e) topic = Some d" for oids e d
    using that
  proof (induction oids arbitrary: e d)
    case (Cons o' oids)
    have "\<exists>d'. dict_get (eng_consumers (backpressure_one topic o' e)) topic = Some d' \<and> cs_position d' = cs_position d"
      using Cons.prems by (auto simp: backpressure_one_def Let_def engine_simps split: option.split)
    then obtain d' where "dict_get (eng_consumers (backpressure_one topic o' e)) topic = Some d'" "cs_position d' = cs_position d"
      by blast
    with Cons.IH [OF this(1)] show ?case by simp
  qed simp
  show "\<exists>c'. dict_get (eng_consumers eng') topic = Some c' \<and> cs_committed c' = cs_position (advance polled c)"
  proof -
    obtain c'' where "dict_get (eng_consumers (check_backpressure topic eng1)) topic = Some c''"
      "cs_position c'' = cs_position (advance polled c)"
      using pos [OF cons1] unfolding check_backpressure_def by blast
    then show ?thesis unfolding eng' by (simp add: engine_simps)
  qed
qed


text \<open>The operators of the workloads, none of which is marked as CPU bound.\<close>

definition workload_api :: "any_operator operator_api" where
  "workload_api = \<lparr>oa_id = any_operator_id, oa_class = (\<lambda>op. []), oa_step = any_step\<rparr>"

definition sample_kafka :: kafka_api where
  "sample_kafka = \<lparr>kf_packb = (\<lambda>r. Inr []), kf_unpackb = (\<lambda>b. if b = [] then Inl (Exc ''unpack'') else Inr (PDict [(''exposure'', PFloat 7)])),
     kf_accept = (\<lambda>t p. Inr ()), kf_connect = (\<lambda>t. Inr ())\<rparr>"

definition sample_risk :: any_operator where
  "sample_risk = OpW3 (W3_RiskCheck (RiskCheck_new ''risk-model'' ''model''))"

definition sample_engine :: "any_operator OperatorEngine" where
  "sample_engine = engine_run workload_api sample_kafka [Start, Register sample_risk [''w3-trades''] [''out'']]
     (OperatorEngine_new HEAConfig_default (HEAMetrics_new (2/10) 500 ''localhost:9092'')
       \<lparr>bp_bootstrap = ''kafka:9092'', bp_producer = True, bp_sent = []\<rparr>)"

definition sample_message :: "8 word \<Rightarrow> int \<Rightarrow> message" where
  "sample_message b off = \<lparr>mg_value = [b], mg_offset = off,
     mg_timing = (\<lambda>i. \<lparr>tm_clocks = \<lparr>clk_wall = 0, clk_mono = 0\<rparr>, tm_start_ns = 0, tm_end_ns = 1000\<rparr>)\<rparr>"

lemma sample_kafka_reliable: "reliable sample_kafka (\<lambda>r. [])"
  by (simp add: reliable_def sample_kafka_def)

lemma workload_api_stable: "class_stable workload_api"
  by (simp add: class_stable_def workload_api_def)

lemma sample_engine_facts:
  "hosts workload_api ''risk-model'' sample_risk [''out''] [] sample_engine"
  "dict_get (eng_topic_bindings sample_engine) ''w3-trades'' = Some [''risk-model'']"
  "dict_get (eng_consumers sample_engine) ''w3-trades'' =
     Some \<lparr>cs_paused = False, cs_position = [], cs_committed = [], cs_stopped = False\<rparr>"
  "eng_running sample_engine" "''w3-trades'' \<in> set (eng_consumer_tasks sample_engine)"
  "dict_get (eng_worker_queues sample_engine) ''risk-model'' = None" "hm_ingest_counts (eng_metrics sample_engine) = []"
  by (simp_all add: sample_engine_def engine_run_def OperatorEngine_new_def engine_start_def register_operator_def Let_def
      start_consumer_def sample_kafka_def workload_api_def sample_risk_def RiskCheck_new_def hosts_def dict_get_default_def
      HEAMetrics_new_def)


section \<open>Registration after deregistration\<close>

lemma reregister:
  fixes kafka routes'
  assumes "hosts api oid op routes sent eng" "dict_get (eng_topic_bindings eng) topic = Some [oid]"
    and "dict_get (eng_consumers eng) topic = Some c" "dict_get (eng_worker_queues eng) oid = None"
    and "oa_id api op' = oid" "\<not> is_cpu_bound (oa_class api op')"
  defines "eng' \<equiv> engine_run api kafka [Deregister oid, Register op' [topic] routes'] eng"
  shows "hosts api oid op' routes' sent eng'" "dict_get (eng_topic_bindings eng') topic = Some (replicate 2 oid)"
    and "dict_get (eng_consumers eng') topic = Some c" "eng_running eng' = eng_running eng"
    and "eng_consumer_tasks eng' = eng_consumer_tasks eng"
proof -
  have d: "deregister_begin oid eng = eng\<lparr>eng_operators := dict_pop oid (eng_operators eng),
      eng_worker_queues := dict_pop oid (eng_worker_queues eng),
      eng_output_routes := dict_pop oid (eng_output_routes eng)\<rparr>"
    using assms(1,4) by (simp add: deregister_begin_def hosts_def)
  have "eng' = eng\<lparr>eng_operators := dict_set oid op' (dict_pop oid (eng_operators eng)),
      eng_worker_queues := dict_pop oid (eng_worker_queues eng),
      eng_output_routes := dict_set oid routes' (dict_pop oid (eng_output_routes eng)),
      eng_topic_bindings := dict_set topic [oid, oid] (eng_topic_bindings eng)\<rparr>"
    using assms(2,3,5,6) by (simp add: eng'_def engine_run_def d register_operator_def Let_def dict_get_default_def)
  then show "hosts api oid op' routes' sent eng'" "dict_get (eng_topic_bindings eng') topic = Some (replicate 2 oid)"
    "dict_get (eng_consumers eng') topic = Some c" "eng_running eng' = eng_running eng"
    "eng_consumer_tasks eng' = eng_consumer_tasks eng"
    using assms(1,3,6) by (simp_all add: hosts_def dict_simps dict_get_default_def numeral_2_eq_2)
qed

text \<open>An operator that leaves a node and comes back processes every record twice.  Deregistering it does not
  remove it from the bindings of its topic, so registering it again binds it a second time: every message of
  the next poll goes through the new instance twice, and both outputs are sent.\<close>

theorem reregistration_duplicates:
  assumes "reliable kafka enc" "class_stable api" "hosts api oid op routes sent eng"
    and "dict_get (eng_topic_bindings eng) topic = Some [oid]"
    and "dict_get (eng_consumers eng) topic = Some c" "\<not> cs_paused c" "eng_running eng" "topic \<in> set (eng_consumer_tasks eng)"
    and "dict_get (eng_worker_queues eng) oid = None" "oa_id api op' = oid" "\<not> is_cpu_bound (oa_class api op')"
    and "mapM_res (\<lambda>m. kf_unpackb kafka (mg_value m)) (concat (map snd polled)) = Inr (map PDict rs)"
    and "run_operator (oa_step api)
      (concat (map (\<lambda>(msg, r). [(tm_clocks (mg_timing msg 0), r), (tm_clocks (mg_timing msg 1), r)])
        (zip (concat (map snd polled)) rs))) op' = (results, op'')"
    and "eng' = engine_run api kafka [Deregister oid, Register op' [topic] routes', Consume topic (Inr polled) (Inr ())] eng"
  shows "dict_get (eng_operators eng') oid = Some op'' \<and>
    bp_sent (eng_bridge eng') = sent @ outputs_of enc routes' results \<and>
    length results = 2 * length (concat (map snd polled))"
proof -
  note re = reregister [OF assms(3,4,5,9,10,11), where kafka = kafka and routes' = routes']
  let ?eng = "engine_run api kafka [Deregister oid, Register op' [topic] routes'] eng"
  have r: "eng_running ?eng" "topic \<in> set (eng_consumer_tasks ?eng)" using re(4,5) assms(7,8) by simp_all
  have eng': "eng' = consume_turn api kafka topic (Inr polled) (Inr ()) ?eng"
    unfolding assms(14) by (simp add: engine_run_def)
  have ins: "bound_inputs 2 (concat (map snd polled)) rs =
      concat (map (\<lambda>(msg, r). [(tm_clocks (mg_timing msg 0), r), (tm_clocks (mg_timing msg 1), r)])
        (zip (concat (map snd polled)) rs))"
    by (simp add: bound_inputs_def numeral_2_eq_2)
  have len: "length rs = length (concat (map snd polled))" using mapM_res_length [OF assms(12)] by simp
  have "length results = length (bound_inputs 2 (concat (map snd polled)) rs)"
    using run_operator_length [of "oa_step api" "bound_inputs 2 (concat (map snd polled)) rs" op'] assms(13)
    unfolding ins by simp
  moreover have "length (bound_inputs 2 msgs rs') = 2 * length msgs" if "length rs' = length msgs" for msgs rs'
    using that[symmetric] by (induction msgs rs' rule: list_induct2) (simp_all add: bound_inputs_def)
  ultimately have "length results = 2 * length (concat (map snd polled))" using len by simp
  with turn_hosts(1) [OF assms(1,2) re(2,3) assms(6) r assms(12) re(1)] assms(13)
  show ?thesis unfolding eng' ins by (simp add: hosts_def)
qed

theorem reregistration_duplicates_witness:
  "length (bp_sent (eng_bridge (engine_run workload_api sample_kafka
     [Deregister ''risk-model'', Register sample_risk [''w3-trades''] [''out''],
      Consume ''w3-trades'' (Inr [(0, [sample_message 1 0])]) (Inr ())] sample_engine))) = 2"
proof -
  let ?in = "(\<lparr>clk_wall = 0, clk_mono = 0\<rparr>, [(''exposure'', PFloat 7)])"
  obtain results op' where run: "run_operator (oa_step workload_api) [?in, ?in] sample_risk = (results, op')"
    by (rule prod.exhaust)
  have res: "\<exists>a b. results = [Inr [a], Inr [b]]"
    using run by (auto simp: workload_api_def sample_risk_def lift_step_def risk_process_def dict_get_default_def Let_def)
  have id: "oa_id workload_api sample_risk = ''risk-model''" "\<not> is_cpu_bound (oa_class workload_api sample_risk)"
    by (simp_all add: workload_api_def sample_risk_def RiskCheck_new_def)
  have dec: "mapM_res (\<lambda>m. kf_unpackb sample_kafka (mg_value m)) (concat (map snd [(0 :: int, [sample_message 1 0])])) =
      Inr (map PDict [[(''exposure'', PFloat 7)]])"
    by (simp add: sample_kafka_def sample_message_def)
  have "run_operator (oa_step workload_api)
      (concat (map (\<lambda>(msg, r). [(tm_clocks (mg_timing msg 0), r), (tm_clocks (mg_timing msg 1), r)])
        (zip (concat (map snd [(0 :: int, [sample_message 1 0])])) [[(''exposure'', PFloat 7)]]))) sample_risk = (results, op')"
    using run by (simp add: sample_message_def)
  from reregistration_duplicates [OF sample_kafka_reliable workload_api_stable sample_engine_facts(1,2,3) _ sample_engine_facts(4,5,6)
      id dec this refl, of "[''out'']"] res
  show ?thesis by (auto simp: outputs_of_def)
qed

section \<open>Messages that cannot be decoded\<close>

lemma consume_messages_append:
  "consume_messages api kafka topic (xs @ ys) eng =
     (case consume_messages api kafka topic xs eng of
        (Inl e, eng') \<Rightarrow> (Inl e, eng')
      | (Inr _, eng') \<Rightarrow> consume_messages api kafka topic ys eng')"
proof (induction xs arbitrary: eng)
  case (Cons x xs)
  then show ?case by (cases "kf_unpackb kafka (mg_value x)") simp_all
qed simp

lemma backpressure_fold_committed:
  "map_option cs_position (dict_get (eng_consumers (fold (backpressure_one topic) oids eng)) t) =
     map_option cs_position (dict_get (eng_consumers eng) t)"
proof (induction oids arbitrary: eng)
  case (Cons oid oids)
  have "map_option cs_position (dict_get (eng_consumers (backpressure_one topic oid eng)) t) =
      map_option cs_position (dict_get (eng_consumers eng) t)"
    by (auto simp: backpressure_one_def Let_def engine_simps option.map_comp comp_def split: option.split)
  with Cons.IH [of "backpressure_one topic oid eng"] show ?case by simp
qed simp

text \<open>One message that cannot be decoded loses the rest of its batch.  The turn that meets it stops there, logs the
  error and commits nothing; but the consumer is already past the whole batch, and the next turn, even one
  that polls nothing, commits an offset behind the messages that no operator has seen.\<close>

theorem undecodable_message_loses_batch:
  assumes "reliable kafka enc" "class_stable api" "hosts api oid op routes sent eng"
    and "dict_get (eng_topic_bindings eng) topic = Some [oid]"
    and "dict_get (eng_consumers eng) topic = Some c" "\<not> cs_paused c" "eng_running eng" "topic \<in> set (eng_consumer_tasks eng)"
    and "mapM_res (\<lambda>m. kf_unpackb kafka (mg_value m)) good = Inr (map PDict rs)" "kf_unpackb kafka (mg_value bad) = Inl e"
    and "run_operator (oa_step api) (map (\<lambda>(msg, r). (tm_clocks (mg_timing msg 0), r)) (zip good rs)) op = (results, op')"
    and "eng' = engine_run api kafka
      [Consume topic (Inr [(p, good @ bad # rest)]) (Inr ()), Consume topic (Inr []) (Inr ())] eng"
  shows "dict_get (eng_operators eng') oid = Some op' \<and> bp_sent (eng_bridge eng') = sent @ outputs_of enc routes results \<and>
    (\<exists>c'. dict_get (eng_consumers eng') topic = Some c' \<and>
       dict_get (cs_committed c') p = Some (mg_offset (last (good @ bad # rest)) + 1))"
proof -
  let ?polled = "[(p, good @ bad # rest)]"
  let ?eng = "set_consumer topic (advance ?polled) eng"
  have b: "dict_get_default (eng_topic_bindings ?eng) topic [] = replicate 1 oid"
    using assms(4) by (simp add: engine_simps dict_get_default_def)
  have h: "hosts api oid op routes sent ?eng" using assms(3) by (simp add: hosts_def engine_simps)
  obtain eng1 where eng1: "consume_messages api kafka topic good ?eng = (Inr (), eng1)"
    "hosts api oid op' routes (sent @ outputs_of enc routes results) eng1"
    using consume_hosts [OF assms(1,2) b assms(9) h] assms(11) unfolding bound_inputs_once by (metis prod.collapse fst_conv snd_conv)
  have frame: "dict_get (eng_consumers eng1) topic = Some (advance ?polled c)" "eng_running eng1"
    "topic \<in> set (eng_consumer_tasks eng1)" "dict_get_default (eng_topic_bindings eng1) topic [] = [oid]"
    using consume_messages_frame(1,3,6,7) [of api kafka topic good ?eng] assms(5,7,8) b
    by (simp_all add: eng1(1) engine_simps)
  have turn1: "consume_turn api kafka topic (Inr ?polled) (Inr ()) eng = log_error topic e eng1"
    using assms(5-8,10) eng1(1) by (simp add: consume_turn_def consume_messages_append)
  have same: "set_consumer topic (advance []) (log_error topic e eng1) = log_error topic e eng1"
  proof -
    have "dict_set topic d cs = cs" if "dict_get cs topic = Some d" for cs and d :: consumer
      using that by (induction cs) auto
    then show ?thesis using frame(1) by (simp add: set_consumer_def advance_def engine_simps)
  qed
  have turn2: "eng' = set_consumer topic (\<lambda>c. c\<lparr>cs_committed := cs_position c\<rparr>)
      (check_backpressure topic (log_error topic e eng1))"
    unfolding assms(12) using turn1 frame(1-3) same by (simp add: engine_run_def consume_turn_def engine_simps)
  have "map_option cs_position (dict_get (eng_consumers (check_backpressure topic (log_error topic e eng1))) topic) =
      Some (cs_position (advance ?polled c))"
    unfolding check_backpressure_def backpressure_fold_committed using frame(1) by (simp add: engine_simps)
  then obtain c' where c': "dict_get (eng_consumers (check_backpressure topic (log_error topic e eng1))) topic = Some c'"
    "cs_position c' = cs_position (advance ?polled c)"
    by auto
  have "dict_get (cs_position (advance ?polled c)) p = Some (mg_offset (last (good @ bad # rest)) + 1)"
    by (simp add: advance_def dict_simps)
  with c' eng1(2) show ?thesis unfolding turn2 by (simp add: hosts_def engine_simps)
qed

theorem undecodable_message_loses_batch_witness:
  "bp_sent (eng_bridge (engine_run workload_api sample_kafka
     [Consume ''w3-trades'' (Inr [(0, [] @ (sample_message 1 5)\<lparr>mg_value := []\<rparr> # [sample_message 1 6])]) (Inr ()),
      Consume ''w3-trades'' (Inr []) (Inr ())] sample_engine)) = []"
proof -
  have "kf_unpackb sample_kafka (mg_value ((sample_message 1 5)\<lparr>mg_value := []\<rparr>)) = Inl (Exc ''unpack'')"
    and "mapM_res (\<lambda>m. kf_unpackb sample_kafka (mg_value m)) [] = Inr (map PDict [])"
    and "run_operator (oa_step workload_api) (map (\<lambda>(msg, r). (tm_clocks (mg_timing msg 0), r)) (zip [] [])) sample_risk = ([], sample_risk)"
    by (simp_all add: sample_kafka_def)
  from undecodable_message_loses_batch [OF sample_kafka_reliable workload_api_stable sample_engine_facts(1,2,3) _ sample_engine_facts(4,5)
      this(2,1,3) refl, of 0 "[sample_message 1 6]"]
  show ?thesis by simp
qed

end
