(* ===== verification/Backpressure.thy ===== *)
theory Backpressure
  imports Delivery
begin

text \<open>
  Backpressure, CPU-bound operators and deregistration over all interleavings of the engine's coroutines.
\<close>

section \<open>Frames of whole steps\<close>

lemma bind_topics_frame [engine_simps]:
  "eng_operators (snd (bind_topics kafka oid ts eng)) = eng_operators eng"
  "eng_worker_queues (snd (bind_topics kafka oid ts eng)) = eng_worker_queues eng"
  "eng_queues (snd (bind_topics kafka oid ts eng)) = eng_queues eng"
  "eng_paused_topics (snd (bind_topics kafka oid ts eng)) = eng_paused_topics eng"
  "eng_draining (snd (bind_topics kafka oid ts eng)) = eng_draining eng"
  "eng_output_routes (snd (bind_topics kafka oid ts eng)) = eng_output_routes eng"
  "eng_metrics (snd (bind_topics kafka oid ts eng)) = eng_metrics eng"
  by (induction kafka oid ts eng rule: bind_topics.induct)
     (auto simp: Let_def start_consumer_def split: prod.splits sum.splits if_splits)

lemma register_operator_frame:
  defines "before op outs api eng \<equiv> eng\<lparr>eng_operators := dict_set (oa_id api op) op (eng_operators eng),
      eng_output_routes := dict_set (oa_id api op) outs (eng_output_routes eng)\<rparr>"
  shows "eng_consumers (snd (register_operator api kafka op ins outs eng)) =
      eng_consumers (snd (bind_topics kafka (oa_id api op) ins (before op outs api eng)))"
    and "eng_paused_topics (snd (register_operator api kafka op ins outs eng)) = eng_paused_topics eng"
    and "eng_operators (snd (register_operator api kafka op ins outs eng)) = dict_set (oa_id api op) op (eng_operators eng)"
    and "eng_metrics (snd (register_operator api kafka op ins outs eng)) = eng_metrics eng"
    and "eng_draining (snd (register_operator api kafka op ins outs eng)) = eng_draining eng"
proof -
  obtain r eng1 where b: "bind_topics kafka (oa_id api op) ins (before op outs api eng) = (r, eng1)" by (rule prod.exhaust)
  have reg: "snd (register_operator api kafka op ins outs eng) =
      (case r of Inl e \<Rightarrow> eng1 | Inr _ \<Rightarrow>
        if is_cpu_bound (oa_class api op)
        then eng1\<lparr>eng_worker_queues := dict_set (oa_id api op) (length (eng_queues eng1)) (eng_worker_queues eng1),
                  eng_queues := eng_queues eng1 @ [(oa_id api op, [])]\<rparr>
        else eng1)"
    using b by (cases r) (simp_all add: register_operator_def before_def Let_def)
  have eng1: "eng_paused_topics eng1 = eng_paused_topics eng" "eng_metrics eng1 = eng_metrics eng"
    "eng_operators eng1 = dict_set (oa_id api op) op (eng_operators eng)" "eng_draining eng1 = eng_draining eng"
    using bind_topics_frame [of kafka "oa_id api op" ins "before op outs api eng"] unfolding b by (simp_all add: before_def)
  show "eng_consumers (snd (register_operator api kafka op ins outs eng)) =
      eng_consumers (snd (bind_topics kafka (oa_id api op) ins (before op outs api eng)))"
    unfolding reg b by (cases r) simp_all
  show "eng_paused_topics (snd (register_operator api kafka op ins outs eng)) = eng_paused_topics eng"
    "eng_operators (snd (register_operator api kafka op ins outs eng)) = dict_set (oa_id api op) op (eng_operators eng)"
    "eng_metrics (snd (register_operator api kafka op ins outs eng)) = eng_metrics eng"
    "eng_draining (snd (register_operator api kafka op ins outs eng)) = eng_draining eng"
    unfolding reg using eng1 by (cases r; simp)+
qed

lemma worker_step_frame [engine_simps]:
  "eng_operators (worker_step api kafka q tm eng) = eng_operators eng"
  "eng_topic_bindings (worker_step api kafka q tm eng) = eng_topic_bindings eng"
  "eng_output_routes (worker_step api kafka q tm eng) = eng_output_routes eng"
  "eng_consumers (worker_step api kafka q tm eng) = eng_consumers eng"
  "eng_worker_queues (worker_step api kafka q tm eng) = eng_worker_queues eng"
  "eng_paused_topics (worker_step api kafka q tm eng) = eng_paused_topics eng"
  "eng_draining (worker_step api kafka q tm eng) = eng_draining eng"
  "hm_ingest_counts (eng_metrics (worker_step api kafka q tm eng)) = hm_ingest_counts (eng_metrics eng)"
  by (auto simp: worker_step_def engine_simps split: prod.splits list.splits)

lemma deregister_begin_frame [engine_simps]:
  "eng_topic_bindings (deregister_begin oid eng) = eng_topic_bindings eng"
  "eng_consumers (deregister_begin oid eng) = eng_consumers eng" "eng_queues (deregister_begin oid eng) = eng_queues eng"
  "eng_paused_topics (deregister_begin oid eng) = eng_paused_topics eng" "eng_metrics (deregister_begin oid eng) = eng_metrics eng"
  by (simp_all add: deregister_begin_def Let_def split: option.split)

lemma deregister_begin_get [engine_simps]:
  "dict_get (eng_worker_queues (deregister_begin oid eng)) k =
     (if k = oid \<and> dict_get (eng_operators eng) oid \<noteq> None then None else dict_get (eng_worker_queues eng) k)"
  "dict_get (eng_operators (deregister_begin oid eng)) k = (if k = oid then None else dict_get (eng_operators eng) k)"
  by (auto simp: deregister_begin_def Let_def dict_simps split: option.split)

lemma deregister_end_frame [engine_simps]:
  "eng_operators (deregister_end oid q eng) = eng_operators eng" "eng_topic_bindings (deregister_end oid q eng) = eng_topic_bindings eng"
  "eng_consumers (deregister_end oid q eng) = eng_consumers eng" "eng_worker_queues (deregister_end oid q eng) = eng_worker_queues eng"
  "eng_queues (deregister_end oid q eng) = eng_queues eng" "eng_paused_topics (deregister_end oid q eng) = eng_paused_topics eng"
  "eng_metrics (deregister_end oid q eng) = eng_metrics eng"
  by (simp_all add: deregister_end_def)

text \<open>A turn of a consumer is the messages, then backpressure, then a commit, or stops with a log entry.\<close>

definition turn_messages :: "'op operator_api \<Rightarrow> kafka_api \<Rightarrow> string \<Rightarrow> (int \<times> message list) list \<Rightarrow> 'op OperatorEngine \<Rightarrow>
    unit res \<times> 'op OperatorEngine" where
  "turn_messages api kafka topic records eng =
     consume_messages api kafka topic (concat (map snd records)) (set_consumer topic (advance records) eng)"

lemma turn_messages_frame [engine_simps]:
  "eng_topic_bindings (snd (turn_messages api kafka topic records eng)) = eng_topic_bindings eng"
  "eng_output_routes (snd (turn_messages api kafka topic records eng)) = eng_output_routes eng"
  "eng_worker_queues (snd (turn_messages api kafka topic records eng)) = eng_worker_queues eng"
  "eng_paused_topics (snd (turn_messages api kafka topic records eng)) = eng_paused_topics eng"
  "eng_draining (snd (turn_messages api kafka topic records eng)) = eng_draining eng"
  "hm_ingest_counts (eng_metrics (snd (turn_messages api kafka topic records eng))) = hm_ingest_counts (eng_metrics eng)"
  "dict_get (eng_consumers (snd (turn_messages api kafka topic records eng))) t =
     (if t = topic then map_option (advance records) (dict_get (eng_consumers eng) t) else dict_get (eng_consumers eng) t)"
  by (simp_all add: turn_messages_def engine_simps)

lemma consume_turn_cases:
  obtains "consume_turn api kafka topic poll commit eng = eng"
  | e where "consume_turn api kafka topic poll commit eng = log_error topic e eng"
  | c polled e where "dict_get (eng_consumers eng) topic = Some c"
      "consume_turn api kafka topic poll commit eng =
         log_error topic e (snd (turn_messages api kafka topic (if cs_paused c then [] else polled) eng))"
  | c polled e where "dict_get (eng_consumers eng) topic = Some c"
      "consume_turn api kafka topic poll commit eng =
         log_error topic e (check_backpressure topic (snd (turn_messages api kafka topic (if cs_paused c then [] else polled) eng)))"
  | c polled where "dict_get (eng_consumers eng) topic = Some c"
      "consume_turn api kafka topic poll commit eng = set_consumer topic (\<lambda>c. c\<lparr>cs_committed := cs_position c\<rparr>)
         (check_backpressure topic (snd (turn_messages api kafka topic (if cs_paused c then [] else polled) eng)))"
proof (cases "dict_get (eng_consumers eng) topic = None \<or> \<not> (eng_running eng \<and> topic \<in> set (eng_consumer_tasks eng))")
  case True
  then show ?thesis using that(1) by (auto simp: consume_turn_def split: option.split)
next
  case False
  then obtain c where c: "dict_get (eng_consumers eng) topic = Some c" "eng_running eng" "topic \<in> set (eng_consumer_tasks eng)"
    by auto
  show ?thesis
  proof (cases poll)
    case (Inl e)
    then show ?thesis using that(2) c by (simp add: consume_turn_def)
  next
    case (Inr polled)
    let ?m = "turn_messages api kafka topic (if cs_paused c then [] else polled) eng"
    have turn: "consume_turn api kafka topic poll commit eng =
        (case ?m of (Inl e, eng) \<Rightarrow> log_error topic e eng
         | (Inr _, eng) \<Rightarrow> (case commit of Inl e \<Rightarrow> log_error topic e (check_backpressure topic eng)
             | Inr _ \<Rightarrow> set_consumer topic (\<lambda>c. c\<lparr>cs_committed := cs_position c\<rparr>) (check_backpressure topic eng)))"
      unfolding consume_turn_def turn_messages_def Let_def using c Inr by simp
    obtain r eng1 where m: "?m = (r, eng1)" by (rule prod.exhaust)
    show ?thesis
    proof (cases r)
      case (Inl e)
      show ?thesis by (rule that(3) [OF c(1), of e polled]) (unfold turn m Inl, simp)
    next
      case Inr': (Inr u)
      show ?thesis
      proof (cases commit)
        case (Inl e)
        show ?thesis by (rule that(4) [OF c(1), of e polled]) (unfold turn m Inr', simp add: Inl)
      next
        case (Inr v)
        show ?thesis by (rule that(5) [OF c(1), of polled]) (unfold turn m Inr', simp add: Inr)
      qed
    qed
  qed
qed

lemma consume_turn_frame [engine_simps]:
  "eng_topic_bindings (consume_turn api kafka topic poll commit eng) = eng_topic_bindings eng"
  "eng_output_routes (consume_turn api kafka topic poll commit eng) = eng_output_routes eng"
  "eng_worker_queues (consume_turn api kafka topic poll commit eng) = eng_worker_queues eng"
  "eng_draining (consume_turn api kafka topic poll commit eng) = eng_draining eng"
  "hm_ingest_counts (eng_metrics (consume_turn api kafka topic poll commit eng)) = hm_ingest_counts (eng_metrics eng)"
  by (cases rule: consume_turn_cases [of api kafka topic poll commit eng]; simp add: engine_simps)+

section \<open>Pausing\<close>

text \<open>The engine's set of paused topics and the state of the consumers.\<close>

definition pause_inv :: "'op OperatorEngine \<Rightarrow> bool" where
  "pause_inv eng \<longleftrightarrow>
     (\<forall>t. case dict_get (eng_consumers eng) t of
            None \<Rightarrow> t \<notin> eng_paused_topics eng
          | Some c \<Rightarrow> cs_paused c \<longleftrightarrow> t \<in> eng_paused_topics eng)"

lemma pause_inv_cong:
  assumes "pause_inv eng" "eng_paused_topics eng' = eng_paused_topics eng"
    and "\<And>t. map_option cs_paused (dict_get (eng_consumers eng') t) = map_option cs_paused (dict_get (eng_consumers eng) t)"
  shows "pause_inv eng'"
  unfolding pause_inv_def
proof
  fix t
  show "case dict_get (eng_consumers eng') t of None \<Rightarrow> t \<notin> eng_paused_topics eng'
      | Some c \<Rightarrow> cs_paused c \<longleftrightarrow> t \<in> eng_paused_topics eng'"
    using assms(1)[unfolded pause_inv_def, rule_format, of t] assms(2) assms(3)[of t]
    by (cases "dict_get (eng_consumers eng) t"; cases "dict_get (eng_consumers eng') t") simp_all
qed

lemma pause_inv_at:
  "pause_inv eng \<Longrightarrow> case dict_get (eng_consumers eng) t of None \<Rightarrow> t \<notin> eng_paused_topics eng
     | Some c \<Rightarrow> cs_paused c \<longleftrightarrow> t \<in> eng_paused_topics eng"
  by (simp add: pause_inv_def)

lemma pause_inv_set:
  assumes "pause_inv eng" "dict_get (eng_consumers eng) topic = Some c"
  shows "pause_inv ((set_consumer topic (\<lambda>c. c\<lparr>cs_paused := True\<rparr>) eng)\<lparr>eng_paused_topics := insert topic (eng_paused_topics eng)\<rparr>)"
    and "pause_inv ((set_consumer topic (\<lambda>c. c\<lparr>cs_paused := False\<rparr>) eng)\<lparr>eng_paused_topics := eng_paused_topics eng - {topic}\<rparr>)"
proof -
  note at = pause_inv_at [OF assms(1)]
  show "pause_inv ((set_consumer topic (\<lambda>c. c\<lparr>cs_paused := True\<rparr>) eng)\<lparr>eng_paused_topics := insert topic (eng_paused_topics eng)\<rparr>)"
    unfolding pause_inv_def
  proof
    fix t show "case dict_get (eng_consumers ((set_consumer topic (\<lambda>c. c\<lparr>cs_paused := True\<rparr>) eng)\<lparr>eng_paused_topics := insert topic (eng_paused_topics eng)\<rparr>)) t of
        None \<Rightarrow> t \<notin> eng_paused_topics ((set_consumer topic (\<lambda>c. c\<lparr>cs_paused := True\<rparr>) eng)\<lparr>eng_paused_topics := insert topic (eng_paused_topics eng)\<rparr>)
      | Some c \<Rightarrow> cs_paused c \<longleftrightarrow> t \<in> eng_paused_topics ((set_consumer topic (\<lambda>c. c\<lparr>cs_paused := True\<rparr>) eng)\<lparr>eng_paused_topics := insert topic (eng_paused_topics eng)\<rparr>)"
      using at [of t] assms(2) by (cases "t = topic") (simp_all add: engine_simps split: option.splits)
  qed
  show "pause_inv ((set_consumer topic (\<lambda>c. c\<lparr>cs_paused := False\<rparr>) eng)\<lparr>eng_paused_topics := eng_paused_topics eng - {topic}\<rparr>)"
    unfolding pause_inv_def
  proof
    fix t show "case dict_get (eng_consumers ((set_consumer topic (\<lambda>c. c\<lparr>cs_paused := False\<rparr>) eng)\<lparr>eng_paused_topics := eng_paused_topics eng - {topic}\<rparr>)) t of
        None \<Rightarrow> t \<notin> eng_paused_topics ((set_consumer topic (\<lambda>c. c\<lparr>cs_paused := False\<rparr>) eng)\<lparr>eng_paused_topics := eng_paused_topics eng - {topic}\<rparr>)
      | Some c \<Rightarrow> cs_paused c \<longleftrightarrow> t \<in> eng_paused_topics ((set_consumer topic (\<lambda>c. c\<lparr>cs_paused := False\<rparr>) eng)\<lparr>eng_paused_topics := eng_paused_topics eng - {topic}\<rparr>)"
      using at [of t] assms(2) by (cases "t = topic") (simp_all add: engine_simps split: option.splits)
  qed
qed

lemma pause_inv_backpressure_one:
  assumes "pause_inv eng" "dict_get (eng_consumers eng) topic \<noteq> None"
  shows "pause_inv (backpressure_one topic oid eng)" "dict_get (eng_consumers (backpressure_one topic oid eng)) topic \<noteq> None"
proof -
  obtain c where "dict_get (eng_consumers eng) topic = Some c" using assms(2) by auto
  note paused = pause_inv_set [OF assms(1) this]
  show "pause_inv (backpressure_one topic oid eng)"
    using assms(1) paused by (simp add: backpressure_one_def Let_def split: option.split)
  show "dict_get (eng_consumers (backpressure_one topic oid eng)) topic \<noteq> None"
    using assms(2) by (auto simp: backpressure_one_def Let_def engine_simps split: option.split)
qed

lemma pause_inv_check_backpressure:
  assumes "pause_inv eng" "dict_get (eng_consumers eng) topic \<noteq> None"
  shows "pause_inv (check_backpressure topic eng)"
proof -
  have "pause_inv (fold (backpressure_one topic) oids eng)" for oids
    using assms
  proof (induction oids arbitrary: eng)
    case (Cons oid oids)
    show ?case using Cons.IH [OF pause_inv_backpressure_one [OF Cons.prems]] by simp
  qed simp
  then show ?thesis by (simp add: check_backpressure_def)
qed

lemma pause_inv_consume_turn:
  assumes "pause_inv eng"
  shows "pause_inv (consume_turn api kafka topic poll commit eng)"
proof -
  have log: "pause_inv (log_error w e eng')" if "pause_inv eng'" for w e eng'
    using that by (rule pause_inv_cong) (simp_all add: engine_simps)
  have msgs: "pause_inv (snd (turn_messages api kafka topic recs eng))" for recs
    using assms by (rule pause_inv_cong) (simp_all add: engine_simps advance_def option.map_comp comp_def)
  have check: "pause_inv (check_backpressure topic (snd (turn_messages api kafka topic recs eng)))"
    if "dict_get (eng_consumers eng) topic = Some c" for c recs
    by (rule pause_inv_check_backpressure [OF msgs]) (simp add: engine_simps that)
  have commit: "pause_inv (set_consumer topic (\<lambda>c. c\<lparr>cs_committed := cs_position c\<rparr>) eng')" if "pause_inv eng'" for eng'
    using that by (rule pause_inv_cong) (simp_all add: engine_simps option.map_comp comp_def)
  show ?thesis
    by (cases rule: consume_turn_cases [of api kafka topic poll commit eng]) (simp_all add: assms log msgs check commit)
qed

lemma pause_inv_start:
  assumes "pause_inv eng" "dict_get (eng_consumers eng) topic = None"
  shows "pause_inv (snd (start_consumer kafka topic eng))"
proof (cases "kf_connect kafka topic")
  case (Inr u)
  have "case dict_get (eng_consumers (snd (start_consumer kafka topic eng))) t of
      None \<Rightarrow> t \<notin> eng_paused_topics (snd (start_consumer kafka topic eng))
    | Some c \<Rightarrow> cs_paused c \<longleftrightarrow> t \<in> eng_paused_topics (snd (start_consumer kafka topic eng))" for t
    using pause_inv_at [OF assms(1), of t] assms(2) by (cases "t = topic") (simp_all add: start_consumer_def Inr dict_simps split: option.splits)
  then show ?thesis unfolding pause_inv_def by blast
qed (simp add: start_consumer_def assms)

lemma pause_inv_bind_topics: "pause_inv eng \<Longrightarrow> pause_inv (snd (bind_topics kafka oid ts eng))"
proof (induction kafka oid ts eng rule: bind_topics.induct)
  case (2 kafka oid topic topics eng)
  let ?eng = "eng\<lparr>eng_topic_bindings := dict_set topic (dict_get_default (eng_topic_bindings eng) topic [] @ [oid]) (eng_topic_bindings eng)\<rparr>"
  have p: "pause_inv ?eng" by (rule pause_inv_cong [OF "2.prems"]) simp_all
  show ?case
  proof (cases "dict_get (eng_consumers eng) topic")
    case None
    obtain r eng1 where s: "start_consumer kafka topic ?eng = (r, eng1)" by (rule prod.exhaust)
    have "pause_inv (snd (start_consumer kafka topic ?eng))" by (rule pause_inv_start [OF p]) (simp add: None)
    then have "pause_inv eng1" using s by simp
    with s None "2.IH"(1) show ?thesis by (cases r) (simp_all add: Let_def)
  next
    case (Some c)
    then show ?thesis using "2.IH"(2) p by (simp add: Let_def)
  qed
qed simp

lemma pause_inv_step: "pause_inv eng \<Longrightarrow> pause_inv (engine_step api kafka ev eng)"
proof (cases ev)
  case (Register op ins outs)
  let ?eng = "eng\<lparr>eng_operators := dict_set (oa_id api op) op (eng_operators eng),
      eng_output_routes := dict_set (oa_id api op) outs (eng_output_routes eng)\<rparr>"
  assume "pause_inv eng"
  then have "pause_inv ?eng" by (rule pause_inv_cong) simp_all
  then have bound: "pause_inv (snd (bind_topics kafka (oa_id api op) ins ?eng))" by (rule pause_inv_bind_topics)
  show ?thesis unfolding Register engine_step.simps
    by (rule pause_inv_cong [OF bound]) (simp_all add: register_operator_frame engine_simps)
next
  case Stop
  assume inv: "pause_inv eng"
  have "map_of (map (\<lambda>(t, c). (t, f c)) cs) t = map_option f (map_of cs t)" for f :: "consumer \<Rightarrow> consumer" and cs and t :: string
    by (induction cs) auto
  then show ?thesis using inv
    by (intro pause_inv_cong [OF inv]) (simp_all add: Stop engine_stop_def option.map_comp comp_def)
qed (simp_all add: engine_start_def pause_inv_consume_turn, (rule pause_inv_cong; simp add: engine_simps)+)


end
