(* ===== verification/Lifecycle.thy ===== *)
theory Lifecycle
  imports Backpressure
begin

text \<open>
  How the engine's queues, its pausing of topics and its deregistrations develop over whole runs.
\<close>

section \<open>Which queue decides\<close>

text \<open>The depths of the queues of the operators bound to a topic, in the order of the bindings.\<close>

definition queue_depths :: "'op OperatorEngine \<Rightarrow> string list \<Rightarrow> int list" where
  "queue_depths eng oids =
     concat (map (\<lambda>oid. case dict_get (eng_worker_queues eng) oid of None \<Rightarrow> [] | Some q \<Rightarrow> [int (length (snd (eng_queues eng ! q)))]) oids)"

lemma queue_depths_cong:
  "eng_worker_queues eng' = eng_worker_queues eng \<Longrightarrow> eng_queues eng' = eng_queues eng \<Longrightarrow>
   queue_depths eng' oids = queue_depths eng oids"
  by (simp add: queue_depths_def cong: option.case_cong)

text \<open>The last queue outside the band decides.  Of the operators bound to a topic, the last one in the order of
  registration whose queue is above the high or below the low water mark determines alone whether the topic
  is paused after the check; with no such queue the topic stays as it was.  So with one queue this is
  hysteresis, but with two a short queue resumes what an overfull one has just paused.\<close>

theorem backpressure_last_decides:
  assumes "hc_backpressure_low_water (eng_config eng) \<le> hc_backpressure_high_water (eng_config eng)"
    and "outside = filter (\<lambda>d. d < hc_backpressure_low_water (eng_config eng) \<or> hc_backpressure_high_water (eng_config eng) < d)
      (queue_depths eng (dict_get_default (eng_topic_bindings eng) topic []))"
  shows "topic \<in> eng_paused_topics (check_backpressure topic eng) \<longleftrightarrow>
    (if outside = [] then topic \<in> eng_paused_topics eng
     else hc_backpressure_high_water (eng_config eng) < last outside)"
proof -
  let ?lo = "hc_backpressure_low_water (eng_config eng)" and ?hi = "hc_backpressure_high_water (eng_config eng)"
  let ?out = "\<lambda>oids. filter (\<lambda>d. d < ?lo \<or> ?hi < d) (queue_depths eng oids)"
  have "topic \<in> eng_paused_topics (fold (backpressure_one topic) oids e) \<longleftrightarrow>
      (if ?out oids = [] then topic \<in> eng_paused_topics e else ?hi < last (?out oids))"
    if "eng_worker_queues e = eng_worker_queues eng" "eng_queues e = eng_queues eng" "eng_config e = eng_config eng" for oids e
    using that
  proof (induction oids arbitrary: e)
    case Nil
    then show ?case by (simp add: queue_depths_def)
  next
    case (Cons oid oids)
    have IH: "topic \<in> eng_paused_topics (fold (backpressure_one topic) oids (backpressure_one topic oid e)) \<longleftrightarrow>
        (if ?out oids = [] then topic \<in> eng_paused_topics (backpressure_one topic oid e) else ?hi < last (?out oids))"
      by (rule Cons.IH) (simp_all add: engine_simps Cons.prems)
    have one: "topic \<in> eng_paused_topics (backpressure_one topic oid e) \<longleftrightarrow>
        (if ?out [oid] = [] then topic \<in> eng_paused_topics e else ?hi < last (?out [oid]))"
      using Cons.prems assms(1) by (auto simp: backpressure_one_def Let_def queue_depths_def split: option.split)
    have out: "?out (oid # oids) = ?out [oid] @ ?out oids" by (simp add: queue_depths_def)
    show ?case unfolding out fold_Cons o_apply IH one by auto
  qed
  then show ?thesis unfolding assms(2) check_backpressure_def by simp
qed

definition sample_queues :: "any_operator OperatorEngine" where
  "sample_queues = sample_engine
     \<lparr>eng_topic_bindings := [(''t'', [''a'', ''b''])], eng_worker_queues := [(''a'', 0), (''b'', 1)],
      eng_queues := [(''a'', replicate 9 \<lparr>wi_op = sample_risk, wi_record = PNone, wi_offset = 0, wi_start_ns = 0\<rparr>), (''b'', [])]\<rparr>"

theorem backpressure_last_decides_witness:
  "''t'' \<notin> eng_paused_topics (check_backpressure ''t'' sample_queues)"
proof -
  have c: "hc_backpressure_low_water (eng_config sample_queues) = 2" "hc_backpressure_high_water (eng_config sample_queues) = 6"
    by (simp_all add: sample_queues_def sample_engine_def engine_run_def OperatorEngine_new_def engine_start_def
        register_operator_def Let_def start_consumer_def sample_kafka_def workload_api_def sample_risk_def RiskCheck_new_def
        dict_get_default_def HEAConfig_default_def)
  have "queue_depths sample_queues (dict_get_default (eng_topic_bindings sample_queues) ''t'' []) = [9, 0]"
    by (simp add: queue_depths_def sample_queues_def dict_get_default_def)
  with backpressure_last_decides [OF _ refl, of sample_queues "''t''"] c show ?thesis by simp
qed

section \<open>A topic that stays paused\<close>

text \<open>The events that can happen while no operator is registered.\<close>

fun registers :: "'op engine_event \<Rightarrow> bool" where
  "registers (Register op ins outs) = True"
| "registers _ = False"

definition starved :: "string \<Rightarrow> (int, int) dict \<Rightarrow> 'op OperatorEngine \<Rightarrow> bool" where
  "starved topic pos eng \<longleftrightarrow>
     topic \<in> eng_paused_topics eng \<and>
     (\<exists>c. dict_get (eng_consumers eng) topic = Some c \<and> cs_paused c \<and> cs_position c = pos) \<and>
     list_all (\<lambda>oid. dict_get (eng_worker_queues eng) oid = None) (dict_get_default (eng_topic_bindings eng) topic [])"

lemma starved_cong:
  assumes "starved topic pos eng" "eng_paused_topics eng' = eng_paused_topics eng"
    and "\<exists>c'. dict_get (eng_consumers eng') topic = Some c' \<and> cs_paused c' \<and> cs_position c' = pos"
    and "\<And>oid. dict_get (eng_worker_queues eng) oid = None \<Longrightarrow> dict_get (eng_worker_queues eng') oid = None"
    and "dict_get (eng_topic_bindings eng') topic = dict_get (eng_topic_bindings eng) topic"
  shows "starved topic pos eng'"
  using assms by (auto simp: starved_def list_all_iff dict_get_default_def)

lemma backpressure_other:
  assumes "t \<noteq> topic"
  shows "topic \<in> eng_paused_topics (check_backpressure t eng) \<longleftrightarrow> topic \<in> eng_paused_topics eng"
    and "dict_get (eng_consumers (check_backpressure t eng)) topic = dict_get (eng_consumers eng) topic"
proof -
  have one: "topic \<in> eng_paused_topics (backpressure_one t oid e) \<longleftrightarrow> topic \<in> eng_paused_topics e"
    "dict_get (eng_consumers (backpressure_one t oid e)) topic = dict_get (eng_consumers e) topic" for oid and e :: "'a OperatorEngine"
    using assms by (auto simp: backpressure_one_def Let_def engine_simps split: option.split)
  have "topic \<in> eng_paused_topics (fold (backpressure_one t) oids e) \<longleftrightarrow> topic \<in> eng_paused_topics e"
    "dict_get (eng_consumers (fold (backpressure_one t) oids e)) topic = dict_get (eng_consumers e) topic"
    for oids and e :: "'a OperatorEngine"
    by (induction oids arbitrary: e) (simp_all add: one)
  then show "topic \<in> eng_paused_topics (check_backpressure t eng) \<longleftrightarrow> topic \<in> eng_paused_topics eng"
    "dict_get (eng_consumers (check_backpressure t eng)) topic = dict_get (eng_consumers eng) topic"
    by (simp_all add: check_backpressure_def)
qed

lemma backpressure_no_queue:
  assumes "list_all (\<lambda>oid. dict_get (eng_worker_queues eng) oid = None) (dict_get_default (eng_topic_bindings eng) topic [])"
  shows "check_backpressure topic eng = eng"
proof -
  have "fold (backpressure_one topic) oids eng = eng"
    if "list_all (\<lambda>oid. dict_get (eng_worker_queues eng) oid = None) oids" for oids
    using that by (induction oids) (simp_all add: backpressure_one_def)
  with assms show ?thesis by (simp add: check_backpressure_def)
qed

lemma starved_consume:
  assumes "starved topic pos eng"
  shows "starved topic pos (consume_turn api kafka t poll commit eng)"
proof -
  obtain c where c: "dict_get (eng_consumers eng) topic = Some c" "cs_paused c" "cs_position c = pos"
    using assms by (auto simp: starved_def)
  have keep: "advance [] d = d" for d by (simp add: advance_def)
  have own: "starved topic pos (snd (turn_messages api kafka topic [] eng))"
    using c by (intro starved_cong [OF assms]) (simp_all add: engine_simps keep)
  have other: "starved topic pos (snd (turn_messages api kafka t recs eng))" if "t \<noteq> topic" for recs
    using that c by (intro starved_cong [OF assms]) (simp_all add: engine_simps)
  have log: "starved topic pos (log_error w e eng')" if "starved topic pos eng'" for w e eng'
    using that by (rule starved_cong) (use that in \<open>simp_all add: engine_simps starved_def\<close>)
  have commit: "starved topic pos (set_consumer t (\<lambda>c. c\<lparr>cs_committed := cs_position c\<rparr>) eng')" if "starved topic pos eng'" for eng'
  proof -
    note starved = that
    obtain d where "dict_get (eng_consumers eng') topic = Some d" "cs_paused d" "cs_position d = pos"
      using starved by (auto simp: starved_def)
    then show ?thesis by (intro starved_cong [OF starved]) (auto simp: engine_simps)
  qed
  have check: "starved topic pos (check_backpressure t eng')" if "starved topic pos eng'" for eng'
  proof (cases "t = topic")
    case True
    then show ?thesis using that backpressure_no_queue [of eng' topic] by (simp add: starved_def)
  next
    case False
    note other = backpressure_other [OF False, of eng']
    show ?thesis using that other by (simp add: starved_def engine_simps)
  qed
  show ?thesis
  proof (cases "t = topic")
    case True
    then show ?thesis
      using c by (cases rule: consume_turn_cases [of api kafka t poll commit eng])
        (simp_all add: assms log commit [unfolded True] check [unfolded True] own)
  next
    case False
    then show ?thesis
      by (cases rule: consume_turn_cases [of api kafka t poll commit eng]) (simp_all add: assms log commit check other)
  qed
qed

lemma starved_step:
  assumes "starved topic pos eng" "\<not> registers ev"
  shows "starved topic pos (engine_step api kafka ev eng)"
proof -
  obtain c where c: "dict_get (eng_consumers eng) topic = Some c" "cs_paused c" "cs_position c = pos"
    using assms by (auto simp: starved_def)
  show ?thesis
  proof (cases ev)
    case Stop
    have "map_of (map (\<lambda>(t, c). (t, f c)) cs) t = map_option f (map_of cs t)" for f :: "consumer \<Rightarrow> consumer" and cs and t :: string
      by (induction cs) auto
    then show ?thesis using c by (intro starved_cong [OF assms(1)]) (simp_all add: Stop engine_stop_def)
  next
    case (Consume t poll commit)
    then show ?thesis using starved_consume [OF assms(1)] by simp
  next
    case Start
    then show ?thesis using c by (intro starved_cong [OF assms(1)]) (simp_all add: engine_start_def)
  next
    case (Register op ins outs)
    then show ?thesis using assms(2) by simp
  qed (use c in \<open>intro starved_cong [OF assms(1)]; simp add: engine_simps\<close>)+
qed

text \<open>A topic can stay paused for ever.  If it was paused and its operators have lost their queues, as they do when
  the operator that filled its queue is deregistered, then nothing but a new registration ever resumes it: no
  poll, worker step, deregistration or restart lets its consumer read another message.\<close>

theorem paused_topic_starves:
  assumes "topic \<in> eng_paused_topics eng" "dict_get (eng_consumers eng) topic = Some c" "cs_paused c"
    and "list_all (\<lambda>oid. dict_get (eng_worker_queues eng) oid = None) (dict_get_default (eng_topic_bindings eng) topic [])"
    and "list_all (\<lambda>ev. \<not> registers ev) events"
  shows "\<exists>c'. dict_get (eng_consumers (engine_run api kafka events eng)) topic = Some c' \<and> cs_paused c' \<and>
    cs_position c' = cs_position c"
proof -
  have "starved topic (cs_position c) (fold (engine_step api kafka) events e)" if "starved topic (cs_position c) e" for e
    using that assms(5) by (induction events arbitrary: e) (simp_all add: starved_step)
  moreover have "starved topic (cs_position c) eng" using assms(1-4) by (auto simp: starved_def)
  ultimately show ?thesis by (simp add: engine_run_def starved_def)
qed

definition sample_paused :: "any_operator OperatorEngine" where
  "sample_paused = sample_engine
     \<lparr>eng_paused_topics := {''w3-trades''},
      eng_consumers := [(''w3-trades'', \<lparr>cs_paused = True, cs_position = [(0, 7)], cs_committed = [], cs_stopped = False\<rparr>)]\<rparr>"

theorem paused_topic_starves_witness:
  "\<exists>c'. dict_get (eng_consumers (engine_run workload_api sample_kafka
      [Deregister ''risk-model'', Consume ''w3-trades'' (Inr [(0, [sample_message 1 7])]) (Inr ())] sample_paused)) ''w3-trades'' = Some c' \<and>
     cs_paused c' \<and> cs_position c' = [(0, 7)]"
proof -
  have "eng_worker_queues sample_engine = []"
    by (simp add: sample_engine_def engine_run_def OperatorEngine_new_def engine_start_def register_operator_def Let_def
        start_consumer_def sample_kafka_def workload_api_def dict_get_default_def)
  then have "list_all (\<lambda>oid. dict_get (eng_worker_queues sample_paused) oid = None)
      (dict_get_default (eng_topic_bindings sample_paused) ''w3-trades'' [])"
    by (simp add: sample_paused_def list_all_iff)
  moreover have "dict_get (eng_consumers sample_paused) ''w3-trades'' =
      Some \<lparr>cs_paused = True, cs_position = [(0, 7)], cs_committed = [], cs_stopped = False\<rparr>"
    "''w3-trades'' \<in> eng_paused_topics sample_paused"
    by (simp_all add: sample_paused_def)
  ultimately show ?thesis
    using paused_topic_starves [of "''w3-trades''" sample_paused _
        "[Deregister ''risk-model'', Consume ''w3-trades'' (Inr [(0, [sample_message 1 7])]) (Inr ())]" workload_api sample_kafka]
    by simp
qed

section \<open>CPU-bound operators\<close>

fun registers_id :: "'op operator_api \<Rightarrow> string \<Rightarrow> 'op engine_event \<Rightarrow> bool" where
  "registers_id api oid (Register op ins outs) \<longleftrightarrow> oa_id api op = oid"
| "registers_id api oid _ \<longleftrightarrow> False"

text \<open>The operator is gone, or still the one that was registered.\<close>

definition frozen :: "string \<Rightarrow> 'op \<Rightarrow> 'op OperatorEngine \<Rightarrow> bool" where
  "frozen oid op eng \<longleftrightarrow> dict_get (eng_operators eng) oid = None \<or> dict_get (eng_operators eng) oid = Some op"

lemma frozen_dispatch:
  assumes "frozen oid op eng" "is_cpu_bound (oa_class api op)"
  shows "frozen oid op (dispatch api kafka k v off tm eng)"
  using assms by (auto simp: dispatch_def frozen_def engine_simps dict_simps split: option.split prod.split)

lemma frozen_dispatch_all:
  "frozen oid op eng \<Longrightarrow> is_cpu_bound (oa_class api op) \<Longrightarrow> frozen oid op (dispatch_all api kafka ps v msg eng)"
  by (induction api kafka ps v msg eng rule: dispatch_all.induct) (simp_all add: frozen_dispatch)

lemma frozen_consume_messages:
  "frozen oid op eng \<Longrightarrow> is_cpu_bound (oa_class api op) \<Longrightarrow> frozen oid op (snd (consume_messages api kafka topic msgs eng))"
  by (induction msgs arbitrary: eng) (auto simp: frozen_dispatch_all split: sum.split)

lemma frozen_step:
  assumes "frozen oid op eng" "is_cpu_bound (oa_class api op)" "\<not> registers_id api oid ev"
  shows "frozen oid op (engine_step api kafka ev eng)"
proof (cases ev)
  case (Consume topic poll commit)
  have "frozen oid op (snd (turn_messages api kafka topic recs eng))" for recs
    unfolding turn_messages_def
    by (rule frozen_consume_messages [OF _ assms(2)]) (use assms(1) in \<open>simp add: frozen_def engine_simps\<close>)
  then show ?thesis unfolding Consume engine_step.simps
    by (cases rule: consume_turn_cases [of api kafka topic poll commit eng])
      (use assms(1) in \<open>simp_all add: frozen_def engine_simps\<close>)
next
  case (Register op' ins outs)
  then show ?thesis using assms(1,3) by (auto simp: frozen_def register_operator_frame dict_simps)
qed (use assms(1) in \<open>simp_all add: frozen_def engine_simps engine_start_def engine_stop_def\<close>)

text \<open>C27: An operator marked as CPU bound never changes its state.  Its records are processed by copies in other
  processes, so whatever is polled and worked off, in any order, the operator the engine holds, and hence the
  state a migration would take along, is the one that was registered.\<close>

theorem cpu_operator_state_lost:
  assumes "dict_get (eng_operators eng) oid = Some op" "is_cpu_bound (oa_class api op)"
    and "list_all (\<lambda>ev. \<not> registers_id api oid ev) events"
  shows "dict_get (eng_operators (engine_run api kafka events eng)) oid \<in> {None, Some op}"
proof -
  have "frozen oid op (fold (engine_step api kafka) events e)" if "frozen oid op e" for e
    using that assms(3) by (induction events arbitrary: e) (simp_all add: frozen_step assms(2))
  moreover have "frozen oid op eng" using assms(1) by (simp add: frozen_def)
  ultimately show ?thesis by (auto simp: frozen_def engine_run_def)
qed

text \<open>The risk check, marked as CPU bound.\<close>

definition cpu_api :: "any_operator operator_api" where
  "cpu_api = workload_api\<lparr>oa_class := (\<lambda>op. cpu_bound [])\<rparr>"

definition cpu_engine :: "any_operator OperatorEngine" where
  "cpu_engine = engine_run cpu_api sample_kafka [Start, Register sample_risk [''w3-trades''] [''out'']]
     (OperatorEngine_new HEAConfig_default (HEAMetrics_new (2/10) 500 ''localhost:9092'')
       \<lparr>bp_bootstrap = ''kafka:9092'', bp_producer = True, bp_sent = []\<rparr>)"

lemma cpu_engine_operator:
  "dict_get (eng_operators cpu_engine) ''risk-model'' = Some sample_risk" "is_cpu_bound (oa_class cpu_api sample_risk)"
  by (simp_all add: cpu_engine_def engine_run_def OperatorEngine_new_def register_operator_frame cpu_api_def workload_api_def
      sample_risk_def RiskCheck_new_def engine_start_def)

theorem cpu_operator_state_lost_witness:
  "dict_get (eng_operators (engine_run cpu_api sample_kafka
     [Consume ''w3-trades'' (Inr [(0, [sample_message 1 0])]) (Inr ()), Work 0 (mg_timing (sample_message 1 0) 0)] cpu_engine)) ''risk-model''
     \<in> {None, Some sample_risk}"
  by (rule cpu_operator_state_lost [OF cpu_engine_operator]) simp

section \<open>Deregistration\<close>

text \<open>A queue that no operator's name leads to any more: only its worker still holds it.\<close>

definition detached :: "nat \<Rightarrow> 'op OperatorEngine \<Rightarrow> bool" where
  "detached q eng \<longleftrightarrow> q < length (eng_queues eng) \<and> (\<forall>k. dict_get (eng_worker_queues eng) k \<noteq> Some q)"

definition backlog :: "nat \<Rightarrow> 'op OperatorEngine \<Rightarrow> nat" where
  "backlog q eng = length (snd (eng_queues eng ! q))"

fun works_on :: "nat \<Rightarrow> 'op engine_event \<Rightarrow> bool" where
  "works_on q (Work q' tm) \<longleftrightarrow> q' = q"
| "works_on q _ \<longleftrightarrow> False"

fun completes :: "string \<Rightarrow> nat \<Rightarrow> 'op engine_event \<Rightarrow> bool" where
  "completes oid q (DeregisterDone oid' q') \<longleftrightarrow> oid' = oid \<and> q' = q"
| "completes oid q _ \<longleftrightarrow> False"

lemma detached_dispatch:
  assumes "detached q eng"
  shows "detached q (dispatch api kafka k v off tm eng)" "backlog q (dispatch api kafka k v off tm eng) = backlog q eng"
proof -
  have ne: "x \<noteq> q" if "dict_get (eng_worker_queues eng) k = Some x" for x using assms that by (auto simp: detached_def)
  show "detached q (dispatch api kafka k v off tm eng)"
    using assms by (auto simp: dispatch_def detached_def engine_simps split: option.split prod.split)
  show "backlog q (dispatch api kafka k v off tm eng) = backlog q eng"
    using ne by (auto simp: dispatch_def backlog_def engine_simps split: option.split prod.split)
qed

lemma detached_dispatch_all:
  assumes "detached q eng"
  shows "detached q (dispatch_all api kafka ps v msg eng) \<and> backlog q (dispatch_all api kafka ps v msg eng) = backlog q eng"
  using assms
proof (induction ps arbitrary: eng)
  case (Cons p ps)
  obtain i k where p: "p = (i, k)" by (rule prod.exhaust)
  show ?case using Cons.IH [OF detached_dispatch(1) [OF Cons.prems]] detached_dispatch(2) [OF Cons.prems] by (simp add: p)
qed simp

lemma detached_consume_messages:
  assumes "detached q eng"
  shows "detached q (snd (consume_messages api kafka topic msgs eng)) \<and>
    backlog q (snd (consume_messages api kafka topic msgs eng)) = backlog q eng"
  using assms
proof (induction msgs arbitrary: eng)
  case (Cons msg msgs)
  show ?case
  proof (cases "kf_unpackb kafka (mg_value msg)")
    case (Inl e)
    then show ?thesis using Cons.prems by simp
  next
    case (Inr v)
    note all = detached_dispatch_all [OF Cons.prems, of api kafka "enumerate 0 (dict_get_default (eng_topic_bindings eng) topic [])" v msg]
    show ?thesis using Cons.IH [OF conjunct1 [OF all]] all by (simp add: Inr)
  qed
qed simp

lemma detached_cong:
  "detached q eng \<Longrightarrow> eng_queues eng' = eng_queues eng \<Longrightarrow> eng_worker_queues eng' = eng_worker_queues eng \<Longrightarrow>
   detached q eng' \<and> backlog q eng' = backlog q eng"
  by (simp add: detached_def backlog_def)

lemma register_operator_queues:
  "(eng_queues (snd (register_operator api kafka op ins outs eng)) = eng_queues eng \<and>
    eng_worker_queues (snd (register_operator api kafka op ins outs eng)) = eng_worker_queues eng) \<or>
   (eng_queues (snd (register_operator api kafka op ins outs eng)) = eng_queues eng @ [(oa_id api op, [])] \<and>
    eng_worker_queues (snd (register_operator api kafka op ins outs eng)) =
      dict_set (oa_id api op) (length (eng_queues eng)) (eng_worker_queues eng))"
proof -
  let ?before = "eng\<lparr>eng_operators := dict_set (oa_id api op) op (eng_operators eng),
      eng_output_routes := dict_set (oa_id api op) outs (eng_output_routes eng)\<rparr>"
  obtain r eng1 where b: "bind_topics kafka (oa_id api op) ins ?before = (r, eng1)" by (rule prod.exhaust)
  then have "eng_queues eng1 = eng_queues eng" "eng_worker_queues eng1 = eng_worker_queues eng"
    using bind_topics_frame(2,3) [of kafka "oa_id api op" ins ?before] by simp_all
  then show ?thesis using b by (cases r) (simp_all add: register_operator_def Let_def)
qed

lemma detached_step:
  assumes "detached q eng"
  shows "detached q (engine_step api kafka ev eng)"
    and "backlog q (engine_step api kafka ev eng) \<le> backlog q eng - (if works_on q ev then 1 else 0)"
proof -
  have same: "detached q eng' \<and> backlog q eng' \<le> backlog q eng"
    if "eng_queues eng' = eng_queues eng" "eng_worker_queues eng' = eng_worker_queues eng" for eng'
    using detached_cong [OF assms that] by simp
  have "detached q (engine_step api kafka ev eng) \<and>
      backlog q (engine_step api kafka ev eng) \<le> backlog q eng - (if works_on q ev then 1 else 0)"
  proof (cases ev)
    case (Register op ins outs)
    then show ?thesis using register_operator_queues [of api kafka op ins outs eng] assms
      by (auto simp: detached_def backlog_def dict_simps nth_append split: if_splits)
  next
    case (Deregister oid)
    then show ?thesis using assms by (simp add: detached_def backlog_def engine_simps)
  next
    case (Consume topic poll commit)
    have msgs: "detached q (snd (turn_messages api kafka topic recs eng)) \<and>
        backlog q (snd (turn_messages api kafka topic recs eng)) = backlog q eng" for recs
      unfolding turn_messages_def
      using detached_consume_messages [of q "set_consumer topic (advance recs) eng"] assms
      by (simp add: detached_def backlog_def engine_simps)
    show ?thesis unfolding Consume engine_step.simps
      by (cases rule: consume_turn_cases [of api kafka topic poll commit eng])
        (use assms msgs in \<open>simp_all add: detached_def backlog_def engine_simps\<close>)
  next
    case (Work q' tm)
    then show ?thesis using assms
      by (auto simp: worker_step_def detached_def backlog_def engine_simps nth_list_update split: prod.splits list.splits)
  qed (use same in \<open>simp_all add: engine_simps engine_start_def engine_stop_def\<close>)
  then show "detached q (engine_step api kafka ev eng)"
    "backlog q (engine_step api kafka ev eng) \<le> backlog q eng - (if works_on q ev then 1 else 0)"
    by simp_all
qed

lemma detached_run:
  assumes "detached q eng"
  shows "detached q (engine_run api kafka events eng)"
    and "backlog q (engine_run api kafka events eng) \<le> backlog q eng - length (filter (works_on q) events)"
proof -
  have "detached q (fold (engine_step api kafka) events eng) \<and>
      backlog q (fold (engine_step api kafka) events eng) \<le> backlog q eng - length (filter (works_on q) events)"
    using assms
  proof (induction events arbitrary: eng)
    case (Cons ev events)
    note step = detached_step [OF Cons.prems, of api kafka ev]
    from Cons.IH [OF step(1)] step(2) show ?case by (auto split: if_splits)
  qed simp
  then show "detached q (engine_run api kafka events eng)"
    "backlog q (engine_run api kafka events eng) \<le> backlog q eng - length (filter (works_on q) events)"
    by (simp_all add: engine_run_def)
qed

lemma draining_run:
  assumes "(oid, q) \<in> set (eng_draining eng)" "list_all (\<lambda>ev. \<not> completes oid q ev) events"
  shows "(oid, q) \<in> set (eng_draining (engine_run api kafka events eng))"
proof -
  have other: "(oid, q) \<in> set (remove1 (o', q') xs)" if "(oid, q) \<in> set xs" "\<not> (o' = oid \<and> q' = q)" for o' q' and xs :: "(string \<times> nat) list"
    using that by (subst in_set_remove1) auto
  have "(oid, q) \<in> set (eng_draining (engine_step api kafka ev e))"
    if "(oid, q) \<in> set (eng_draining e)" "\<not> completes oid q ev" for ev e
    using that
    by (cases ev) (auto simp: engine_simps engine_start_def engine_stop_def register_operator_frame deregister_begin_def
        deregister_end_def Let_def other split: option.split)
  then have "(oid, q) \<in> set (eng_draining (fold (engine_step api kafka) events e))" if "(oid, q) \<in> set (eng_draining e)" for e
    using that assms(2) by (induction events arbitrary: e) simp_all
  with assms(1) show ?thesis by (simp add: engine_run_def)
qed

text \<open>C28: A deregistration that waits for its queue always completes.  However the other coroutines run in between,
  once the queue's worker has run as often as the queue had records, the queue is empty and the deregistration
  finishes.  It then removes the output route under the operator's name, also when the operator has been
  registered again while it waited, whose outputs are sent nowhere from then on.\<close>

theorem deregistration_completes:
  assumes "(oid, q) \<in> set (eng_draining eng)" "q < length (eng_queues eng)"
    and "list_all (\<lambda>(k, q'). q' \<noteq> q) (eng_worker_queues eng)"
    and "length (snd (eng_queues eng ! q)) \<le> length (filter (works_on q) events)"
    and "list_all (\<lambda>ev. \<not> completes oid q ev) events"
    and "eng' = engine_run api kafka (events @ [DeregisterDone oid q]) eng"
  shows "snd (eng_queues eng' ! q) = [] \<and> dict_get (eng_output_routes eng') oid = None \<and>
    count_list (eng_draining eng') (oid, q) < count_list (eng_draining (engine_run api kafka events eng)) (oid, q)"
proof -
  let ?eng = "engine_run api kafka events eng"
  have d: "detached q eng"
    using assms(2,3) by (auto simp: detached_def list_all_iff dest: map_of_SomeD)
  have empty: "snd (eng_queues ?eng ! q) = []"
    using detached_run(2) [OF d, of api kafka events] assms(4) by (simp add: backlog_def)
  have waiting: "(oid, q) \<in> set (eng_draining ?eng)" by (rule draining_run [OF assms(1,5)])
  have end': "eng' = deregister_end oid q ?eng" by (simp add: assms(6) engine_run_def)
  have "count_list (remove1 x xs) x < count_list xs x" if "x \<in> set xs" for x :: "string \<times> nat" and xs
    using that by (induction xs) auto
  then show ?thesis using waiting empty by (simp add: end' deregister_end_def dict_simps)
qed

definition sample_draining :: "any_operator OperatorEngine" where
  "sample_draining = (engine_run cpu_api sample_kafka [Consume ''w3-trades'' (Inr [(0, [sample_message 1 0])]) (Inr ())] cpu_engine)
     \<lparr>eng_draining := [(''risk-model'', 0)], eng_worker_queues := [],
      eng_queues := [(''risk-model'', [\<lparr>wi_op = sample_risk, wi_record = PNone, wi_offset = 0, wi_start_ns = 0\<rparr>])]\<rparr>"

theorem deregistration_completes_witness:
  "dict_get (eng_output_routes (engine_run cpu_api sample_kafka
     ([Work 0 (mg_timing (sample_message 1 0) 0)] @ [DeregisterDone ''risk-model'' 0]) sample_draining)) ''risk-model'' = None"
  using deregistration_completes [OF _ _ _ _ _ refl, of "''risk-model''" 0 sample_draining "[Work 0 (mg_timing (sample_message 1 0) 0)]"
      cpu_api sample_kafka]
  by (simp add: sample_draining_def)

section \<open>Ingest rate\<close>

lemma update_metrics_idle:
  assumes "hm_ingest_counts m = []" "hm_ingest_rate_eps m = 0"
  shows "hm_ingest_rate_eps (update_metrics x m) = 0"
  using assms by (auto simp: update_metrics_def Let_def compute_ingest_rate_def split: sum.split prod.split)

lemma finish_record_rate:
  "hm_ingest_rate_eps (eng_metrics (finish_record kafka oid res s n eng)) = hm_ingest_rate_eps (eng_metrics eng)"
  by (auto simp: finish_record_def emit_def log_error_def record_latency_def Let_def split: sum.splits prod.splits)

lemma dispatch_rate:
  "hm_ingest_rate_eps (eng_metrics (dispatch api kafka oid v off tm eng)) = hm_ingest_rate_eps (eng_metrics eng)"
  by (auto simp: dispatch_def finish_record_rate split: option.split prod.split)

lemma consume_messages_rate:
  "hm_ingest_rate_eps (eng_metrics (snd (consume_messages api kafka topic msgs eng))) = hm_ingest_rate_eps (eng_metrics eng)"
proof -
  have "hm_ingest_rate_eps (eng_metrics (dispatch_all api kafka ps v msg e)) = hm_ingest_rate_eps (eng_metrics e)" for ps v msg and e :: "'a OperatorEngine"
    by (induction ps arbitrary: e) (auto simp: dispatch_rate)
  then show ?thesis by (induction msgs arbitrary: eng) (auto split: sum.split)
qed

lemma idle_step:
  assumes "hm_ingest_counts (eng_metrics eng) = []" "hm_ingest_rate_eps (eng_metrics eng) = 0"
  shows "hm_ingest_counts (eng_metrics (engine_step api kafka ev eng)) = [] \<and>
    hm_ingest_rate_eps (eng_metrics (engine_step api kafka ev eng)) = 0"
proof (cases ev)
  case (Consume topic poll commit)
  have "hm_ingest_rate_eps (eng_metrics (snd (turn_messages api kafka topic recs eng))) = 0" for recs
    using assms(2) by (simp add: turn_messages_def consume_messages_rate engine_simps)
  then show ?thesis unfolding Consume engine_step.simps
    by (cases rule: consume_turn_cases [of api kafka topic poll commit eng]) (use assms in \<open>simp_all add: engine_simps\<close>)
next
  case (Work q tm)
  then show ?thesis using assms by (auto simp: worker_step_def engine_simps finish_record_rate split: prod.split list.split)
next
  case (Sample x)
  then show ?thesis using assms update_metrics_idle [OF assms] by simp
qed (use assms in \<open>simp_all add: engine_simps engine_start_def engine_stop_def register_operator_frame\<close>)

text \<open>A node always reports an ingest rate of zero.  Nothing in the engine records what it ingests, so whatever is
  consumed and however often the metrics are updated, the rate that the telemetry reports stays zero.\<close>

theorem ingest_rate_always_zero:
  "hm_ingest_rate_eps (eng_metrics (engine_run api kafka events
     (OperatorEngine_new config (HEAMetrics_new alpha interval endpoint) bridge))) = 0"
proof -
  have "hm_ingest_counts (eng_metrics (fold (engine_step api kafka) events e)) = [] \<and>
      hm_ingest_rate_eps (eng_metrics (fold (engine_step api kafka) events e)) = 0"
    if "hm_ingest_counts (eng_metrics e) = []" "hm_ingest_rate_eps (eng_metrics e) = 0" for e :: "'a OperatorEngine"
    using that by (induction events arbitrary: e) (simp_all add: idle_step)
  then show ?thesis by (simp add: engine_run_def OperatorEngine_new_def HEAMetrics_new_def)
qed

end
