(* ===== verification/Snapshot.thy ===== *)
theory Snapshot
  imports Workloads Bridge
begin

text \<open>
  Snapshots of operator state: the schema registry, the snapshot format and the object store of
  \<open>hybridstream/common\<close> (\<open>schema_registry.py\<close>, \<open>snapshot.py\<close>, \<open>object_store.py\<close>) and the snapshot of a
  migration (\<open>hea/hea/state/snapshot.py\<close>).  Reading and parsing a schema document, MessagePack and S3 are
  parameters.
\<close>

section \<open>Schema registry\<close>

text \<open>
  The local files by path, and the documents stored in etcd by key; \<open>None\<close> where there is nothing.
  A document that cannot be parsed is an exception.
\<close>

record schema_source =
  sc_file :: "string \<Rightarrow> pyval res option"
  sc_etcd :: "string \<Rightarrow> pyval res option"

record SchemaRegistry =
  sr_cache :: "(string, pyval) dict"
  sr_has_etcd :: bool
  sr_local_dir :: "string option"

definition SchemaRegistry_new :: "bool \<Rightarrow> string option \<Rightarrow> SchemaRegistry" where
  "SchemaRegistry_new has_etcd local_schema_dir =
     \<lparr>sr_cache = [], sr_has_etcd = has_etcd,
      sr_local_dir = (if local_schema_dir = Some [] then None else local_schema_dir)\<rparr>"

definition schema_path :: "string \<Rightarrow> string \<Rightarrow> int \<Rightarrow> string" where
  "schema_path dir operator_class version = dir @ ''/v'' @ show_int version @ ''/'' @ operator_class @ ''.json''"

definition schema_key :: "string \<Rightarrow> string \<Rightarrow> string" where
  "schema_key version operator_class = ''/hybridstream/schema/v'' @ version @ ''/'' @ operator_class"

definition load_schema :: "schema_source \<Rightarrow> string \<Rightarrow> int \<Rightarrow> SchemaRegistry \<Rightarrow> pyval res" where
  "load_schema src operator_class version reg =
     (case (case sr_local_dir reg of None \<Rightarrow> None | Some dir \<Rightarrow> sc_file src (schema_path dir operator_class version)) of
        Some doc \<Rightarrow> doc
      | None \<Rightarrow>
          (case (if sr_has_etcd reg then sc_etcd src (schema_key (show_int version) operator_class) else None) of
             Some doc \<Rightarrow> doc
           | None \<Rightarrow> Inl (KeyError (''Schema not found: '' @ operator_class @ '' v'' @ show_int version))))"

definition get_schema :: "schema_source \<Rightarrow> string \<Rightarrow> int \<Rightarrow> SchemaRegistry \<Rightarrow> pyval res \<times> SchemaRegistry" where
  "get_schema src operator_class version reg =
     (let cache_key = operator_class @ '':v'' @ show_int version
      in case dict_get (sr_cache reg) cache_key of
           Some schema \<Rightarrow> (Inr schema, reg)
         | None \<Rightarrow>
             (case load_schema src operator_class version reg of
                Inl e \<Rightarrow> (Inl e, reg)
              | Inr schema \<Rightarrow> (Inr schema, reg\<lparr>sr_cache := dict_set cache_key schema (sr_cache reg)\<rparr>)))"

text \<open>The key and the document that each schema of a directory is written to etcd under, in order.\<close>

fun register_schemas :: "pyval res list \<Rightarrow> (string \<times> pyval) list \<Rightarrow> unit res \<times> (string \<times> pyval) list" where
  "register_schemas [] puts = (Inr (), puts)"
| "register_schemas (doc # docs) puts =
     (case bind_res doc (\<lambda>data.
           bind_res (py_index data ''schema_version'') (\<lambda>v. bind_res (py_str v) (\<lambda>version.
           bind_res (py_index data ''operator_class'') (\<lambda>c. bind_res (py_str c) (\<lambda>cls.
             Inr (schema_key version cls, data)))))) of
        Inl e \<Rightarrow> (Inl e, puts)
      | Inr put \<Rightarrow> register_schemas docs (puts @ [put]))"

definition register_all_from_dir :: "pyval res list \<Rightarrow> SchemaRegistry \<Rightarrow> unit res \<times> (string \<times> pyval) list" where
  "register_all_from_dir docs reg =
     (if \<not> sr_has_etcd reg then (Inl (RuntimeError ''etcd client required for registration''), [])
      else register_schemas docs [])"

section \<open>Snapshot format\<close>

definition MAGIC :: bytes where
  "MAGIC = [0x48, 0x53, 0x4d, 0x50]"

text \<open>The repr of bytes.\<close>

definition hex_digit :: "nat \<Rightarrow> char" where
  "hex_digit n = ''0123456789abcdef'' ! n"

definition byte_repr :: "char \<Rightarrow> 8 word \<Rightarrow> string" where
  "byte_repr quote b =
     (let c = char_of (unat b) :: char
      in if c = quote \<or> c = CHR 92 then [CHR 92, c]
         else if c = CHR 9 then [CHR 92, CHR ''t'']
         else if c = CHR 10 then [CHR 92, CHR ''n'']
         else if c = CHR 13 then [CHR 92, CHR ''r'']
         else if 32 \<le> unat b \<and> unat b < 127 then [c]
         else [CHR 92, CHR ''x'', hex_digit (unat b div 16), hex_digit (unat b mod 16)])"

definition bytes_repr :: "bytes \<Rightarrow> string" where
  "bytes_repr bs =
     (let quote = (if 39 \<in> set bs \<and> 34 \<notin> set bs then CHR 34 else CHR 39)
      in CHR ''b'' # quote # concat (map (byte_repr quote) bs) @ [quote])"

text \<open>\<open>struct.pack(">H", v)\<close> and \<open>struct.unpack(">H", ..)\<close>: two bytes, the high one first.\<close>

definition pack_uint16 :: "int \<Rightarrow> bytes res" where
  "pack_uint16 v =
     (if 0 \<le> v \<and> v < 65536 then Inr [word_of_int (v div 256), word_of_int (v mod 256)]
      else Inl (StructError ([CHR 39, CHR ''H'', CHR 39] @ '' format requires 0 <= number <= 65535'')))"

fun pack_version :: "pyval \<Rightarrow> bytes res" where
  "pack_version (PInt v) = pack_uint16 v"
| "pack_version (PBool b) = pack_uint16 (if b then 1 else 0)"
| "pack_version v = Inl (StructError ''required argument is not an integer'')"

definition unpack_uint16 :: "8 word \<Rightarrow> 8 word \<Rightarrow> int" where
  "unpack_uint16 hi lo = 256 * uint hi + uint lo"

record msgpack =
  mp_packb :: "py_record \<Rightarrow> bytes res"
  mp_unpackb :: "bytes \<Rightarrow> pyval res"

fun field_name :: "pyval \<Rightarrow> string res" where
  "field_name field_def = bind_res (py_index field_def ''name'') as_key"

fun fill_document :: "pyval list \<Rightarrow> py_record \<Rightarrow> py_record \<Rightarrow> py_record res" where
  "fill_document [] state doc = Inr doc"
| "fill_document (field_def # field_defs) state doc =
     bind_res (field_name field_def) (\<lambda>name. fill_document field_defs state (dict_set name (rec_get state name PNone) doc))"

definition serialize ::
    "schema_source \<Rightarrow> msgpack \<Rightarrow> string \<Rightarrow> py_record \<Rightarrow> SchemaRegistry \<Rightarrow> bytes res \<times> SchemaRegistry" where
  "serialize src mp operator_class state reg =
     (case get_schema src operator_class 1 reg of
        (Inl e, reg) \<Rightarrow> (Inl e, reg)
      | (Inr schema, reg) \<Rightarrow>
          (bind_res (py_index schema ''schema_version'') (\<lambda>version.
           bind_res (bind_res (py_index schema ''fields'') as_list) (\<lambda>field_defs.
           bind_res (fill_document field_defs state [(''schema_version'', version), (''operator_class'', PStr operator_class)]) (\<lambda>doc.
           bind_res (mp_packb mp doc) (\<lambda>payload.
           bind_res (pack_version version) (\<lambda>v. Inr (MAGIC @ v @ payload)))))), reg))"

text \<open>The state read back: the fields of the schema, \<open>None\<close> for those the document lacks.\<close>

fun read_fields :: "pyval list \<Rightarrow> py_record \<Rightarrow> py_record \<Rightarrow> py_record res" where
  "read_fields [] doc out = Inr out"
| "read_fields (field_def # field_defs) doc out =
     bind_res (field_name field_def) (\<lambda>name. read_fields field_defs doc (dict_set name (rec_get doc name PNone) out))"

definition no_get :: "pyval \<Rightarrow> py_error" where
  "no_get v = AttributeError ([CHR 39] @ type_name v @ [CHR 39] @ '' object has no attribute '' @ [CHR 39] @ ''get'' @ [CHR 39])"

fun as_document :: "pyval \<Rightarrow> py_record res" where
  "as_document (PDict d) = Inr d"
| "as_document v = Inl (no_get v)"

definition deserialize ::
    "schema_source \<Rightarrow> msgpack \<Rightarrow> bytes \<Rightarrow> SchemaRegistry \<Rightarrow> py_record res \<times> SchemaRegistry" where
  "deserialize src mp data reg =
     (case data of
        m0 # m1 # m2 # m3 # hi # lo # payload \<Rightarrow>
          if [m0, m1, m2, m3] \<noteq> MAGIC then (Inl (ValueError (''Invalid snapshot magic bytes: expected '' @ bytes_repr MAGIC @ '', got '' @
                  bytes_repr [m0, m1, m2, m3])), reg)
          else if payload = [] then (Inl (ValueError ''Snapshot payload is empty (truncated after header)''), reg)
          else
            (case mp_unpackb mp payload of
               Inl e \<Rightarrow> (Inl (ValueError (''Failed to unpack snapshot payload: '' @ str_of_error e)), reg)
             | Inr v \<Rightarrow>
                 (case as_document v of
                    Inl e \<Rightarrow> (Inl e, reg)
                  | Inr doc \<Rightarrow>
                      (let operator_class = rec_get doc ''operator_class'' PNone
                      in if \<not> truthy operator_class
                         then (Inl (ValueError ''Missing operator_class in snapshot payload''), reg)
                         else
                           (case py_str operator_class of
                              Inl e \<Rightarrow> (Inl e, reg)
                            | Inr cls \<Rightarrow>
                                (case get_schema src cls (unpack_uint16 hi lo) reg of
                                   (Inl e, reg) \<Rightarrow> (Inl e, reg)
                                 | (Inr schema, reg) \<Rightarrow>
                                     (bind_res (bind_res (py_index schema ''fields'') as_list) (\<lambda>field_defs.
                                        read_fields field_defs doc []), reg))))))
      | _ \<Rightarrow> (Inl (ValueError ''Snapshot too short: expected at least 6 bytes''), reg))"

section \<open>Object store\<close>

text \<open>
  The S3 calls, over a state of their own.  \<open>head\<close> fails with a client error for an object that is not there,
  or with another exception.
\<close>

datatype s3_error = ClientError string | OtherError string

fun of_s3 :: "s3_error \<Rightarrow> py_error" where
  "of_s3 (ClientError m) = Exc m"
| "of_s3 (OtherError m) = Exc m"

record 's s3_api =
  s3_put_object :: "string \<Rightarrow> string \<Rightarrow> bytes \<Rightarrow> 's \<Rightarrow> (s3_error + unit) \<times> 's"
  s3_get_object :: "string \<Rightarrow> string \<Rightarrow> 's \<Rightarrow> s3_error + bytes"
  s3_head_object :: "string \<Rightarrow> string \<Rightarrow> 's \<Rightarrow> s3_error + unit"

record ObjectStore =
  os_endpoint :: string
  os_access_key :: string
  os_secret_key :: string
  os_bucket :: string

definition upload :: "'s s3_api \<Rightarrow> ObjectStore \<Rightarrow> string \<Rightarrow> bytes \<Rightarrow> 's \<Rightarrow> nat res \<times> 's" where
  "upload s3 os key data st =
     (case s3_put_object s3 (os_bucket os) key data st of
        (Inl e, st) \<Rightarrow> (Inl (of_s3 e), st)
      | (Inr _, st) \<Rightarrow> (Inr (length data), st))"

definition download :: "'s s3_api \<Rightarrow> ObjectStore \<Rightarrow> string \<Rightarrow> 's \<Rightarrow> bytes res" where
  "download s3 os key st =
     (case s3_get_object s3 (os_bucket os) key st of Inl e \<Rightarrow> Inl (of_s3 e) | Inr data \<Rightarrow> Inr data)"

definition exists_object :: "'s s3_api \<Rightarrow> ObjectStore \<Rightarrow> string \<Rightarrow> 's \<Rightarrow> bool res" where
  "exists_object s3 os key st =
     (case s3_head_object s3 (os_bucket os) key st of
        Inl (ClientError m) \<Rightarrow> Inr False
      | Inl e \<Rightarrow> Inl (of_s3 e)
      | Inr _ \<Rightarrow> Inr True)"

section \<open>Snapshot of a migration\<close>

definition snapshot_object_key :: "string \<Rightarrow> int \<Rightarrow> string" where
  "snapshot_object_key oid migration_seq = oid @ ''/'' @ show_int migration_seq @ ''/snapshot.msgpack''"

text \<open>\<open>state\<close> is the operator's \<open>get_state()\<close>.\<close>

definition create_migration_snapshot ::
    "schema_source \<Rightarrow> msgpack \<Rightarrow> 's s3_api \<Rightarrow> ObjectStore \<Rightarrow> string \<Rightarrow> string \<Rightarrow> py_record \<Rightarrow> int \<Rightarrow> pyval \<Rightarrow>
     SchemaRegistry \<Rightarrow> 's \<Rightarrow> (string \<times> nat) res \<times> SchemaRegistry \<times> 's" where
  "create_migration_snapshot src mp s3 os oid op_type state migration_seq drain_offset_map reg st =
     (let state = dict_set ''kafka_offset_map'' drain_offset_map state
      in case serialize src mp op_type state reg of
           (Inl e, reg) \<Rightarrow> (Inl e, reg, st)
         | (Inr data, reg) \<Rightarrow>
             (let object_key = snapshot_object_key oid migration_seq
              in case upload s3 os object_key data st of
                   (Inl e, st) \<Rightarrow> (Inl e, reg, st)
                 | (Inr byte_size, st) \<Rightarrow> (Inr (object_key, byte_size), reg, st)))"

section \<open>Round trip\<close>

text \<open>
  What MessagePack documents: unpacking gives back what was packed, and a packed map is not empty.
\<close>

definition faithful_msgpack :: "msgpack \<Rightarrow> bool" where
  "faithful_msgpack mp \<longleftrightarrow> (\<forall>d p. mp_packb mp d = Inr p \<longrightarrow> p \<noteq> [] \<and> mp_unpackb mp p = Inr (PDict d))"

lemma unpack_pack_uint16:
  assumes "pack_uint16 v = Inr bs"
  shows "\<exists>hi lo. bs = [hi, lo] \<and> unpack_uint16 hi lo = v"
proof -
  have v: "0 \<le> v" "v < 65536" and bs: "bs = [word_of_int (v div 256), word_of_int (v mod 256)]"
    using assms by (auto simp: pack_uint16_def split: if_splits)
  have "uint (word_of_int (v div 256) :: 8 word) = v div 256"
    using v by (simp add: uint_word_of_int)
  moreover have "uint (word_of_int (v mod 256) :: 8 word) = v mod 256"
    by (simp add: uint_word_of_int)
  ultimately show ?thesis unfolding bs by (simp add: unpack_uint16_def)
qed

lemma pack_uint16_range: "(\<exists>bs. pack_uint16 v = Inr bs) \<longleftrightarrow> 0 \<le> v \<and> v < 65536"
  by (simp add: pack_uint16_def)

lemma get_schema_again:
  "get_schema src cls v reg = (Inr schema, reg') \<Longrightarrow> get_schema src cls v reg' = (Inr schema, reg')"
  by (auto simp: get_schema_def Let_def dict_simps split: option.splits sum.splits)

lemma fill_document_get:
  assumes "mapM_res field_name field_defs = Inr names"
  shows "\<exists>doc'. fill_document field_defs state doc = Inr doc' \<and>
    (\<forall>k. dict_get doc' k = (if k \<in> set names then Some (rec_get state k PNone) else dict_get doc k))"
  using assms
proof (induction field_defs arbitrary: names doc)
  case (Cons f fs)
  obtain n ns where n: "field_name f = Inr n" "mapM_res field_name fs = Inr ns" "names = n # ns"
    using Cons.prems by (auto simp: res_simps simp del: field_name.simps)
  obtain doc' where "fill_document fs state (dict_set n (rec_get state n PNone) doc) = Inr doc'"
    "\<forall>k. dict_get doc' k = (if k \<in> set ns then Some (rec_get state k PNone) else dict_get (dict_set n (rec_get state n PNone) doc) k)"
    using Cons.IH [OF n(2)] by blast
  then show ?case using n by (simp add: dict_simps del: field_name.simps)
qed simp

lemma read_fields_fill: "read_fields field_defs doc out = fill_document field_defs doc out"
  by (induction field_defs doc out rule: read_fields.induct) simp_all

text \<open>A schema document with its version and the names of its fields.\<close>

definition has_schema :: "pyval \<Rightarrow> int \<Rightarrow> string list \<Rightarrow> bool" where
  "has_schema schema version names \<longleftrightarrow>
     py_index schema ''schema_version'' = Inr (PInt version) \<and>
     (\<exists>field_defs. py_index schema ''fields'' = Inr (PList field_defs) \<and> mapM_res field_name field_defs = Inr names)"

lemma serialize_deserialize:
  assumes mp: "faithful_msgpack mp"
    and schema: "get_schema src cls 1 reg = (Inr schema, reg1)" "has_schema schema 1 names"
    and names: "''operator_class'' \<notin> set names" "cls \<noteq> []"
    and ser: "serialize src mp cls state reg = (Inr data, reg2)"
  shows "\<exists>out. deserialize src mp data reg2 = (Inr out, reg2) \<and>
    (\<forall>k. dict_get out k = (if k \<in> set names then Some (rec_get state k PNone) else None))"
proof -
  obtain field_defs where f: "py_index schema ''schema_version'' = Inr (PInt 1)" "py_index schema ''fields'' = Inr (PList field_defs)"
    "mapM_res field_name field_defs = Inr names"
    using schema(2) by (auto simp: has_schema_def)
  obtain doc where doc: "fill_document field_defs state [(''schema_version'', PInt 1), (''operator_class'', PStr cls)] = Inr doc"
    "\<forall>k. dict_get doc k = (if k \<in> set names then Some (rec_get state k PNone)
      else dict_get [(''schema_version'', PInt 1), (''operator_class'', PStr cls)] k)"
    using fill_document_get [OF f(3)] by blast
  have cls: "dict_get doc ''operator_class'' = Some (PStr cls)" using doc(2) names(1) by simp
  obtain payload v where p: "mp_packb mp doc = Inr payload" "pack_uint16 1 = Inr v" "data = MAGIC @ v @ payload" "reg2 = reg1"
    using ser by (auto simp: serialize_def schema(1) f doc(1) res_simps)
  obtain hi lo where v: "v = [hi, lo]" "unpack_uint16 hi lo = 1" using unpack_pack_uint16 [OF p(2)] by blast
  have unpack: "payload \<noteq> []" "mp_unpackb mp payload = Inr (PDict doc)" using mp p(1) by (auto simp: faithful_msgpack_def)
  have again: "get_schema src cls 1 reg1 = (Inr schema, reg1)" by (rule get_schema_again [OF schema(1)])
  obtain out where out: "fill_document field_defs doc [] = Inr out"
    "\<forall>k. dict_get out k = (if k \<in> set names then Some (rec_get doc k PNone) else dict_get [] k)"
    using fill_document_get [OF f(3)] by blast
  have "deserialize src mp data reg2 = (Inr out, reg2)"
    using unpack cls names(2) again f(2) out(1) v
    by (simp add: deserialize_def p(3,4) MAGIC_def dict_get_default_def read_fields_fill)
  moreover have "dict_get out k = (if k \<in> set names then Some (rec_get state k PNone) else None)" for k
    using out(2) doc(2) by (simp add: dict_get_default_def)
  ultimately show ?thesis by blast
qed

section \<open>An S3 server\<close>

text \<open>What the object store relies on: an object that was put is read back, and no other object changes.\<close>

locale s3_server =
  fixes s3 :: "'s s3_api"
  assumes get_put: "s3_put_object s3 b k data st = (Inr (), st') \<Longrightarrow>
      s3_get_object s3 b' k' st' = (if b' = b \<and> k' = k then Inr data else s3_get_object s3 b' k' st)"
begin

lemma snapshot_stored:
  assumes "create_migration_snapshot src mp s3 os oid op_type state seqno offsets reg st = (Inr (key, n), reg', st')"
  shows "\<exists>data. serialize src mp op_type (dict_set ''kafka_offset_map'' offsets state) reg = (Inr data, reg') \<and>
    key = snapshot_object_key oid seqno \<and> n = length data \<and> download s3 os key st' = Inr data \<and>
    (\<forall>k. k \<noteq> key \<longrightarrow> download s3 os k st' = download s3 os k st)"
proof -
  obtain r reg1 where ser: "serialize src mp op_type (dict_set ''kafka_offset_map'' offsets state) reg = (r, reg1)"
    by (rule prod.exhaust)
  then obtain data where r: "r = Inr data" using assms by (cases r) (simp_all add: create_migration_snapshot_def)
  obtain out st1 where put: "s3_put_object s3 (os_bucket os) (snapshot_object_key oid seqno) data st = (out, st1)"
    by (rule prod.exhaust)
  then have out: "out = Inr ()" "key = snapshot_object_key oid seqno" "n = length data" "reg' = reg1" "st' = st1"
    using assms ser r by (cases out; simp add: create_migration_snapshot_def upload_def Let_def)+
  show ?thesis
    using ser r out get_put [OF put [unfolded out(1)]] by (auto simp: download_def)
qed

end

text \<open>A server as a map from bucket and key to bytes.\<close>

definition map_s3 :: "(string \<times> string, bytes) dict s3_api" where
  "map_s3 =
     \<lparr>s3_put_object = (\<lambda>b k data st. (Inr (), dict_set (b, k) data st)),
      s3_get_object = (\<lambda>b k st. case dict_get st (b, k) of None \<Rightarrow> Inl (ClientError ''NoSuchKey'') | Some data \<Rightarrow> Inr data),
      s3_head_object = (\<lambda>b k st. case dict_get st (b, k) of None \<Rightarrow> Inl (ClientError ''404'') | Some data \<Rightarrow> Inr ())\<rparr>"

interpretation map_s3: s3_server map_s3
  by unfold_locales (auto simp: map_s3_def dict_simps)


section \<open>The schemas that are shipped\<close>

text \<open>The operator classes and field names of the documents under \<open>schema-registry/schemas/v1\<close>.\<close>

definition shipped_schemas :: "(string \<times> string list) list" where
  "shipped_schemas =
     [(''AnomalyDetector'', [''baseline_stats'', ''alert_cooldown'', ''watermark_ms'', ''kafka_offset_map'']),
      (''BinaryClassifier'', [''model_weights'', ''feature_names'', ''watermark_ms'', ''kafka_offset_map'']),
      (''ComplianceLogger'', [''pending_records'', ''sequence_counter'', ''watermark_ms'', ''kafka_offset_map'']),
      (''FeatureAggWindow'', [''window_buffers'', ''accumulators'', ''watermark_ms'', ''pending_timers'', ''kafka_offset_map'']),
      (''MultiStreamJoin'', [''left_buffer'', ''right_buffer'', ''window_size_ms'', ''watermark_ms'', ''kafka_offset_map'', ''pending_timers'']),
      (''NormalizerOperator'', [''kafka_offset_map'', ''watermark_ms'', ''scale_factors'']),
      (''PatternDetector'', [''pattern_state'', ''active_matches'', ''watermark_ms'', ''pending_timers'', ''kafka_offset_map'']),
      (''RiskCheck'', [''rule_id'', ''position_cache'', ''watermark_ms'', ''kafka_offset_map'']),
      (''StatAggregator'', [''accumulators'', ''window_buffers'', ''watermark_ms'', ''pending_timers'', ''kafka_offset_map'']),
      (''VehicleDetector'', [''detection_state'', ''watermark_ms'', ''kafka_offset_map'']),
      (''ZoneAggregator'', [''zone_id'', ''flow_counters'', ''window_buffers'', ''watermark_ms'', ''kafka_offset_map''])]"

definition schema_document :: "string \<Rightarrow> string list \<Rightarrow> pyval" where
  "schema_document cls names =
     PDict [(''schema_version'', PInt 1), (''operator_class'', PStr cls),
            (''fields'', PList (map (\<lambda>n. PDict [(''name'', PStr n)]) names))]"

definition shipped_source :: "string \<Rightarrow> schema_source" where
  "shipped_source dir =
     \<lparr>sc_file = map_of (map (\<lambda>(cls, names). (schema_path dir cls 1, Inr (schema_document cls names))) shipped_schemas),
      sc_etcd = (\<lambda>key. None)\<rparr>"

lemma schema_document_has: "has_schema (schema_document cls names) 1 names"
proof -
  have "mapM_res field_name (map (\<lambda>n. PDict [(''name'', PStr n)]) names) = Inr names"
    by (induction names) simp_all
  then show ?thesis by (simp add: has_schema_def schema_document_def)
qed

lemma shipped_schema_found:
  assumes "map_of shipped_schemas cls = Some names" "dir \<noteq> []"
  shows "\<exists>reg. get_schema (shipped_source dir) cls 1 (SchemaRegistry_new has_etcd (Some dir)) =
    (Inr (schema_document cls names), reg)"
proof -
  have inj: "map_of (map (\<lambda>(c, n). (schema_path dir c 1, f c n)) xs) (schema_path dir cls 1) =
      map_option (f cls) (map_of xs cls)" for xs and f :: "string \<Rightarrow> string list \<Rightarrow> pyval res"
    by (induction xs) (auto simp: schema_path_def)
  show ?thesis
    using assms by (simp add: get_schema_def load_schema_def SchemaRegistry_new_def shipped_source_def inj Let_def)
qed

lemma shipped_known:
  "\<exists>names. map_of shipped_schemas (any_operator_type op) = Some names \<and> ''operator_class'' \<notin> set names \<and>
     any_operator_type op \<noteq> [] \<and> set names \<inter> set (dict_keys (any_get_state op)) \<subseteq> {''zone_id''}"
proof (cases op)
  case (OpW1 a) then show ?thesis
    by (cases a) (simp_all add: shipped_schemas_def normalizer_get_state_def feature_agg_get_state_def join_get_state_def
        classifier_get_state_def)
next
  case (OpW2 a) then show ?thesis
    by (cases a) (simp_all add: shipped_schemas_def detector_get_state_def zone_get_state_def pattern_get_state_def)
next
  case (OpW3 a) then show ?thesis
    by (cases a) (simp_all add: shipped_schemas_def risk_get_state_def anomaly_get_state_def stat_get_state_def
        compliance_get_state_def)
qed

text \<open>A packing of one document, and a snapshot taken with it.\<close>

definition stat_document :: py_record where
  "stat_document =
     [(''schema_version'', PInt 1), (''operator_class'', PStr ''StatAggregator''), (''accumulators'', PNone), (''window_buffers'', PNone),
      (''watermark_ms'', PNone), (''pending_timers'', PNone), (''kafka_offset_map'', PDict [(''0'', PInt 42)])]"

definition stat_msgpack :: msgpack where
  "stat_msgpack =
     \<lparr>mp_packb = (\<lambda>d. if d = stat_document then Inr [1] else Inl (Exc ''unsupported'')), mp_unpackb = (\<lambda>b. Inr (PDict stat_document))\<rparr>"

lemma stat_msgpack_faithful: "faithful_msgpack stat_msgpack"
  by (simp add: faithful_msgpack_def stat_msgpack_def)

definition sample_store :: ObjectStore where
  "sample_store = \<lparr>os_endpoint = ''http://minio:9000'', os_access_key = ''k'', os_secret_key = ''s'', os_bucket = ''b''\<rparr>"

definition sample_stat :: any_operator where
  "sample_stat = OpW3 (W3_StatAggregator ((StatAggregator_new ''stat-fx'' ''fx'')\<lparr>sa_count := 3, sa_mean := 2\<rparr>))"

definition stat_names :: "string list" where
  "stat_names = [''accumulators'', ''window_buffers'', ''watermark_ms'', ''pending_timers'', ''kafka_offset_map'']"

definition stat_registry :: SchemaRegistry where
  "stat_registry = (SchemaRegistry_new False (Some ''d''))
     \<lparr>sr_cache := [(''StatAggregator:v1'', schema_document ''StatAggregator'' stat_names)]\<rparr>"

lemma show_digits: "show_int 1 = ''1''" "show_int 7 = ''7''"
  by code_simp+

lemma stat_schema:
  "get_schema (shipped_source ''d'') ''StatAggregator'' 1 (SchemaRegistry_new False (Some ''d'')) =
     (Inr (schema_document ''StatAggregator'' stat_names), stat_registry)"
  by (simp add: get_schema_def load_schema_def SchemaRegistry_new_def shipped_source_def shipped_schemas_def Let_def
      schema_path_def stat_registry_def stat_names_def show_digits)

lemma stat_snapshot_taken:
  "create_migration_snapshot (shipped_source ''d'') stat_msgpack map_s3 sample_store (any_operator_id sample_stat)
     (any_operator_type sample_stat) (any_get_state sample_stat) 7 (PDict [(''0'', PInt 42)]) (SchemaRegistry_new False (Some ''d'')) [] =
   (Inr (''stat-fx/7/snapshot.msgpack'', 7), stat_registry, [((''b'', ''stat-fx/7/snapshot.msgpack''), MAGIC @ [0, 1, 1])])"
proof -
  have "serialize (shipped_source ''d'') stat_msgpack ''StatAggregator'' (dict_set ''kafka_offset_map'' (PDict [(''0'', PInt 42)])
      (any_get_state sample_stat)) (SchemaRegistry_new False (Some ''d'')) = (Inr (MAGIC @ [0, 1, 1]), stat_registry)"
    by (simp add: serialize_def stat_schema)
      (simp add: schema_document_def stat_names_def sample_stat_def stat_get_state_def dict_get_default_def stat_msgpack_def
        stat_document_def pack_uint16_def)
  then show ?thesis
    by (simp add: create_migration_snapshot_def sample_stat_def StatAggregator_new_def upload_def map_s3_def sample_store_def
        snapshot_object_key_def show_digits MAGIC_def Let_def)
qed




end
