(* ===== verification/StateStore.thy ===== *)
theory StateStore
  imports Prelude "HOL-Library.Word"
begin

text \<open>
  The key-value store of an operator (\<open>hea/hea/state/store.py\<close>) over the dictionary that stands in for RocksDB
  where \<open>rocksdict\<close> is not installed, and the periodic checkpointer (\<open>hea/hea/state/checkpoint.py\<close>).  The file
  system is a parameter.  Characters are code points below 256, so UTF-8 needs one or two bytes.
\<close>

section \<open>UTF-8\<close>

type_synonym octets = "8 word list"

definition encode_char :: "char \<Rightarrow> octets" where
  "encode_char c =
     (let n = of_char c :: nat
      in if n < 128 then [of_nat n] else [of_nat (192 + n div 64), of_nat (128 + n mod 64)])"

definition encode :: "string \<Rightarrow> octets" where
  "encode s = concat (map encode_char s)"

definition bad_utf8 :: py_error where
  "bad_utf8 = ValueError ''utf-8 codec cannot decode bytes''"

fun decode :: "octets \<Rightarrow> string res" where
  "decode [] = Inr []"
| "decode [b] = (if unat b < 128 then Inr [char_of (unat b)] else Inl bad_utf8)"
| "decode (b # b' # bs) =
     (if unat b < 128 then bind_res (decode (b' # bs)) (\<lambda>s. Inr (char_of (unat b) # s))
      else if 194 \<le> unat b \<and> unat b < 196 \<and> 128 \<le> unat b' \<and> unat b' < 192
      then bind_res (decode bs) (\<lambda>s. Inr (char_of ((unat b - 192) * 64 + (unat b' - 128)) # s))
      else Inl bad_utf8)"

lemma unat_small: "n < 256 \<Longrightarrow> unat (of_nat n :: 8 word) = n"
  by (simp add: unat_of_nat)

lemma decode_char: "decode (encode_char c @ bs) = bind_res (decode bs) (\<lambda>s. Inr (c # s))"
proof -
  define n where "n = (of_char c :: nat)"
  have n: "n < 256" "char_of n = c" by (simp_all add: n_def nat_of_char_less_256)
  show ?thesis
  proof (cases "n < 128")
    case True
    then have e: "encode_char c = [of_nat n]" by (simp add: encode_char_def n_def)
    show ?thesis using True n unat_small [OF n(1)] by (cases bs) (simp_all add: e)
  next
    case False
    then have e: "encode_char c = [of_nat (192 + n div 64), of_nat (128 + n mod 64)]" by (simp add: encode_char_def n_def Let_def)
    have d: "2 \<le> n div 64" "n div 64 < 4" using False n(1) by (simp_all add: less_mult_imp_div_less div_le_mono [of 128 n 64, simplified])
    have "unat (of_nat (192 + n div 64) :: 8 word) = 192 + n div 64" "unat (of_nat (128 + n mod 64) :: 8 word) = 128 + n mod 64"
      using d by (intro unat_small; simp)+
    moreover have "n div 64 * 64 + n mod 64 = n" by simp
    ultimately show ?thesis using d n(2) unfolding e by simp
  qed
qed

lemma decode_encode [simp]: "decode (encode s) = Inr s"
  by (induction s) (simp_all add: encode_def decode_char)

lemma encode_inj [simp]: "encode s = encode t \<longleftrightarrow> s = t"
  by (metis decode_encode sum.inject(2))

section \<open>Store\<close>

record OperatorStateStore =
  ss_operator_id :: string
  ss_path :: string
  ss_db :: "(octets, octets) dict"

definition OperatorStateStore_new :: "string \<Rightarrow> string \<Rightarrow> OperatorStateStore" where
  "OperatorStateStore_new oid db_path = \<lparr>ss_operator_id = oid, ss_path = db_path @ ''/'' @ oid, ss_db = []\<rparr>"

definition store_get :: "string \<Rightarrow> OperatorStateStore \<Rightarrow> octets option" where
  "store_get key s = dict_get (ss_db s) (encode key)"

definition store_put :: "string \<Rightarrow> octets \<Rightarrow> OperatorStateStore \<Rightarrow> OperatorStateStore" where
  "store_put key val s = s\<lparr>ss_db := dict_set (encode key) val (ss_db s)\<rparr>"

definition store_delete :: "string \<Rightarrow> OperatorStateStore \<Rightarrow> unit res \<times> OperatorStateStore" where
  "store_delete key s =
     (if dict_get (ss_db s) (encode key) = None then (Inl (KeyError key), s)
      else (Inr (), s\<lparr>ss_db := dict_pop (encode key) (ss_db s)\<rparr>))"

definition store_items :: "OperatorStateStore \<Rightarrow> (string \<times> octets) list res" where
  "store_items s = mapM_res (\<lambda>(k, v). bind_res (decode k) (\<lambda>key. Inr (key, v))) (ss_db s)"

text \<open>\<open>os.path.join\<close> of two parts, and the checkpoint of a store; \<open>make_dirs\<close> creates a directory or raises.\<close>

definition path_join :: "string \<Rightarrow> string \<Rightarrow> string" where
  "path_join a b =
     (if b \<noteq> [] \<and> hd b = CHR ''/'' then b
      else if a = [] \<or> last a = CHR ''/'' then a @ b else a @ ''/'' @ b)"

definition store_checkpoint :: "(string \<Rightarrow> unit res) \<Rightarrow> string \<Rightarrow> OperatorStateStore \<Rightarrow> string res" where
  "store_checkpoint make_dirs checkpoint_dir s =
     (let path = path_join checkpoint_dir (ss_operator_id s) in bind_res (make_dirs path) (\<lambda>_. Inr path))"

section \<open>Checkpointer\<close>

record PeriodicCheckpointer =
  pc_interval :: int
  pc_base_dir :: string
  pc_stores :: "(string, OperatorStateStore) dict"

definition PeriodicCheckpointer_new :: "int \<Rightarrow> string \<Rightarrow> PeriodicCheckpointer" where
  "PeriodicCheckpointer_new interval_s checkpoint_base_dir =
     \<lparr>pc_interval = interval_s, pc_base_dir = checkpoint_base_dir, pc_stores = []\<rparr>"

definition checkpointer_register :: "string \<Rightarrow> OperatorStateStore \<Rightarrow> PeriodicCheckpointer \<Rightarrow> PeriodicCheckpointer" where
  "checkpointer_register oid store pc = pc\<lparr>pc_stores := dict_set oid store (pc_stores pc)\<rparr>"

definition checkpointer_deregister :: "string \<Rightarrow> PeriodicCheckpointer \<Rightarrow> PeriodicCheckpointer" where
  "checkpointer_deregister oid pc = pc\<lparr>pc_stores := dict_pop oid (pc_stores pc)\<rparr>"

text \<open>What one turn of the loop logs for each store: the path of its checkpoint, or an error.\<close>

definition checkpoint_turn :: "(string \<Rightarrow> unit res) \<Rightarrow> PeriodicCheckpointer \<Rightarrow> (string \<times> string res) list" where
  "checkpoint_turn make_dirs pc =
     map (\<lambda>(oid, store). (oid, store_checkpoint make_dirs (path_join (pc_base_dir pc) ''checkpoints'') store)) (pc_stores pc)"

lemma checkpoint_turn_complete:
  "map fst (checkpoint_turn make_dirs pc) = dict_keys (pc_stores pc)"
  by (simp add: checkpoint_turn_def comp_def split_def)

section \<open>Key-value interface\<close>

text \<open>What a client of a store may rely on.\<close>

locale kv_store =
  fixes get :: "string \<Rightarrow> 's \<Rightarrow> octets option" and put :: "string \<Rightarrow> octets \<Rightarrow> 's \<Rightarrow> 's"
    and del :: "string \<Rightarrow> 's \<Rightarrow> unit res \<times> 's" and empty :: 's
  assumes get_empty: "get k empty = None"
    and get_put: "get k' (put k v s) = (if k' = k then Some v else get k' s)"
    and get_del: "get k' (snd (del k s)) = (if k' = k then None else get k' s)"
    and del_result: "fst (del k s) = (if get k s = None then Inl (KeyError k) else Inr ())"
begin

fun run_op :: "string \<times> octets option \<Rightarrow> 's \<Rightarrow> 's" where
  "run_op (k, Some v) s = put k v s"
| "run_op (k, None) s = snd (del k s)"

fun abs_op :: "string \<times> octets option \<Rightarrow> (string \<rightharpoonup> octets) \<Rightarrow> (string \<rightharpoonup> octets)" where
  "abs_op (k, v) m = m(k := v)"

lemma run_ops: "get k (fold run_op ops s) = fold abs_op ops (\<lambda>k. get k s) k"
proof (induction ops arbitrary: s)
  case (Cons x ops)
  obtain k v where x: "x = (k, v)" by (rule prod.exhaust)
  have "(\<lambda>k'. get k' (run_op x s)) = abs_op x (\<lambda>k'. get k' s)"
    by (cases v) (auto simp: x get_put get_del)
  with Cons.IH [of "run_op x s"] show ?case by simp
qed simp

lemma run_from_empty: "get k (fold run_op ops empty) = fold abs_op ops Map.empty k"
proof -
  have "(\<lambda>k. get k empty) = Map.empty" by (simp add: get_empty)
  then show ?thesis unfolding run_ops by simp
qed

end

interpretation store: kv_store store_get store_put store_delete "OperatorStateStore_new oid db_path" for oid db_path
  by unfold_locales (simp_all add: store_get_def store_put_def store_delete_def OperatorStateStore_new_def dict_simps)

text \<open>An operation of a client: writing a value under a key, or deleting the key.\<close>

fun store_op :: "string \<times> octets option \<Rightarrow> OperatorStateStore \<Rightarrow> OperatorStateStore" where
  "store_op (k, Some v) s = store_put k v s"
| "store_op (k, None) s = snd (store_delete k s)"

fun map_op :: "string \<times> octets option \<Rightarrow> (string \<rightharpoonup> octets) \<Rightarrow> (string \<rightharpoonup> octets)" where
  "map_op (k, v) m = m(k := v)"

definition encoded_keys :: "OperatorStateStore \<Rightarrow> bool" where
  "encoded_keys s \<longleftrightarrow> wf_dict (ss_db s) \<and> (\<forall>p \<in> set (ss_db s). \<exists>k. fst p = encode k)"

lemma encoded_keys_op:
  assumes "encoded_keys s"
  shows "encoded_keys (store_op x s)"
proof -
  obtain k v where x: "x = (k, v)" by (rule prod.exhaust)
  show ?thesis using assms unfolding x
    by (cases v) (auto simp: encoded_keys_def store_put_def store_delete_def set_update_wf set_delete_dict split: if_splits)
qed

lemma store_items_get:
  assumes "encoded_keys s"
  shows "\<exists>kvs. store_items s = Inr kvs \<and> wf_dict kvs \<and> map_of kvs = (\<lambda>k. store_get k s)"
proof -
  have "\<exists>kvs. mapM_res (\<lambda>(k, v). bind_res (decode k) (\<lambda>key. Inr (key, v))) d = Inr kvs \<and> d = map (\<lambda>(k, v). (encode k, v)) kvs"
    if "\<forall>p \<in> set d. \<exists>k. fst p = encode k" for d :: "(octets, octets) dict"
    using that
  proof (induction d)
    case (Cons p d)
    obtain k v where p: "p = (encode k, v)" using Cons.prems by (metis list.set_intros(1) prod.collapse)
    obtain kvs where "mapM_res (\<lambda>(k, v). bind_res (decode k) (\<lambda>key. Inr (key, v))) d = Inr kvs" "d = map (\<lambda>(k, v). (encode k, v)) kvs"
      using Cons.IH Cons.prems by auto
    then show ?case by (intro exI [of _ "(k, v) # kvs"]) (simp add: p)
  qed simp
  then obtain kvs where kvs: "store_items s = Inr kvs" "ss_db s = map (\<lambda>(k, v). (encode k, v)) kvs"
    using assms unfolding encoded_keys_def store_items_def by blast
  have "map_of (map (\<lambda>(k, v). (encode k, v)) xs) (encode k) = map_of xs k" for xs :: "(string \<times> octets) list" and k
    by (induction xs) auto
  then have "map_of kvs = (\<lambda>k. store_get k s)" by (auto simp: store_get_def kvs(2))
  moreover have "wf_dict kvs"
  proof -
    have "distinct (map encode (map fst kvs))"
      using assms unfolding encoded_keys_def kvs(2) by (simp add: wf_dict_def comp_def split_def)
    then show ?thesis unfolding wf_dict_def distinct_map [of encode] by blast
  qed
  ultimately show ?thesis using kvs(1) by blast
qed

text \<open>C31: The store of an operator is a map.  After any sequence of writes and deletions, of keys that may be absent
  too, reading a key gives what a map would, and the items are the bindings of that map, each key once, with its
  text decoded from UTF-8 as it was written.\<close>

theorem store_refines_map:
  "store_get k (fold store_op ops (OperatorStateStore_new oid db_path)) = fold map_op ops Map.empty k \<and>
   (\<exists>kvs. store_items (fold store_op ops (OperatorStateStore_new oid db_path)) = Inr kvs \<and> distinct (map fst kvs) \<and>
      map_of kvs = fold map_op ops Map.empty)"
proof -
  let ?s = "fold store_op ops (OperatorStateStore_new oid db_path)"
  have op: "store_op x = store.run_op x" for x
  proof
    fix s obtain k v where "x = (k, v)" by (rule prod.exhaust)
    then show "store_op x s = store.run_op x s" by (cases v) simp_all
  qed
  have abs: "map_op x = store.abs_op x" for x
  proof
    fix m obtain k v where "x = (k, v)" by (rule prod.exhaust)
    then show "map_op x m = store.abs_op x m" by simp
  qed
  have get: "store_get k ?s = fold map_op ops Map.empty k" for k
    using store.run_from_empty [of k ops oid db_path] unfolding op [abs_def] abs [abs_def] .
  have "encoded_keys (fold store_op ops s)" if "encoded_keys s" for s
    using that by (induction ops arbitrary: s) (simp_all add: encoded_keys_op)
  moreover have "encoded_keys (OperatorStateStore_new oid db_path)" by (simp add: encoded_keys_def OperatorStateStore_new_def)
  ultimately obtain kvs where "store_items ?s = Inr kvs" "wf_dict kvs" "map_of kvs = (\<lambda>k. store_get k ?s)"
    using store_items_get by blast
  with get show ?thesis by (auto simp: wf_dict_def)
qed

end
