(* ===== verification/Json.thy ===== *)
theory Json
  imports Pyval
begin

text \<open>
  Reading JSON: what \<open>json.loads\<close> of the standard library does with the text of drained offsets in
  \<open>hea/hea/grpc/server.py\<close>.  A text is a list of bytes, an escaped character becomes its UTF-8 bytes.
  \<open>NaN\<close> and the infinities, and escaped surrogates, which the values of this development do not have, are
  rejected, and the messages of errors leave out the position.
\<close>

section \<open>Strings\<close>

definition json_blank :: "char \<Rightarrow> bool" where
  "json_blank c \<longleftrightarrow> c \<in> {CHR '' '', CHR 0x09, CHR 0x0A, CHR 0x0D}"

abbreviation skip_blanks :: "string \<Rightarrow> string" where
  "skip_blanks s \<equiv> dropWhile json_blank s"

definition hex_digit :: "char \<Rightarrow> nat option" where
  "hex_digit c =
     (let n = of_char c :: nat
      in if 48 \<le> n \<and> n \<le> 57 then Some (n - 48) else if 97 \<le> n \<and> n \<le> 102 then Some (n - 87)
         else if 65 \<le> n \<and> n \<le> 70 then Some (n - 55) else None)"

definition utf8 :: "nat \<Rightarrow> string option" where
  "utf8 n =
     (if n < 128 then Some [char_of n]
      else if n < 2048 then Some [char_of (192 + n div 64), char_of (128 + n mod 64)]
      else if 55296 \<le> n \<and> n < 57344 then None
      else Some [char_of (224 + n div 4096), char_of (128 + n div 64 mod 64), char_of (128 + n mod 64)])"

text \<open>What a backslash starts, and the text after it.\<close>

definition plain_escapes :: "(char \<times> char) list" where
  "plain_escapes =
     [(CHR 0x22, CHR 0x22), (CHR 0x5C, CHR 0x5C), (CHR ''/'', CHR ''/''), (CHR ''b'', CHR 0x08), (CHR ''f'', CHR 0x0C),
      (CHR ''n'', CHR 0x0A), (CHR ''r'', CHR 0x0D), (CHR ''t'', CHR 0x09)]"

fun read_escape :: "string \<Rightarrow> (string \<times> string) option" where
  "read_escape [] = None"
| "read_escape (e # r) =
     (case map_of plain_escapes e of
        Some c \<Rightarrow> Some ([c], r)
      | None \<Rightarrow>
          (if e \<noteq> CHR ''u'' then None
           else case (map hex_digit (take 4 r), drop 4 r) of
             ([Some a, Some b, Some c, Some d], r') \<Rightarrow>
               map_option (\<lambda>s. (s, r')) (utf8 (((a * 16 + b) * 16 + c) * 16 + d))
           | _ \<Rightarrow> None))"

lemma read_escape_shorter: "read_escape s = Some (t, r) \<Longrightarrow> length r < length s"
  by (cases s) (auto split: option.splits if_splits list.splits)

text \<open>The rest of a string after its opening quote; control characters must be escaped.\<close>

function read_string :: "string \<Rightarrow> (string \<times> string) option" where
  "read_string [] = None"
| "read_string (c # r) =
     (if c = CHR 0x22 then Some ([], r)
      else if c = CHR 0x5C then
        (case read_escape r of
           None \<Rightarrow> None
         | Some (s, r') \<Rightarrow> map_option (\<lambda>(t, r''). (s @ t, r'')) (read_string r'))
      else if (of_char c :: nat) < 32 then None
      else map_option (\<lambda>(t, r'). (c # t, r')) (read_string r))"
  by pat_completeness auto

termination
  by (relation "measure length") (auto dest: read_escape_shorter)

lemma read_string_shorter: "read_string s = Some (t, r) \<Longrightarrow> length r < length s"
proof (induction s arbitrary: t r rule: read_string.induct)
  case (2 c s)
  show ?case
  proof (cases "c = CHR 0x5C")
    case True
    then obtain u s' t' where "read_escape s = Some (u, s')" "read_string s' = Some (t', r)"
      using "2.prems" by (auto split: option.splits)
    then show ?thesis using "2.IH"(1) True read_escape_shorter by fastforce
  next
    case False
    then show ?thesis using "2.IH"(2) "2.prems" by (auto split: if_splits intro: less_SucI)
  qed
qed simp

section \<open>Numbers\<close>

definition json_digit :: "char \<Rightarrow> bool" where
  "json_digit c \<longleftrightarrow> c \<in> set ''0123456789''"

text \<open>A leading zero is a number of its own; a fraction or an exponent makes a float.\<close>

definition read_fraction :: "string \<Rightarrow> string \<times> string" where
  "read_fraction s =
     (case s of
        [] \<Rightarrow> ([], [])
      | c # r \<Rightarrow> if c = CHR ''.'' then (let f = takeWhile json_digit r in if f = [] then ([], s) else (f, dropWhile json_digit r))
               else ([], s))"

definition read_exponent :: "string \<Rightarrow> (bool \<times> nat) option \<times> string" where
  "read_exponent s =
     (case s of
        [] \<Rightarrow> (None, [])
      | c # r \<Rightarrow>
          (if c = CHR ''e'' \<or> c = CHR ''E'' then
             (case unsigned_part r of (neg, t) \<Rightarrow>
                (let d = takeWhile json_digit t
                 in if d = [] then (None, s) else (Some (neg, nat_of_digits d), dropWhile json_digit t)))
           else (None, s)))"

definition read_number :: "string \<Rightarrow> (pyval \<times> string) option" where
  "read_number s =
     (let neg = (s \<noteq> [] \<and> hd s = CHR ''-'');
          t = (if neg then tl s else s);
          ds = takeWhile json_digit t;
          whole = (if ds \<noteq> [] \<and> hd ds = CHR ''0'' then [CHR ''0''] else ds);
          rest = drop (length whole) t
      in if ds = [] then None
         else
           (case read_fraction rest of (fdigits, rest) \<Rightarrow>
              (case read_exponent rest of (expo, rest) \<Rightarrow>
                 (if fdigits = [] \<and> expo = None
                  then Some (PInt (if neg then - int (nat_of_digits whole) else int (nat_of_digits whole)), rest)
                  else
                    (let x = real (nat_of_digits (whole @ fdigits)) / 10 ^ length fdigits;
                         y = (case expo of None \<Rightarrow> x | Some (eneg, n) \<Rightarrow> if eneg then x / 10 ^ n else x * 10 ^ n)
                     in Some (PFloat (if neg then - y else y), rest))))))"

lemma read_fraction_shorter: "length (snd (read_fraction s)) \<le> length s"
  by (auto simp: read_fraction_def Let_def length_dropWhile_le le_SucI split: list.split)

lemma unsigned_part_shorter: "length (snd (unsigned_part s)) \<le> length s"
  by (auto simp: unsigned_part_def split: list.split)

lemma read_exponent_shorter: "length (snd (read_exponent s)) \<le> length s"
proof (cases s)
  case (Cons c r)
  have "length (dropWhile json_digit t) \<le> Suc (length r)" if "unsigned_part r = (b, t)" for b t
    using length_dropWhile_le [of json_digit t] unsigned_part_shorter [of r] that by simp
  then show ?thesis by (auto simp: read_exponent_def Cons Let_def split: prod.split)
qed (simp add: read_exponent_def)

lemma read_number_shorter: "read_number s = Some (v, r) \<Longrightarrow> length r < length s"
proof -
  assume a: "read_number s = Some (v, r)"
  define t where "t = (if s \<noteq> [] \<and> hd s = CHR ''-'' then tl s else s)"
  define ds where "ds = takeWhile json_digit t"
  define whole where "whole = (if ds \<noteq> [] \<and> hd ds = CHR ''0'' then [CHR ''0''] else ds)"
  obtain fdigits rest1 where f: "read_fraction (drop (length whole) t) = (fdigits, rest1)" by (rule prod.exhaust)
  obtain expo rest2 where e: "read_exponent rest1 = (expo, rest2)" by (rule prod.exhaust)
  have ds: "ds \<noteq> []" "r = rest2"
    using a f e unfolding read_number_def t_def [symmetric] Let_def ds_def [symmetric] whole_def [symmetric]
    by (auto split: if_splits)
  have "length rest2 \<le> length rest1" "length rest1 \<le> length t - length whole"
    using read_exponent_shorter [of rest1] read_fraction_shorter [of "drop (length whole) t"] f e by simp_all
  moreover have "whole \<noteq> []" "t \<noteq> []" using ds(1) unfolding whole_def ds_def by auto
  moreover have "length t \<le> length s" unfolding t_def by simp
  ultimately show "length r < length s" using ds(2) by (cases whole; cases t) simp_all
qed

section \<open>Values\<close>

definition json_word :: "string \<Rightarrow> (pyval \<times> string) option" where
  "json_word s =
     (if take 4 s = ''null'' then Some (PNone, drop 4 s) else if take 4 s = ''true'' then Some (PBool True, drop 4 s)
      else if take 5 s = ''false'' then Some (PBool False, drop 5 s) else None)"

text \<open>
  The first argument is fuel; more of it than characters changes nothing (\<open>read_fuel\<close>).  A key that occurs
  again keeps its place and takes the last value.
\<close>

function read_value :: "nat \<Rightarrow> string \<Rightarrow> (pyval \<times> string) option"
  and read_elements :: "nat \<Rightarrow> string \<Rightarrow> (pyval list \<times> string) option"
  and read_members :: "nat \<Rightarrow> string \<Rightarrow> ((string \<times> pyval) list \<times> string) option" where
  "read_value 0 s = None"
| "read_value (Suc n) s =
     (case skip_blanks s of
        [] \<Rightarrow> None
      | c # r \<Rightarrow>
          (if c = CHR 0x22 then map_option (\<lambda>(t, r). (PStr t, r)) (read_string r)
           else if c = CHR ''['' then
             (if skip_blanks r \<noteq> [] \<and> hd (skip_blanks r) = CHR '']'' then Some (PList [], tl (skip_blanks r))
              else map_option (\<lambda>(vs, r). (PList vs, r)) (read_elements n r))
           else if c = CHR ''{'' then
             (if skip_blanks r \<noteq> [] \<and> hd (skip_blanks r) = CHR ''}'' then Some (PDict [], tl (skip_blanks r))
              else map_option (\<lambda>(kvs, r). (PDict (dict_of kvs []), r)) (read_members n r))
           else if json_word (c # r) \<noteq> None then json_word (c # r)
           else read_number (c # r)))"
| "read_elements 0 s = None"
| "read_elements (Suc n) s =
     (case read_value (Suc n) s of
        None \<Rightarrow> None
      | Some (v, r) \<Rightarrow>
          (case skip_blanks r of
             [] \<Rightarrow> None
           | c # r \<Rightarrow>
               if c = CHR '']'' then Some ([v], r)
               else if c = CHR '','' then map_option (\<lambda>(vs, r). (v # vs, r)) (read_elements n r)
               else None))"
| "read_members 0 s = None"
| "read_members (Suc n) s =
     (case skip_blanks s of
        [] \<Rightarrow> None
      | c # r \<Rightarrow>
          (if c \<noteq> CHR 0x22 then None
           else case read_string r of
             None \<Rightarrow> None
           | Some (k, r) \<Rightarrow>
               (case skip_blanks r of
                  [] \<Rightarrow> None
                | c # r \<Rightarrow>
                    (if c \<noteq> CHR '':'' then None
                     else case read_value (Suc n) r of
                       None \<Rightarrow> None
                     | Some (v, r) \<Rightarrow>
                         (case skip_blanks r of
                            [] \<Rightarrow> None
                          | c # r \<Rightarrow>
                              if c = CHR ''}'' then Some ([(k, v)], r)
                              else if c = CHR '','' then map_option (\<lambda>(kvs, r). ((k, v) # kvs, r)) (read_members n r)
                              else None)))))"
  by pat_completeness auto

termination
  by (relation "measures [\<lambda>x. case x of Inl (n, s) \<Rightarrow> n | Inr (Inl (n, s)) \<Rightarrow> n | Inr (Inr (n, s)) \<Rightarrow> n,
      \<lambda>x. case x of Inl _ \<Rightarrow> 0 | Inr _ \<Rightarrow> 1]") auto

definition json_loads :: "string \<Rightarrow> pyval res" where
  "json_loads s =
     (case read_value (Suc (length s)) s of
        None \<Rightarrow> Inl (ValueError ''Expecting value'')
      | Some (v, r) \<Rightarrow> if skip_blanks r = [] then Inr v else Inl (ValueError ''Extra data''))"

section \<open>Enough fuel\<close>

lemma skip_blanks_Cons: "skip_blanks s = c # r \<Longrightarrow> length r < length s"
  using length_dropWhile_le [of json_blank s] by simp

lemma json_word_shorter: "json_word s = Some (v, r) \<Longrightarrow> length r < length s"
  by (cases s) (auto simp: json_word_def split: if_splits)

lemmas pieces_shorter = skip_blanks_Cons read_string_shorter read_number_shorter json_word_shorter

lemma read_shorter:
  "read_value n s = Some (v, r) \<Longrightarrow> length r < length s"
  "read_elements n s = Some (vs, r) \<Longrightarrow> length r < length s"
  "read_members n s = Some (kvs, r) \<Longrightarrow> length r < length s"
proof (induction n s and n s and n s arbitrary: v r and vs r and kvs r rule: read_value_read_elements_read_members.induct)
  case (2 n s)
  obtain c t where t: "skip_blanks s = c # t" using "2.prems" by (auto split: list.splits)
  note lt = skip_blanks_Cons [OF t]
  show ?case
    using "2.prems" "2.IH" [OF t] lt t length_dropWhile_le [of json_blank t]
    by (auto split: if_splits dest!: read_string_shorter json_word_shorter read_number_shorter)
next
  case (4 n s)
  obtain v' s1 where v: "read_value (Suc n) s = Some (v', s1)" using "4.prems" by (auto split: option.splits)
  obtain c t where t: "skip_blanks s1 = c # t" using "4.prems" v by (auto split: list.splits)
  show ?case
    using "4.prems" "4.IH"(1) [OF v] "4.IH"(2) [OF v refl t] v t skip_blanks_Cons [OF t] by (fastforce split: if_splits)
next
  case (6 n s)
  obtain s1 where s1: "skip_blanks s = CHR 0x22 # s1" using "6.prems" by (auto split: list.splits if_splits)
  obtain k s2 where s2: "read_string s1 = Some (k, s2)" using "6.prems" s1 by (auto split: option.splits)
  obtain s3 where s3: "skip_blanks s2 = CHR '':'' # s3" using "6.prems" s1 s2 by (auto split: list.splits if_splits)
  obtain v s4 where s4: "read_value (Suc n) s3 = Some (v, s4)" using "6.prems" s1 s2 s3 by (auto split: option.splits)
  obtain c s5 where s5: "skip_blanks s4 = c # s5" using "6.prems" s1 s2 s3 s4 by (auto split: list.splits)
  have "length s5 < length s"
    using skip_blanks_Cons [OF s1] read_string_shorter [OF s2] skip_blanks_Cons [OF s3] skip_blanks_Cons [OF s5] "6.IH"(1) [OF s1 _ s2 refl s3 _ s4]
    by simp
  then show ?case
    using "6.prems" "6.IH"(2) [OF s1 _ s2 refl s3 _ s4 refl s5] s1 s2 s3 s4 s5 by (fastforce split: if_splits)
qed simp_all

lemma read_fuel:
  "length s < n \<Longrightarrow> length s < m \<Longrightarrow> read_value n s = read_value m s"
  "length s < n \<Longrightarrow> length s < m \<Longrightarrow> read_elements n s = read_elements m s"
  "length s < n \<Longrightarrow> length s < m \<Longrightarrow> read_members n s = read_members m s"
proof (induction n s and n s and n s arbitrary: m and m and m rule: read_value_read_elements_read_members.induct)
  case (2 n s)
  obtain m' where m: "m = Suc m'" using "2.prems"(2) by (cases m) auto
  show ?case
  proof (cases "skip_blanks s")
    case (Cons c t)
    have "length t < n" "length t < m'" using skip_blanks_Cons [OF Cons] "2.prems" m by simp_all
    then show ?thesis using "2.IH"(1) [OF Cons, of m'] "2.IH"(2) [OF Cons, of m'] by (simp add: m Cons cong: if_cong)
  qed (simp only: m read_value.simps list.case)
next
  case (4 n s)
  note read_value.simps [simp del]
  obtain m' where m: "m = Suc m'" using "4.prems"(2) by (cases m) auto
  have v: "read_value m s = read_value (Suc n) s" by (rule "4.IH"(1) [OF "4.prems", symmetric])
  show ?case
  proof (cases "read_value (Suc n) s")
    case (Some p)
    obtain x r where p: "p = (x, r)" by (rule prod.exhaust)
    show ?thesis
    proof (cases "skip_blanks r")
      case (Cons c t)
      have "length t < n" "length t < m'"
        using skip_blanks_Cons [OF Cons] read_shorter(1) [OF Some [unfolded p]] "4.prems" m by simp_all
      then have "read_elements n t = read_elements m' t" if "c \<noteq> CHR '']''" "c = CHR '',''"
        using "4.IH"(2) [OF Some p [symmetric] Cons that] by blast
      then show ?thesis using v by (simp add: m Some p Cons)
    qed (simp only: m read_elements.simps v [unfolded m] Some p list.case option.case prod.case)
  qed (use v in \<open>simp add: m\<close>)
next
  case (6 n s)
  note read_value.simps [simp del]
  obtain m' where m: "m = Suc m'" using "6.prems"(2) by (cases m) auto
  show ?case
  proof (cases "\<exists>s1 k s2 s3. skip_blanks s = CHR 0x22 # s1 \<and> read_string s1 = Some (k, s2) \<and> skip_blanks s2 = CHR '':'' # s3")
    case True
    then obtain s1 k s2 s3 where
      s: "skip_blanks s = CHR 0x22 # s1" "read_string s1 = Some (k, s2)" "skip_blanks s2 = CHR '':'' # s3" by blast
    have lt: "length s3 < length s"
      using skip_blanks_Cons [OF s(1)] read_string_shorter [OF s(2)] skip_blanks_Cons [OF s(3)] by simp
    then have v: "read_value m s3 = read_value (Suc n) s3"
      using "6.IH"(1) [OF s(1) _ s(2) refl s(3), of m] "6.prems" by simp
    show ?thesis
    proof (cases "read_value (Suc n) s3")
      case (Some p)
      obtain x r where p: "p = (x, r)" by (rule prod.exhaust)
      show ?thesis
      proof (cases "skip_blanks r")
        case (Cons c t)
        have "length t < n" "length t < m'"
          using skip_blanks_Cons [OF Cons] read_shorter(1) [OF Some [unfolded p]] lt "6.prems" m by simp_all
        then have "read_members n t = read_members m' t" if "c \<noteq> CHR ''}''" "c = CHR '',''"
          using "6.IH"(2) [OF s(1) _ s(2) refl s(3) _ Some p [symmetric] Cons that] by blast
        then show ?thesis using v by (simp add: m s Some p Cons)
      qed (simp only: m read_members.simps s v [unfolded m] Some p list.case option.case prod.case simp_thms if_False if_True HOL.refl)
    qed (use v in \<open>simp add: m s\<close>)
  next
    case False
    then show ?thesis by (auto simp: m split: list.split option.split)
  qed
qed simp_all

section \<open>Texts that the program writes\<close>

definition plain_char :: "char \<Rightarrow> bool" where
  "plain_char c \<longleftrightarrow> c \<noteq> CHR 0x22 \<and> c \<noteq> CHR 0x5C \<and> 32 \<le> (of_char c :: nat)"

lemma read_string_plain: "list_all plain_char k \<Longrightarrow> read_string (k @ CHR 0x22 # r) = Some (k, r)"
  by (induction k) (auto simp: plain_char_def)

lemma json_digits:
  assumes "c \<in> set (show_nat n)"
  shows "json_digit c \<and> plain_char c"
proof -
  have "list_all (\<lambda>c. json_digit c \<and> plain_char c) ''0123456789''" by code_simp
  moreover have "c \<in> set ''0123456789''"
    using assms is_digits_show_nat [of n] unfolding is_digits_def list_all_iff by blast
  ultimately show ?thesis unfolding list_all_iff by blast
qed

lemma show_int_plain: "list_all plain_char (show_int i)"
proof -
  have "plain_char (CHR ''-'')" by code_simp
  then show ?thesis using json_digits by (auto simp: show_int_def list_all_iff)
qed

lemma show_nat_lead: "hd (show_nat n) = CHR ''0'' \<longleftrightarrow> n = 0"
proof (induction n rule: show_nat.induct)
  case (1 n)
  show ?case
  proof (cases "n < 10")
    case True
    have "list_all (\<lambda>n. (digit n = CHR ''0'') = (n = 0)) [0..<10]" by code_simp
    then have "(digit n = CHR ''0'') = (n = 0)" using True unfolding list_all_iff set_upt by simp
    then show ?thesis using True by (subst show_nat.simps) (simp del: digit.simps)
  next
    case False
    then have "hd (show_nat n) = hd (show_nat (n div 10))" by (subst show_nat.simps) (simp del: digit.simps)
    then show ?thesis using False "1.IH" by simp
  qed
qed

lemma takeWhile_show_nat:
  assumes "r = [] \<or> \<not> json_digit (hd r)"
  shows "takeWhile json_digit (show_nat n @ r) = show_nat n"
proof -
  have "takeWhile json_digit r = []" using assms by (cases r) auto
  then show ?thesis using json_digits by (simp add: takeWhile_append)
qed

definition ends_number :: "string \<Rightarrow> bool" where
  "ends_number r \<longleftrightarrow> r = [] \<or> \<not> json_digit (hd r) \<and> hd r \<notin> {CHR ''.'', CHR ''e'', CHR ''E''}"

lemma read_number_int:
  assumes "ends_number r"
  shows "read_number (show_int i @ r) = Some (PInt i, r)"
proof -
  have tw: "takeWhile json_digit (show_nat n @ r) = show_nat n" for n
    using assms by (intro takeWhile_show_nat) (auto simp: ends_number_def)
  have whole: "(if show_nat n \<noteq> [] \<and> hd (show_nat n) = CHR ''0'' then [CHR ''0''] else show_nat n) = show_nat n" for n
  proof (cases "n = 0")
    case True
    then show ?thesis by (simp add: show_nat.simps [of 0])
  qed (simp add: show_nat_lead)
  have rest: "read_fraction r = ([], r)" "read_exponent r = (None, r)"
    using assms by (auto simp: ends_number_def read_fraction_def read_exponent_def split: list.split)
  have core: "read_number s = Some (PInt (if s \<noteq> [] \<and> hd s = CHR ''-'' then - int n else int n), r)"
    if "(if s \<noteq> [] \<and> hd s = CHR ''-'' then tl s else s) = show_nat n @ r" for s n
    unfolding read_number_def that Let_def tw whole by (simp add: rest)
  have "hd (show_nat n @ r) \<noteq> CHR ''-''" for n
    using json_digits [of "hd (show_nat n)" n] by (auto simp: json_digit_def)
  then show ?thesis
    using core [of "show_int i @ r" "nat \<bar>i\<bar>"] by (cases "i < 0") (simp_all add: show_int_def)
qed

lemma read_value_int:
  assumes "ends_number r"
  shows "read_value (Suc n) (CHR '' '' # show_int i @ r) = Some (PInt i, r)"
proof -
  have "show_int i \<noteq> []" by (simp add: show_int_def)
  then obtain c t where t: "show_int i = c # t" by (cases "show_int i") auto
  have "json_digit c \<or> c = CHR ''-''"
    using json_digits [of c "nat i"] t by (cases "i < 0") (simp_all add: show_int_def)
  then have c: "c \<in> set ''-0123456789''" by (auto simp: json_digit_def)
  have "list_all (\<lambda>c. \<not> json_blank c \<and> c \<notin> set ''[{ntf'' \<and> c \<noteq> CHR 0x22) ''-0123456789''" by code_simp
  then have "\<not> json_blank c" "c \<notin> set ''[{ntf''" "c \<noteq> CHR 0x22" using c unfolding list_all_iff by blast+
  then show ?thesis
    using read_number_int [OF assms, of i] by (simp add: t json_blank_def json_word_def)
qed

text \<open>An object of integers, as \<open>json.dumps\<close> writes it.\<close>

abbreviation json_entry :: "string \<times> int \<Rightarrow> string" where
  "json_entry \<equiv> \<lambda>(k, v). CHR 0x22 # k @ CHR 0x22 # CHR '':'' # CHR '' '' # show_int v"

lemma read_members_ints:
  assumes "kvs \<noteq> []" "length kvs \<le> n" "list_all (\<lambda>(k, v). list_all plain_char k) kvs" "b = [] \<or> b = '' ''"
  shows "read_members n (b @ join_with '', '' (map json_entry kvs) @ CHR ''}'' # r) =
    Some (map (\<lambda>(k, v). (k, PInt v)) kvs, r)"
  using assms
proof (induction kvs arbitrary: n b)
  case (Cons kv kvs)
  obtain k v where kv: "kv = (k, v)" by (rule prod.exhaust)
  obtain m where m: "n = Suc m" using Cons.prems(2) by (cases n) auto
  have start: "skip_blanks (b @ CHR 0x22 # s) = CHR 0x22 # s" for s
    using Cons.prems(4) by (auto simp: json_blank_def)
  have key: "read_string (k @ CHR 0x22 # s) = Some (k, s)" for s
    using Cons.prems(3) by (intro read_string_plain) (simp add: kv)
  have colon: "skip_blanks (CHR '':'' # s) = CHR '':'' # s" "skip_blanks (CHR ''}'' # s) = CHR ''}'' # s"
    "skip_blanks (CHR '','' # s) = CHR '','' # s" for s
    by (simp_all add: json_blank_def)
  show ?case
  proof (cases kvs)
    case Nil
    have "ends_number (CHR ''}'' # r)" by (simp add: ends_number_def json_digit_def)
    then show ?thesis by (simp add: m kv Nil start key colon read_value_int del: dropWhile.simps read_value.simps)
  next
    case (Cons kv' kvs')
    let ?more = "join_with '', '' (map json_entry kvs) @ CHR ''}'' # r"
    have e: "ends_number (CHR '','' # CHR '' '' # ?more)" by (simp add: ends_number_def json_digit_def)
    have "read_members m (CHR '' '' # ?more) = Some (map (\<lambda>(k, v). (k, PInt v)) kvs, r)"
      using Cons.IH [of m "'' ''"] Cons.prems m Cons by simp
    moreover have "join_with '', '' (map json_entry (kv # kvs)) @ CHR ''}'' # r =
        CHR 0x22 # k @ CHR 0x22 # CHR '':'' # CHR '' '' # show_int v @ CHR '','' # CHR '' '' # ?more"
      by (simp add: kv Cons)
    ultimately show ?thesis
      by (simp add: m kv start key colon read_value_int [OF e] del: dropWhile.simps read_value.simps)
  qed
qed simp

text \<open>Such a text is read back as it was written.\<close>

theorem json_ints_read_back:
  assumes "distinct (map fst kvs)" "list_all (\<lambda>(k, v). list_all plain_char k) kvs"
  shows "json_loads (CHR ''{'' # join_with '', '' (map json_entry kvs) @ ''}'') = Inr (PDict (map (\<lambda>(k, v). (k, PInt v)) kvs))"
proof (cases "kvs = []")
  case True
  then show ?thesis by (simp add: json_loads_def json_blank_def)
next
  case False
  let ?body = "join_with '', '' (map json_entry kvs) @ CHR ''}'' # []"
  have len: "length kvs \<le> length (join_with '', '' (map json_entry kvs))" for kvs
    by (induction kvs rule: induct_list012) (auto split: prod.splits)
  obtain t where t: "?body = CHR 0x22 # t" using False by (cases kvs; cases "tl kvs") (auto split: prod.splits)
  have "read_members (length (CHR ''{'' # ?body)) ?body = Some (map (\<lambda>(k, v). (k, PInt v)) kvs, [])"
    using read_members_ints [OF False _ assms(2), of _ "[]" "[]"] len [of kvs] by (simp del: read_members.simps)
  moreover have "dict_of (map (\<lambda>(k, v). (k, PInt v)) kvs) [] = map (\<lambda>(k, v). (k, PInt v)) kvs"
    using assms(1) by (intro dict_of_distinct) (simp_all add: case_prod_beta comp_def)
  moreover have "json_blank (CHR ''{'') = False" "json_blank (CHR 0x22) = False" by (simp_all add: json_blank_def)
  ultimately show ?thesis using t by (simp add: json_loads_def del: read_members.simps)
qed

end
