(* ===== verification/HeaServer.thy ===== *)
theory HeaServer
  imports Lifecycle Snapshot StateStore Json
begin

text \<open>
  The management service of an edge node (\<open>hea/hea/grpc/server.py\<close>) and its start (\<open>hea/hea/main.py\<close>).  A handler
  runs in a thread of the gRPC server and hands its work to the event loop; whether its thread finds an event
  loop, and what waiting for the result gives, are inputs.
\<close>

section \<open>Messages\<close>

record TelemetryResponse =
  tr_hea_id :: string
  tr_cpu_utilization :: real
  tr_memory_utilization :: real
  tr_ingest_rate_eps :: real
  tr_operator_p95_ms :: "(string, real) dict"
  tr_timestamp_ms :: int
  tr_reachable :: bool

record PlacementAck =
  pa_directive_id :: string
  pa_accepted :: bool
  pa_error_msg :: string

record SnapshotRequest =
  sq_operator_id :: string
  sq_migration_seq :: int
  sq_drain_offset_map :: string

record SnapshotResponse =
  sp_operator_id :: string
  sp_object_key :: string
  sp_byte_size :: nat
  sp_schema_version :: int
  sp_error_msg :: string

record TerminateAck =
  ta_operator_id :: string
  ta_success :: bool
  ta_error_msg :: string

section \<open>Handlers\<close>

definition GetTelemetry :: "real \<Rightarrow> 'op OperatorEngine \<Rightarrow> TelemetryResponse" where
  "GetTelemetry now eng =
     \<lparr>tr_hea_id = hc_node_id (eng_config eng), tr_cpu_utilization = hm_cpu_utilization (eng_metrics eng),
      tr_memory_utilization = hm_memory_utilization (eng_metrics eng), tr_ingest_rate_eps = hm_ingest_rate_eps (eng_metrics eng),
      tr_operator_p95_ms = get_operator_p95 (eng_metrics eng), tr_timestamp_ms = truncate_real (now * 1000), tr_reachable = True\<rparr>"

text \<open>The acknowledgement, and the assignment that is handed to the loop.\<close>

definition ApplyPlacement ::
    "handler_env \<Rightarrow> string \<Rightarrow> (string, string) dict \<Rightarrow> PlacementAck \<times> (string, string) dict option" where
  "ApplyPlacement env directive_id operator_to_tier =
     (case he_loop env of
        Inl e \<Rightarrow> (\<lparr>pa_directive_id = directive_id, pa_accepted = False, pa_error_msg = str_of_error e\<rparr>, None)
      | Inr _ \<Rightarrow> (\<lparr>pa_directive_id = directive_id, pa_accepted = True, pa_error_msg = []\<rparr>, Some operator_to_tier))"

text \<open>
  The assignment applied in the loop: what is left of it when a deregistration has to wait for a queue.
\<close>

fun apply_placement_async :: "string \<Rightarrow> (string \<times> string) list \<Rightarrow> 'op OperatorEngine \<Rightarrow> (string \<times> string) list \<times> 'op OperatorEngine" where
  "apply_placement_async my_id [] eng = ([], eng)"
| "apply_placement_async my_id ((oid, tier_id) # rest) eng =
     (if tier_id = my_id \<or> dict_get (eng_operators eng) oid = None then apply_placement_async my_id rest eng
      else
        (let eng' = deregister_begin oid eng
         in if eng_draining eng' \<noteq> eng_draining eng then (rest, eng') else apply_placement_async my_id rest eng'))"

definition TriggerSnapshot ::
    "schema_source \<Rightarrow> msgpack \<Rightarrow> 's s3_api \<Rightarrow> handler_env \<Rightarrow> SnapshotRequest \<Rightarrow> any_operator OperatorEngine \<Rightarrow>
     ObjectStore \<Rightarrow> SchemaRegistry \<Rightarrow> 's \<Rightarrow> SnapshotResponse \<times> SchemaRegistry \<times> 's" where
  "TriggerSnapshot src mp s3 env req eng os reg st =
     (let oid = sq_operator_id req;
          failed = (\<lambda>msg. \<lparr>sp_operator_id = oid, sp_object_key = [], sp_byte_size = 0, sp_schema_version = 0, sp_error_msg = msg\<rparr>)
      in case dict_get (eng_operators eng) oid of
           None \<Rightarrow> (failed (''Operator '' @ oid @ '' not found on this HEA''), reg, st)
         | Some op \<Rightarrow>
             (case bind_res (if sq_drain_offset_map req = [] then Inr (PDict []) else json_loads (sq_drain_offset_map req)) (\<lambda>offsets.
                   bind_res (he_loop env) (\<lambda>_. Inr offsets)) of
                Inl e \<Rightarrow> (failed (str_of_error e), reg, st)
              | Inr offsets \<Rightarrow>
                  (let run = create_migration_snapshot src mp s3 os (any_operator_id op) (any_operator_type op) (any_get_state op)
                         (sq_migration_seq req) offsets reg st
                   in case he_result env of
                        Inl e \<Rightarrow> (failed (str_of_error e), if he_started env then snd run else (reg, st))
                      | Inr _ \<Rightarrow>
                          (case run of
                             (Inl e, reg, st) \<Rightarrow> (failed (str_of_error e), reg, st)
                           | (Inr (object_key, byte_size), reg, st) \<Rightarrow>
                               (\<lparr>sp_operator_id = oid, sp_object_key = object_key, sp_byte_size = byte_size, sp_schema_version = 1,
                                 sp_error_msg = []\<rparr>, reg, st)))))"

definition TerminateOperator :: "handler_env \<Rightarrow> string \<Rightarrow> 'op OperatorEngine \<Rightarrow> TerminateAck \<times> 'op OperatorEngine" where
  "TerminateOperator env oid eng =
     (let failed = (\<lambda>e. \<lparr>ta_operator_id = oid, ta_success = False, ta_error_msg = str_of_error e\<rparr>)
      in case he_loop env of
           Inl e \<Rightarrow> (failed e, eng)
         | Inr _ \<Rightarrow>
             (let run = deregister_begin oid eng
              in case he_result env of
                   Inl e \<Rightarrow> (failed e, if he_started env then run else eng)
                 | Inr _ \<Rightarrow> (\<lparr>ta_operator_id = oid, ta_success = True, ta_error_msg = []\<rparr>, run)))"

section \<open>Start of a node\<close>

record node =
  nd_config :: HEAConfig
  nd_registry :: SchemaRegistry
  nd_store :: ObjectStore
  nd_engine :: "any_operator OperatorEngine"
  nd_checkpointer :: PeriodicCheckpointer

definition hea_main :: "kafka_api \<Rightarrow> HEAConfig \<Rightarrow> node res" where
  "hea_main kafka config =
     (let metrics = HEAMetrics_new (hc_ewma_alpha config) (hc_rtt_probe_interval_ms config) (hc_cloud_kafka_endpoint config)
      in case bridge_start kafka (BridgeProducer_new (hc_kafka_bootstrap config)) of
           (Inl e, bridge) \<Rightarrow> Inl e
         | (Inr _, bridge) \<Rightarrow>
             Inr \<lparr>nd_config = config, nd_registry = SchemaRegistry_new False (Some (hc_schema_dir config)),
                  nd_store = \<lparr>os_endpoint = hc_minio_endpoint config, os_access_key = hc_minio_access_key config,
                              os_secret_key = hc_minio_secret_key config, os_bucket = hc_minio_bucket config\<rparr>,
                  nd_engine = engine_start (OperatorEngine_new config metrics bridge),
                  nd_checkpointer = PeriodicCheckpointer_new (hc_checkpoint_interval_s config) (hc_rocksdb_path config)\<rparr>)"

text \<open>
  What happens on a running node: the loop applies an assignment or what is left of one, a termination is
  called, or the engine does a step of its own.  Registering an operator is not among them: nothing in the
  sources does.
\<close>

datatype node_event =
    Placement "(string \<times> string) list"
  | Terminate handler_env string
  | Engine "any_operator engine_event"

fun node_step :: "kafka_api \<Rightarrow> node_event \<Rightarrow> node \<Rightarrow> node" where
  "node_step kafka (Placement assignment) nd =
     nd\<lparr>nd_engine := snd (apply_placement_async (hc_node_id (nd_config nd)) assignment (nd_engine nd))\<rparr>"
| "node_step kafka (Terminate env oid) nd = nd\<lparr>nd_engine := snd (TerminateOperator env oid (nd_engine nd))\<rparr>"
| "node_step kafka (Engine ev) nd =
     (if registers ev then nd else nd\<lparr>nd_engine := engine_step workload_api kafka ev (nd_engine nd)\<rparr>)"

section \<open>Properties\<close>

text \<open>The management calls of a node never succeed from a thread without an event loop.  A placement is refused and
  not applied, a snapshot of an operator the node has is not taken, a termination leaves the engine as it is,
  and each answer carries the message of the exception.\<close>

theorem management_calls_refused:
  assumes "he_loop env = Inl e" "dict_get (eng_operators eng) (sq_operator_id req) = Some op" "sq_drain_offset_map req = []"
  shows "ApplyPlacement env did assignment = (\<lparr>pa_directive_id = did, pa_accepted = False, pa_error_msg = str_of_error e\<rparr>, None) \<and>
    TerminateOperator env oid eng = (\<lparr>ta_operator_id = oid, ta_success = False, ta_error_msg = str_of_error e\<rparr>, eng) \<and>
    TriggerSnapshot src mp s3 env req eng os reg st =
      (\<lparr>sp_operator_id = sq_operator_id req, sp_object_key = [], sp_byte_size = 0, sp_schema_version = 0,
        sp_error_msg = str_of_error e\<rparr>, reg, st)"
  using assms by (simp add: ApplyPlacement_def TerminateOperator_def TriggerSnapshot_def)

text \<open>The thread pool of the server, in which \<open>asyncio.get_event_loop()\<close> raises.\<close>

definition worker_thread :: handler_env where
  "worker_thread = \<lparr>he_loop = Inl (RuntimeError ''There is no current event loop in thread''), he_result = Inr (), he_started = False\<rparr>"

theorem management_calls_refused_witness:
  "TerminateOperator worker_thread ''risk-model'' sample_engine =
     (\<lparr>ta_operator_id = ''risk-model'', ta_success = False, ta_error_msg = ''There is no current event loop in thread''\<rparr>, sample_engine)"
proof -
  have "he_loop worker_thread = Inl (RuntimeError ''There is no current event loop in thread'')" by (simp add: worker_thread_def)
  moreover have "dict_get (eng_operators sample_engine) (sq_operator_id \<lparr>sq_operator_id = ''risk-model'', sq_migration_seq = 1, sq_drain_offset_map = []\<rparr>) = Some sample_risk"
    using sample_engine_facts(1) by (simp add: hosts_def)
  ultimately show ?thesis using management_calls_refused by fastforce
qed

lemma apply_placement_operators:
  "dict_get (eng_operators eng) oid = None \<Longrightarrow> dict_get (eng_operators (snd (apply_placement_async my_id xs eng))) oid = None"
proof (induction my_id xs eng rule: apply_placement_async.induct)
  case (2 my_id k tier rest eng)
  have "dict_get (eng_operators (deregister_begin k eng)) oid = None" using "2.prems" by (simp add: engine_simps)
  then show ?case using "2.IH" "2.prems" by (auto simp: Let_def)
qed simp

lemma engine_step_no_operator:
  assumes "eng_operators eng = []" "\<not> registers ev"
  shows "eng_operators (engine_step api kafka ev eng) = []"
proof -
  have d: "eng_operators (dispatch api kafka oid v off tm e) = []" if "eng_operators e = []" for oid v off tm e
    using that by (simp add: dispatch_def)
  have all: "eng_operators (dispatch_all api kafka ps v msg e) = []" if "eng_operators e = []" for ps v msg e
    using that by (induction ps arbitrary: e) (auto simp: d)
  have msgs: "eng_operators (snd (consume_messages api kafka t ms e)) = []" if "eng_operators e = []" for t ms e
    using that by (induction ms arbitrary: e) (auto simp: all split: sum.split)
  show ?thesis
  proof (cases ev)
    case (Consume t poll commit)
    have "eng_operators (snd (turn_messages api kafka t recs eng)) = []" for recs
      unfolding turn_messages_def by (rule msgs) (simp add: engine_simps assms(1))
    then show ?thesis unfolding Consume engine_step.simps
      by (cases rule: consume_turn_cases [of api kafka t poll commit eng]) (simp_all add: engine_simps assms(1))
  next
    case (Register op ins outs)
    then show ?thesis using assms(2) by simp
  qed (simp_all add: engine_simps assms(1) engine_start_def engine_stop_def deregister_begin_def)
qed

lemma node_run_no_operator:
  assumes "hea_main kafka config = Inr nd0"
  shows "eng_operators (nd_engine (fold (node_step kafka) events nd0)) = []"
proof -
  have assigned: "eng_operators (snd (apply_placement_async my_id xs eng)) = []" if "eng_operators eng = []" for my_id xs and eng :: "any_operator OperatorEngine"
    using that by (induction my_id xs eng rule: apply_placement_async.induct) auto
  have step: "eng_operators (nd_engine (node_step kafka ev x)) = []" if "eng_operators (nd_engine x) = []" for ev x
  proof (cases ev)
    case (Placement xs)
    then show ?thesis using assigned [OF that] by simp
  next
    case (Terminate env oid)
    then show ?thesis using that by (auto simp: TerminateOperator_def Let_def deregister_begin_def split: sum.split)
  next
    case (Engine ev')
    then show ?thesis using that engine_step_no_operator [OF that] by simp
  qed
  have "eng_operators (nd_engine (fold (node_step kafka) events x)) = []" if "eng_operators (nd_engine x) = []" for x
    using that by (induction events arbitrary: x) (simp_all add: step)
  moreover have "eng_operators (nd_engine nd0) = []"
    using assms by (auto simp: hea_main_def Let_def engine_start_def OperatorEngine_new_def split: prod.splits sum.splits)
  ultimately show ?thesis by simp
qed

text \<open>A deployed node never runs an operator.  From its start on, whatever placements it accepts, whatever is
  terminated and however its engine runs, it holds no operator, so every snapshot it is asked for is answered
  with an error and nothing is stored.\<close>

theorem deployed_node_runs_nothing:
  assumes "hea_main kafka config = Inr nd0" "nd = fold (node_step kafka) events nd0"
  shows "eng_operators (nd_engine nd) = [] \<and>
    TriggerSnapshot src mp s3 env req (nd_engine nd) os reg st =
      (\<lparr>sp_operator_id = sq_operator_id req, sp_object_key = [], sp_byte_size = 0, sp_schema_version = 0,
        sp_error_msg = ''Operator '' @ sq_operator_id req @ '' not found on this HEA''\<rparr>, reg, st)"
  using node_run_no_operator [OF assms(1), of events] by (simp add: assms(2) TriggerSnapshot_def Let_def)

theorem deployed_node_runs_nothing_witness:
  "\<exists>nd0. hea_main sample_kafka HEAConfig_default = Inr nd0 \<and>
     eng_operators (nd_engine (fold (node_step sample_kafka) [Placement [(''risk-model'', ''edge-node-1'')]] nd0)) = []"
proof -
  obtain nd0 where nd0: "hea_main sample_kafka HEAConfig_default = Inr nd0"
    by (simp add: hea_main_def bridge_start_def sample_kafka_def Let_def)
  have "eng_operators (nd_engine (fold (node_step sample_kafka) [Placement [(''risk-model'', ''edge-node-1'')]] nd0)) = []"
    by (rule conjunct1 [OF deployed_node_runs_nothing [OF nd0 refl]])
  with nd0 show ?thesis by blast
qed

text \<open>A placement removes exactly what it assigns elsewhere.  When no operator of the node has a queue, applying an
  assignment leaves the operators that it does not mention or assigns to this node, unchanged, and
  deregisters all others; it adds none.\<close>

theorem placement_removes_exactly:
  assumes "eng_worker_queues eng = []" "distinct (map fst assignment)"
  shows "apply_placement_async my_id assignment eng = ([], snd (apply_placement_async my_id assignment eng)) \<and>
    dict_get (eng_operators (snd (apply_placement_async my_id assignment eng))) oid =
      (case dict_get assignment oid of
         Some tier \<Rightarrow> if tier = my_id then dict_get (eng_operators eng) oid else None
       | None \<Rightarrow> dict_get (eng_operators eng) oid)"
  using assms
proof (induction my_id assignment eng rule: apply_placement_async.induct)
  case (2 my_id k tier rest eng)
  let ?eng = "deregister_begin k eng"
  have q: "eng_worker_queues ?eng = []" "eng_draining ?eng = eng_draining eng"
    using "2.prems"(1) by (simp_all add: deregister_begin_def)
  have k: "dict_get rest k = None" "distinct (map fst rest)"
    using "2.prems"(2) by (simp_all add: map_of_eq_None_iff)
  show ?case
  proof (cases "tier = my_id \<or> dict_get (eng_operators eng) k = None")
    case True
    then show ?thesis using "2.IH"(1) "2.prems"(1) k by (auto split: option.split)
  next
    case False
    then show ?thesis using "2.IH"(2) [OF _ refl _ q(1) k(2)] q(2) k(1)
      by (auto simp: Let_def engine_simps split: option.split)
  qed
qed simp

theorem placement_removes_exactly_witness:
  "dict_get (eng_operators (snd (apply_placement_async ''edge-node-1'' [(''risk-model'', ''cloud'')]
     (sample_engine\<lparr>eng_worker_queues := []\<rparr>)))) ''risk-model'' = None"
  using placement_removes_exactly [of "sample_engine\<lparr>eng_worker_queues := []\<rparr>" "[(''risk-model'', ''cloud'')]" "''edge-node-1''" "''risk-model''"]
  by simp

end
