(* ===== verification/Serving.thy ===== *)
theory Serving
  imports AodeMain HeaServer
begin

text \<open>
  How the two processes serve: the steps of their main coroutines as the event loop sees them (\<open>hea/hea/main.py\<close>,
  \<open>aode/aode/main.py\<close>) with the two \<open>serve\<close> functions (\<open>hea/hea/grpc/server.py\<close>, \<open>aode/aode/grpc/server.py\<close>), and
  what becomes of a node once its loop stands still.
\<close>

section \<open>Event loop\<close>

text \<open>
  A main coroutine suspends itself at an await that has to wait, creates tasks, and may block the thread of the
  loop.  A task gets its first turn when the coroutine is next suspended; once the thread is blocked, nothing does.
\<close>

datatype 't main_step = Awaits | Creates 't | Blocks

fun tasks_with_turns :: "'t list \<Rightarrow> 't main_step list \<Rightarrow> 't list" where
  "tasks_with_turns ready [] = ready"
| "tasks_with_turns ready (Awaits # steps) = ready @ tasks_with_turns [] steps"
| "tasks_with_turns ready (Creates t # steps) = tasks_with_turns (ready @ [t]) steps"
| "tasks_with_turns ready (Blocks # steps) = []"

definition loop_blocked :: "'t main_step list \<Rightarrow> bool" where
  "loop_blocked steps \<longleftrightarrow> Blocks \<in> set steps"

subsection \<open>An edge node\<close>

datatype node_task = MetricsLoop | CheckpointLoop

text \<open>
  \<open>bridge_producer.start()\<close> waits for the broker, \<open>engine.start()\<close> neither waits nor creates a task, and
  \<open>serve\<close> ends in the \<open>wait_for_termination()\<close> of a synchronous server.
\<close>

definition hea_serve_steps :: "node_task main_step list" where
  "hea_serve_steps = [Blocks]"

definition hea_main_steps :: "node_task main_step list" where
  "hea_main_steps = [Awaits, Creates MetricsLoop, Creates CheckpointLoop] @ hea_serve_steps"

subsection \<open>The decision engine\<close>

datatype aode_task = TelemetryLoop | OptimizationLoop | GrpcServer

text \<open>\<open>serve_management_api\<close> runs in a task of its own and awaits the start and the end of an asynchronous server.\<close>

definition aode_serve_steps :: "aode_task main_step list" where
  "aode_serve_steps = [Awaits, Awaits]"

definition aode_main_steps :: "AODEConfig \<Rightarrow> aode_task main_step list" where
  "aode_main_steps cfg =
     [Creates TelemetryLoop] @ (if recalibration_enabled cfg then [Creates OptimizationLoop] else []) @
     [Creates TelemetryLoop, Creates OptimizationLoop, Creates GrpcServer, Awaits]"

section \<open>A node that serves\<close>

text \<open>
  What can happen to a node: a turn of one of its tasks, a coroutine that a handler has handed to the loop, and
  calls.  A handler runs in a thread of the pool, so it runs also when the loop is blocked, but then what it
  hands over is never begun and waiting for it fails.
\<close>

datatype serving_event =
    MetricsTurn metrics_sample
  | CheckpointTurn "string \<Rightarrow> unit res"
  | Handed node_event
  | TerminateCall handler_env string

fun can_happen :: "node_task main_step list \<Rightarrow> serving_event \<Rightarrow> bool" where
  "can_happen steps (MetricsTurn x) = (MetricsLoop \<in> set (tasks_with_turns [] steps))"
| "can_happen steps (CheckpointTurn make_dirs) = (CheckpointLoop \<in> set (tasks_with_turns [] steps))"
| "can_happen steps (Handed ev) = (\<not> loop_blocked steps)"
| "can_happen steps (TerminateCall env oid) = (loop_blocked steps \<longrightarrow> \<not> he_started env \<and> isl (he_result env))"

fun serving_step :: "kafka_api \<Rightarrow> serving_event \<Rightarrow> node \<Rightarrow> node" where
  "serving_step kafka (MetricsTurn x) nd =
     nd\<lparr>nd_engine := (nd_engine nd)\<lparr>eng_metrics := update_metrics x (eng_metrics (nd_engine nd))\<rparr>\<rparr>"
| "serving_step kafka (CheckpointTurn make_dirs) nd = nd"
| "serving_step kafka (Handed ev) nd = node_step kafka ev nd"
| "serving_step kafka (TerminateCall env oid) nd = nd\<lparr>nd_engine := snd (TerminateOperator env oid (nd_engine nd))\<rparr>"

lemma hea_loop_blocked: "loop_blocked hea_main_steps" "tasks_with_turns [] hea_main_steps = []"
  by (simp_all add: loop_blocked_def hea_main_steps_def hea_serve_steps_def)

lemma blocked_step:
  assumes "can_happen hea_main_steps ev"
  shows "serving_step kafka ev nd = nd"
  using assms by (cases ev) (auto simp: hea_loop_blocked TerminateOperator_def Let_def isl_def split: sum.split)

lemma deployed_reply:
  assumes "hea_main kafka config = Inr nd0" "list_all (can_happen hea_main_steps) evs"
  shows "fold (serving_step kafka) evs nd0 = nd0"
    "GetTelemetry now (nd_engine (fold (serving_step kafka) evs nd0)) =
      \<lparr>tr_hea_id = hc_node_id config, tr_cpu_utilization = 0, tr_memory_utilization = 0, tr_ingest_rate_eps = 0,
       tr_operator_p95_ms = [], tr_timestamp_ms = truncate_real (now * 1000), tr_reachable = True\<rparr>"
proof -
  show same: "fold (serving_step kafka) evs nd0 = nd0"
    using assms(2) by (induction evs) (simp_all add: blocked_step)
  show "GetTelemetry now (nd_engine (fold (serving_step kafka) evs nd0)) =
      \<lparr>tr_hea_id = hc_node_id config, tr_cpu_utilization = 0, tr_memory_utilization = 0, tr_ingest_rate_eps = 0,
       tr_operator_p95_ms = [], tr_timestamp_ms = truncate_real (now * 1000), tr_reachable = True\<rparr>"
    using assms(1) unfolding same
    by (auto simp: hea_main_def Let_def engine_start_def OperatorEngine_new_def GetTelemetry_def HEAMetrics_new_def
        get_operator_p95_def split: prod.splits sum.splits)
qed



end
