(* ===== verification/Handover.thy ===== *)
theory Handover
  imports Serving
begin

text \<open>
  The two processes together: the migration protocol of the decision engine
  (\<open>aode/aode/migration/pctr.py\<close>) run against nodes that answer as \<open>hea/hea/grpc/server.py\<close> does, and the telemetry
  that the engine collects from deployed nodes.  The messages of the protocol are passed as they are.
\<close>

section \<open>Nodes that answer\<close>

text \<open>
  What a node answers from: its engine, registry and store, and how the handlers of the two calls fare in their
  threads.  The object store is shared.
\<close>

record serving_node =
  sn_schemas :: schema_source
  sn_msgpack :: msgpack
  sn_store :: ObjectStore
  sn_registry :: SchemaRegistry
  sn_snapshot_thread :: handler_env
  sn_terminate_thread :: handler_env
  sn_engine :: "any_operator OperatorEngine"

type_synonym objects = "(string \<times> string, bytes) dict"

definition answer_snapshot ::
    "serving_node \<Rightarrow> objects \<Rightarrow> string \<Rightarrow> int \<Rightarrow> string \<Rightarrow> SnapshotResponse \<times> SchemaRegistry \<times> objects" where
  "answer_snapshot nd st oid seqno offs =
     TriggerSnapshot (sn_schemas nd) (sn_msgpack nd) map_s3 (sn_snapshot_thread nd)
       \<lparr>sq_operator_id = oid, sq_migration_seq = seqno, sq_drain_offset_map = offs\<rparr> (sn_engine nd) (sn_store nd) (sn_registry nd) st"

definition answer_terminate :: "serving_node \<Rightarrow> string \<Rightarrow> TerminateAck \<times> any_operator OperatorEngine" where
  "answer_terminate nd oid = TerminateOperator (sn_terminate_thread nd) oid (sn_engine nd)"

definition snapshot_message :: "SnapshotResponse \<Rightarrow> SnapshotReply" where
  "snapshot_message r = \<lparr>sr_object_key = sp_object_key r, sr_byte_size = int (sp_byte_size r), sr_error_msg = sp_error_msg r\<rparr>"

definition terminate_message :: "TerminateAck \<Rightarrow> TerminateReply" where
  "terminate_message r = \<lparr>tr_success = ta_success r, tr_error_msg = ta_error_msg r\<rparr>"

text \<open>
  The two calls of the protocol that \<open>HEAClient\<close> has, answered by nodes; everything else is left to \<open>env\<close>.  The
  sequence number is a field of 32 bits.
\<close>

definition HEAClient_trigger_snapshot ::
    "(string \<Rightarrow> serving_node) \<Rightarrow> objects \<Rightarrow> rpc list \<Rightarrow> string \<Rightarrow> string \<Rightarrow> int \<Rightarrow> string \<Rightarrow> SnapshotReply outcome" where
  "HEAClient_trigger_snapshot nodes st tr tier oid seqno offs =
     (if - (2 ^ 31) \<le> seqno \<and> seqno < 2 ^ 31 then Returns (snapshot_message (fst (answer_snapshot (nodes tier) st oid seqno offs)))
      else Raises (ValueError (''Value out of range: '' @ show_int seqno)))"

definition HEAClient_terminate_operator :: "(string \<Rightarrow> serving_node) \<Rightarrow> rpc list \<Rightarrow> string \<Rightarrow> string \<Rightarrow> bool \<Rightarrow> TerminateReply outcome" where
  "HEAClient_terminate_operator nodes tr tier oid flush_state =
     Returns (terminate_message (fst (answer_terminate (nodes tier) oid)))"

definition with_nodes :: "(string \<Rightarrow> serving_node) \<Rightarrow> objects \<Rightarrow> migration_env \<Rightarrow> migration_env" where
  "with_nodes nodes st env =
     env\<lparr>ne_snapshot := HEAClient_trigger_snapshot nodes st, ne_terminate := HEAClient_terminate_operator nodes\<rparr>"

lemma with_nodes_simps [simp]:
  "ne_clients (with_nodes nodes st env) = ne_clients env" "ne_time (with_nodes nodes st env) = ne_time env"
  "ne_drain (with_nodes nodes st env) = ne_drain env" "ne_restore (with_nodes nodes st env) = ne_restore env"
  "ne_restore_flink (with_nodes nodes st env) = ne_restore_flink env"
  "ne_snapshot (with_nodes nodes st env) = HEAClient_trigger_snapshot nodes st"
  "ne_terminate (with_nodes nodes st env) = HEAClient_terminate_operator nodes"
  "restore_answer (with_nodes nodes st env) tr tgt oid key = restore_answer env tr tgt oid key"
  by (simp_all add: with_nodes_def restore_answer_def)

section \<open>The drained offsets on their way\<close>

text \<open>The offsets as they are written by the engine and read by the node: an object whose keys are the partitions.\<close>

definition offsets_value :: "(int, int) dict \<Rightarrow> pyval" where
  "offsets_value d = PDict (map (\<lambda>(k, v). (show_int k, PInt v)) d)"

lemma offsets_read_back:
  assumes "wf_dict d"
  shows "json_loads (json_of_offsets d) = Inr (offsets_value d)"
proof -
  let ?kvs = "map (\<lambda>(k, v). (show_int k, v)) d"
  have "distinct (map fst ?kvs)"
    using assms by (simp add: wf_dict_def distinct_map comp_def case_prod_beta inj_on_def show_int_inj)
  moreover have "list_all (\<lambda>(k, v). list_all plain_char k) ?kvs"
    using show_int_plain by (auto simp: list_all_iff)
  ultimately show ?thesis
    using json_ints_read_back [of ?kvs]
    by (simp add: json_of_offsets_def offsets_value_def comp_def case_prod_unfold)
qed

lemma json_of_offsets_nonempty: "json_of_offsets d \<noteq> []"
  by (simp add: json_of_offsets_def)

section \<open>A migration from a node\<close>

text \<open>A snapshot that is answered with a key has been taken of an operator of the node.\<close>

lemma answer_snapshot_taken:
  assumes "answer_snapshot nd st oid seqno (json_of_offsets offsets) = (resp, reg', st')" "sp_object_key resp \<noteq> []" "wf_dict offsets"
  obtains op n where "dict_get (eng_operators (sn_engine nd)) oid = Some op" "sp_error_msg resp = []"
    "create_migration_snapshot (sn_schemas nd) (sn_msgpack nd) map_s3 (sn_store nd) (any_operator_id op) (any_operator_type op)
       (any_get_state op) seqno (offsets_value offsets) (sn_registry nd) st = (Inr (sp_object_key resp, n), reg', st')"
proof (cases "dict_get (eng_operators (sn_engine nd)) oid")
  case None
  then show ?thesis using assms(1,2) by (auto simp: answer_snapshot_def TriggerSnapshot_def)
next
  case (Some op)
  let ?run = "create_migration_snapshot (sn_schemas nd) (sn_msgpack nd) map_s3 (sn_store nd) (any_operator_id op) (any_operator_type op)
       (any_get_state op) seqno (offsets_value offsets) (sn_registry nd) st"
  obtain r reg1 st1 where run: "?run = (r, reg1, st1)" by (rule prod_cases3)
  obtain u where loop: "he_loop (sn_snapshot_thread nd) = Inr u"
    using assms(1,2) offsets_read_back [OF assms(3)] json_of_offsets_nonempty [of offsets]
    by (cases "he_loop (sn_snapshot_thread nd)") (auto simp: answer_snapshot_def TriggerSnapshot_def Some)
  obtain v where result: "he_result (sn_snapshot_thread nd) = Inr v"
    using assms(1,2) offsets_read_back [OF assms(3)] json_of_offsets_nonempty [of offsets] loop
    by (cases "he_result (sn_snapshot_thread nd)") (auto simp: answer_snapshot_def TriggerSnapshot_def Some Let_def)
  obtain key n where r: "r = Inr (key, n)"
    using assms(1,2) offsets_read_back [OF assms(3)] json_of_offsets_nonempty [of offsets] loop result run
    by (cases r) (auto simp: answer_snapshot_def TriggerSnapshot_def Some Let_def)
  then have "resp = \<lparr>sp_operator_id = oid, sp_object_key = key, sp_byte_size = n, sp_schema_version = 1, sp_error_msg = []\<rparr>"
    "reg' = reg1" "st' = st1"
    using assms(1) offsets_read_back [OF assms(3)] json_of_offsets_nonempty [of offsets] loop result run
    by (auto simp: answer_snapshot_def TriggerSnapshot_def Some Let_def)
  with Some run r show ?thesis by (intro that) simp_all
qed

text \<open>What a successful run of the protocol has seen.\<close>

lemma successful_run:
  assumes "execute env (PCTRMigration_new mid oid src tgt, tr) = (Returns True, mg, tr')"
  obtains offsets seqno reply where "ne_drain env tr src oid = Returns offsets"
    "ne_snapshot env (tr @ [Drain src oid]) src oid seqno (json_of_offsets offsets) = Returns reply" "sr_error_msg reply = []"
    "tr' = tr @ protocol_calls src tgt oid offsets seqno (sr_object_key reply)"
    "\<exists>tr t. ne_terminate env tr src oid True = Returns t \<and> tr_success t"
proof -
  obtain n offsets seqno reply where run: "protocol_run env oid src tgt tr (Returns True) tr' n offsets seqno reply"
    using protocol_run_exists [OF assms] by blast
  then have "n = 4" by (auto simp: protocol_run_def Let_def)
  with run show ?thesis
    by (intro that [of offsets seqno reply]) (auto simp: protocol_run_def protocol_calls_def Let_def)
qed

section \<open>What the protocol relies on\<close>

text \<open>
  The contract of a source node: a snapshot that is answered with a key is stored under it, and an operator whose
  termination is acknowledged is gone.
\<close>

locale migration_source =
  fixes take_snapshot :: "rpc list \<Rightarrow> string \<Rightarrow> string \<Rightarrow> int \<Rightarrow> string \<Rightarrow> SnapshotReply outcome"
    and terminate :: "rpc list \<Rightarrow> string \<Rightarrow> string \<Rightarrow> bool \<Rightarrow> TerminateReply outcome"
    and stored :: "string \<Rightarrow> string \<Rightarrow> int \<Rightarrow> (int, int) dict \<Rightarrow> string \<Rightarrow> bool"
    and gone :: "string \<Rightarrow> string \<Rightarrow> bool"
  assumes snapshot_stores: "take_snapshot tr tier oid seqno (json_of_offsets offsets) = Returns reply \<Longrightarrow> sr_object_key reply \<noteq> [] \<Longrightarrow>
      wf_dict offsets \<Longrightarrow> stored tier oid seqno offsets (sr_object_key reply)"
    and terminate_removes: "terminate tr tier oid flush_state = Returns t \<Longrightarrow> tr_success t \<Longrightarrow> gone tier oid"
begin

lemma migration_moves:
  assumes "execute env (PCTRMigration_new mid oid src tgt, tr) = (Returns True, mg, tr')"
    and "ne_snapshot env = take_snapshot" "ne_terminate env = terminate" "\<And>d. ne_drain env tr src oid = Returns d \<Longrightarrow> wf_dict d"
  shows "\<exists>offsets seqno key. ne_drain env tr src oid = Returns offsets \<and> tr' = tr @ protocol_calls src tgt oid offsets seqno key \<and>
    gone src oid \<and> (key \<noteq> [] \<longrightarrow> stored src oid seqno offsets key)"
proof -
  obtain offsets seqno reply where run: "ne_drain env tr src oid = Returns offsets"
    "take_snapshot (tr @ [Drain src oid]) src oid seqno (json_of_offsets offsets) = Returns reply"
    "tr' = tr @ protocol_calls src tgt oid offsets seqno (sr_object_key reply)"
    "\<exists>tr t. terminate tr src oid True = Returns t \<and> tr_success t"
    using successful_run [OF assms(1)] unfolding assms(2,3) by metis
  have "gone src oid" using run(4) terminate_removes by blast
  with run snapshot_stores [OF run(2) _ assms(4) [OF run(1)]] show ?thesis by blast
qed

end

text \<open>A node keeps the contract: what it stores is the snapshot of an operator that it has.\<close>

definition snapshot_held :: "serving_node \<Rightarrow> objects \<Rightarrow> string \<Rightarrow> int \<Rightarrow> (int, int) dict \<Rightarrow> string \<Rightarrow> bool" where
  "snapshot_held nd st oid seqno offsets key \<longleftrightarrow>
     (\<exists>op n. dict_get (eng_operators (sn_engine nd)) oid = Some op \<and>
        create_migration_snapshot (sn_schemas nd) (sn_msgpack nd) map_s3 (sn_store nd) (any_operator_id op) (any_operator_type op)
          (any_get_state op) seqno (offsets_value offsets) (sn_registry nd) st =
        (Inr (key, n), snd (answer_snapshot nd st oid seqno (json_of_offsets offsets))))"

definition operator_gone :: "serving_node \<Rightarrow> string \<Rightarrow> bool" where
  "operator_gone nd oid \<longleftrightarrow> dict_get (eng_operators (snd (answer_terminate nd oid))) oid = None"

interpretation hea_source: migration_source "HEAClient_trigger_snapshot nodes st" "HEAClient_terminate_operator nodes"
    "\<lambda>tier. snapshot_held (nodes tier) st" "\<lambda>tier. operator_gone (nodes tier)" for nodes st
proof unfold_locales
  fix tr tier oid seqno offsets reply
  assume reply: "HEAClient_trigger_snapshot nodes st tr tier oid seqno (json_of_offsets offsets) = Returns reply"
    "sr_object_key reply \<noteq> []" "wf_dict offsets"
  obtain resp reg' st' where resp: "answer_snapshot (nodes tier) st oid seqno (json_of_offsets offsets) = (resp, reg', st')"
    by (rule prod_cases3)
  have key: "sr_object_key reply = sp_object_key resp"
    using reply(1) resp by (auto simp: HEAClient_trigger_snapshot_def snapshot_message_def split: if_splits)
  then show "snapshot_held (nodes tier) st oid seqno offsets (sr_object_key reply)"
    using answer_snapshot_taken [OF resp _ reply(3)] reply(2) unfolding snapshot_held_def resp snd_conv by metis
next
  fix tr tier oid flush_state t
  assume "HEAClient_terminate_operator nodes tr tier oid flush_state = Returns t" "tr_success t"
  then show "operator_gone (nodes tier) oid"
    by (auto simp: HEAClient_terminate_operator_def terminate_message_def operator_gone_def answer_terminate_def TerminateOperator_def
        Let_def deregister_begin_def dict_simps split: sum.splits option.splits if_splits)
qed

section \<open>A migration that succeeds\<close>

definition state_stored :: "serving_node \<Rightarrow> objects \<Rightarrow> string \<Rightarrow> string list \<Rightarrow> py_record \<Rightarrow> bool" where
  "state_stored nd st key names state \<longleftrightarrow>
     (\<exists>data reg out. download map_s3 (sn_store nd) key st = Inr data \<and>
        deserialize (sn_schemas nd) (sn_msgpack nd) data reg = (Inr out, reg) \<and>
        (\<forall>k. dict_get out k = (if k \<in> set names then Some (rec_get state k PNone) else None)))"

lemma held_state_stored:
  assumes "snapshot_held nd st oid seqno offsets key" "faithful_msgpack (sn_msgpack nd)"
    and "\<And>op. dict_get (eng_operators (sn_engine nd)) oid = Some op \<Longrightarrow>
      get_schema (sn_schemas nd) (any_operator_type op) 1 (sn_registry nd) = (Inr schema, reg) \<and> has_schema schema 1 names \<and>
      ''operator_class'' \<notin> set names \<and> any_operator_type op \<noteq> []"
  shows "\<exists>op. dict_get (eng_operators (sn_engine nd)) oid = Some op \<and>
    state_stored nd (snd (snd (answer_snapshot nd st oid seqno (json_of_offsets offsets)))) key names
      (dict_set ''kafka_offset_map'' (offsets_value offsets) (any_get_state op))"
proof -
  obtain reg' st' where after: "snd (answer_snapshot nd st oid seqno (json_of_offsets offsets)) = (reg', st')" by (rule prod.exhaust)
  obtain op n where op: "dict_get (eng_operators (sn_engine nd)) oid = Some op"
    "create_migration_snapshot (sn_schemas nd) (sn_msgpack nd) map_s3 (sn_store nd) (any_operator_id op) (any_operator_type op)
       (any_get_state op) seqno (offsets_value offsets) (sn_registry nd) st = (Inr (key, n), reg', st')"
    using assms(1) unfolding snapshot_held_def after by blast
  obtain data where data: "serialize (sn_schemas nd) (sn_msgpack nd) (any_operator_type op)
      (dict_set ''kafka_offset_map'' (offsets_value offsets) (any_get_state op)) (sn_registry nd) = (Inr data, reg')"
    "download map_s3 (sn_store nd) key st' = Inr data"
    using map_s3.snapshot_stored [OF op(2)] by blast
  note schema = assms(3) [OF op(1)]
  from serialize_deserialize [OF assms(2) _ _ _ _ data(1)] schema
  have "state_stored nd st' key names (dict_set ''kafka_offset_map'' (offsets_value offsets) (any_get_state op))"
    unfolding state_stored_def using data(2) by blast
  with op(1) show ?thesis by (simp add: after)
qed


text \<open>A node that holds an aggregator of statistics, and nodes that answer every other call.\<close>

definition working_thread :: handler_env where
  "working_thread = \<lparr>he_loop = Inr (), he_result = Inr (), he_started = True\<rparr>"

definition stat_node :: "handler_env \<Rightarrow> serving_node" where
  "stat_node thread =
     \<lparr>sn_schemas = shipped_source ''d'', sn_msgpack = stat_msgpack, sn_store = sample_store,
      sn_registry = SchemaRegistry_new False (Some ''d''), sn_snapshot_thread = thread, sn_terminate_thread = working_thread,
      sn_engine = sample_engine\<lparr>eng_operators := [(''stat-fx'', sample_stat)]\<rparr>\<rparr>"

definition obliging_env :: migration_env where
  "obliging_env =
     \<lparr>ne_clients = [''edge-node-1''], ne_time = (\<lambda>tr. 7), ne_drain = (\<lambda>tr tier oid. Returns [(0, 42)]),
      ne_snapshot = (\<lambda>tr tier oid seqno offs. Hangs), ne_restore = (\<lambda>tr tier oid key. Returns ()),
      ne_restore_flink = (\<lambda>tr oid key. Returns ()), ne_terminate = (\<lambda>tr tier oid flush. Hangs)\<rparr>"

lemma obliging_simps [simp]:
  "ne_clients obliging_env = [''edge-node-1'']" "ne_time obliging_env tr = 7" "ne_drain obliging_env tr tier oid = Returns [(0, 42)]"
  "restore_answer obliging_env tr tgt oid key = Returns ()"
  by (simp_all add: obliging_env_def restore_answer_def)

lemma sample_offsets: "offsets_value [(0, 42)] = PDict [(''0'', PInt 42)]"
proof -
  have "show_int 0 = ''0''" by code_simp
  then show ?thesis by (simp add: offsets_value_def)
qed

lemma stat_answer:
  "answer_snapshot (stat_node working_thread) [] ''stat-fx'' 7 (json_of_offsets [(0, 42)]) =
     (\<lparr>sp_operator_id = ''stat-fx'', sp_object_key = ''stat-fx/7/snapshot.msgpack'', sp_byte_size = 7, sp_schema_version = 1, sp_error_msg = []\<rparr>,
      stat_registry, [((''b'', ''stat-fx/7/snapshot.msgpack''), MAGIC @ [0, 1, 1])])"
proof -
  have offsets: "json_loads (json_of_offsets [(0, 42)]) = Inr (PDict [(''0'', PInt 42)])"
    using offsets_read_back [of "[(0, 42)]"] by (simp add: wf_dict_def sample_offsets)
  show ?thesis
    using stat_snapshot_taken json_of_offsets_nonempty [of "[(0, 42)]"]
    by (simp add: answer_snapshot_def TriggerSnapshot_def stat_node_def working_thread_def offsets)
qed

lemma stat_terminated:
  "fst (answer_terminate (stat_node thread) oid) = \<lparr>ta_operator_id = oid, ta_success = True, ta_error_msg = []\<rparr>"
  by (simp add: answer_terminate_def TerminateOperator_def stat_node_def working_thread_def)


text \<open>The exception of \<open>Future.result\<close> when the time is up has no message.\<close>

definition future_timeout :: py_error where
  "future_timeout = Exc []"



text \<open>No operator can be migrated from a deployed node.  Even with clients that can drain, a migration whose source is a
  node in any state it can reach from its start fails in the second phase, because the node does not have the
  operator; nothing is restored and nothing is terminated.\<close>

theorem deployed_handover_fails:
  assumes "hea_main kafka config = Inr nd0" "sn_engine (nodes src) = nd_engine (fold (node_step kafka) events nd0)"
    and "src \<in> set (ne_clients env)" "ne_drain env tr src oid = Returns offsets"
    and "seqno = ne_time env (tr @ [Drain src oid])" "- (2 ^ 31) \<le> seqno" "seqno < 2 ^ 31"
  shows "execute (with_nodes nodes st env) (PCTRMigration_new mid oid src tgt, tr) =
    (Returns False,
     (after_drain mid oid src tgt offsets)\<lparr>mg_phase := PHASE_2_SNAP,
        mg_error := Some (''Snapshot failed: Operator '' @ oid @ '' not found on this HEA'')\<rparr>,
     tr @ [Drain src oid, Snapshot src oid seqno (json_of_offsets offsets)])"
proof -
  let ?env = "with_nodes nodes st env"
  have "eng_operators (sn_engine (nodes src)) = []" using node_run_no_operator [OF assms(1), of events] assms(2) by simp
  then have reply: "HEAClient_trigger_snapshot nodes st (tr @ [Drain src oid]) src oid seqno (json_of_offsets offsets) =
      Returns \<lparr>sr_object_key = [], sr_byte_size = 0, sr_error_msg = ''Operator '' @ oid @ '' not found on this HEA''\<rparr>"
    using assms(6,7)
    by (simp add: HEAClient_trigger_snapshot_def answer_snapshot_def TriggerSnapshot_def snapshot_message_def)
  have src: "src \<in> set (ne_clients ?env)" and seqno: "seqno = ne_time ?env (tr @ [Drain src oid])" using assms(3,5) by simp_all
  show ?thesis
    using src assms(4)
    by (simp add: execute_def all_phases_def phase_1_new phase_2_after [OF src seqno refl] reply)
qed

theorem deployed_handover_fails_witness:
  "\<exists>nd0. hea_main sample_kafka HEAConfig_default = Inr nd0 \<and>
     fst (execute (with_nodes (\<lambda>_. (stat_node working_thread)\<lparr>sn_engine := nd_engine nd0\<rparr>) [] obliging_env)
       (PCTRMigration_new ''migration-0001'' ''stat-fx'' ''edge-node-1'' ''cloud'', [])) = Returns False"
proof -
  obtain nd0 where nd0: "hea_main sample_kafka HEAConfig_default = Inr nd0"
    by (simp add: hea_main_def bridge_start_def sample_kafka_def Let_def)
  let ?nodes = "\<lambda>_ :: string. (stat_node working_thread)\<lparr>sn_engine := nd_engine nd0\<rparr>"
  have eng: "sn_engine (?nodes ''edge-node-1'') = nd_engine (fold (node_step sample_kafka) [] nd0)" by simp
  have "execute (with_nodes ?nodes [] obliging_env) (PCTRMigration_new ''migration-0001'' ''stat-fx'' ''edge-node-1'' ''cloud'', []) =
    (Returns False,
     (after_drain ''migration-0001'' ''stat-fx'' ''edge-node-1'' ''cloud'' [(0, 42)])\<lparr>mg_phase := PHASE_2_SNAP,
        mg_error := Some (''Snapshot failed: Operator '' @ ''stat-fx'' @ '' not found on this HEA'')\<rparr>,
     [] @ [Drain ''edge-node-1'' ''stat-fx'', Snapshot ''edge-node-1'' ''stat-fx'' 7 (json_of_offsets [(0, 42)])])"
    by (rule deployed_handover_fails [OF nd0 eng]) simp_all
  with nd0 show ?thesis by simp
qed

section \<open>What the decision engine sees\<close>

text \<open>The answer of a node as the collector reads it.\<close>

definition telemetry_message :: "HeaServer.TelemetryResponse \<Rightarrow> Telemetry.TelemetryResponse" where
  "telemetry_message r =
     \<lparr>r_cpu_utilization = tr_cpu_utilization r, r_memory_utilization = tr_memory_utilization r,
      r_ingest_rate_eps = tr_ingest_rate_eps r, r_operator_p95_ms = tr_operator_p95_ms r,
      r_timestamp_ms = tr_timestamp_ms r, r_reachable = tr_reachable r\<rparr>"

text \<open>A turn of the collection asks nodes that were started and have served since, or gets no answer.\<close>

fun asks_deployed :: "kafka_api \<Rightarrow> (string \<Rightarrow> node option) \<Rightarrow> aode_event \<Rightarrow> bool" where
  "asks_deployed kafka nodes (TelemetryTurn rpc clock) =
     (\<forall>ep. case fst (rpc ep) of
        Inl e \<Rightarrow> True
      | Inr r \<Rightarrow> (\<exists>nd evs now. nodes ep = Some nd \<and> list_all (can_happen hea_main_steps) evs \<and>
          r = telemetry_message (GetTelemetry now (nd_engine (fold (serving_step kafka) evs nd)))))"
| "asks_deployed kafka nodes ev = True"

definition idle :: "HEATelemetry \<Rightarrow> bool" where
  "idle t \<longleftrightarrow> cpu_utilization t = 0 \<and> memory_utilization t = 0 \<and> ingest_rate_eps t = 0 \<and> operator_p95_ms t = []"

lemma idle_unreachable: "idle (unreachable_telemetry hid ts)"
  by (simp add: idle_def unreachable_telemetry_def)

lemma idle_initially: "list_all (idle \<circ> snd) (TelemetryCollector_init cfg)"
proof -
  have "list_all (idle \<circ> snd) (foldl (\<lambda>tel ep. register_hea (endpoint_host ep) tel) tel eps)"
    if "list_all (idle \<circ> snd) tel" for tel eps
    using that by (induction eps arbitrary: tel) (simp_all add: register_hea_def idle_unreachable list_all_dict_set)
  then show ?thesis by (simp add: TelemetryCollector_init_def)
qed

lemma idle_collection:
  assumes "\<And>hid. case fst (probe hid) of Inl e \<Rightarrow> True | Inr r \<Rightarrow> idle (collect_one hid (Inr r) 0 0)"
    and "list_all (idle \<circ> snd) tel"
  shows "list_all (idle \<circ> snd) (collect_all probe tel)"
proof -
  have one: "idle (collect_one hid answer lat now)" if "probe hid = (answer, lat, now)" for hid answer lat now
    using assms(1) [of hid] that by (cases answer) (auto simp: collect_one_def idle_unreachable, simp add: idle_def)
  have "list_all (idle \<circ> snd) (foldl (\<lambda>t hid. case probe hid of (answer, lat, now) \<Rightarrow>
      dict_set hid (collect_one hid answer lat now) t) t hids)" if "list_all (idle \<circ> snd) t" for t hids
    using that by (induction hids arbitrary: t) (auto simp: one list_all_dict_set split: prod.split)
  then show ?thesis using assms(2) by (simp add: collect_all_def)
qed

text \<open>The decision engine never learns of any load.  With nodes as they are deployed, whatever their load is and however
  often they are asked, every entry of the collector reports zero utilisation, no ingest and no operator, so no
  operator ever has a latency.\<close>

theorem engine_sees_idle_nodes:
  assumes "aode_start cfg = Inr p" "list_all (asks_deployed kafka nodes) evs"
    and "\<And>ep nd. nodes ep = Some nd \<Longrightarrow> \<exists>config. hea_main kafka config = Inr nd"
  shows "list_all (idle \<circ> snd) (ao_telemetry (ap_engine (aode_run pe evs p))) \<and>
    get_operator_latency (ao_telemetry (ap_engine (aode_run pe evs p))) oid = None"
proof -
  let ?ok = "\<lambda>p. resting (ap_engine p) \<and> list_all (idle \<circ> snd) (ao_telemetry (ap_engine p))"
  have step: "?ok (aode_step pe ev q)" if "?ok q" "asks_deployed kafka nodes ev" for ev q
  proof (cases "\<exists>rpc clock. ev = TelemetryTurn rpc clock")
    case True
    then obtain rpc clock where ev: "ev = TelemetryTurn rpc clock" by blast
    have "idle (collect_one hid (Inr r) 0 0)" if r: "fst (rpc ep) = Inr r" for hid ep r
    proof -
      obtain nd evs now where nd: "nodes ep = Some nd" "list_all (can_happen hea_main_steps) evs"
        "r = telemetry_message (GetTelemetry now (nd_engine (fold (serving_step kafka) evs nd)))"
        using \<open>asks_deployed kafka nodes ev\<close> r unfolding ev asks_deployed.simps by (force dest: spec [of _ ep])
      obtain config where "hea_main kafka config = Inr nd" using assms(3) [OF nd(1)] by blast
      from deployed_reply(2) [OF this nd(2), of now] show ?thesis
        by (simp add: nd(3) telemetry_message_def collect_one_def idle_def)
    qed
    then have "idle (collect_one hid (Inr r) 0 0)" if "rpc ep = (Inr r, lat)" for hid ep r lat
      using that by (metis fst_conv)
    then have "list_all (idle \<circ> snd) (collect_all (ask_node rpc clock q) (ao_telemetry (ap_engine q)))"
      using that(1) by (intro idle_collection) (auto simp: ask_node_def split: option.split prod.split sum.split)
    then show ?thesis using resting_step [of q pe ev] that(1) by (simp add: ev)
  next
    case False
    then show ?thesis using resting_step [of q pe ev] that(1)
      by (cases ev) (auto simp: optimization_turn_def resting_optimization TriggerRecalibration_def UpdateWeights_def Let_def
          split: sum.splits)
  qed
  have "?ok (fold (aode_step pe) evs q)" if "?ok q" for q
    using that assms(2) by (induction evs arbitrary: q) (simp_all add: step)
  moreover have "?ok p"
    using assms(1) idle_initially by (auto simp: aode_start_def start_stop_defs ScoringAlgorithm_init_def resting_def PlacementState_new_def
        PCTROrchestrator_new_def bind_res_eq_Inr)
  ultimately have idle: "list_all (idle \<circ> snd) (ao_telemetry (ap_engine (aode_run pe evs p)))" unfolding aode_run_def by blast
  have "operator_latencies tel oid = []" if "list_all (idle \<circ> snd) tel" for tel
    using that by (induction tel) (auto simp: operator_latencies_def idle_def map_filter_simps)
  with idle show ?thesis by (simp add: get_operator_latency_def)
qed

theorem engine_sees_idle_nodes_witness:
  "\<exists>p. aode_start AODEConfig_default = Inr p \<and>
     get_operator_latency (ao_telemetry (ap_engine (aode_run (shipped_etcd (map_server_api TxBool))
       [TelemetryTurn (\<lambda>ep. (Inl (Exc ''timeout''), 3)) (\<lambda>_. 7), OptimizationTurn 5] p))) ''stat-fx'' = None"
proof -
  obtain p :: "((string, string) dict \<times> nat) aode_process" where p: "aode_start AODEConfig_default = Inr p"
    using default_starts by blast
  have "list_all (asks_deployed sample_kafka (\<lambda>_. None)) [TelemetryTurn (\<lambda>ep. (Inl (Exc ''timeout''), 3)) (\<lambda>_. 7), OptimizationTurn 5]"
    by simp
  from engine_sees_idle_nodes [OF p this, of "shipped_etcd (map_server_api TxBool)" "''stat-fx''"] p show ?thesis by auto
qed

end
