(* ===== verification/Relocation.thy ===== *)
theory Relocation
  imports Snapshot
begin

text \<open>
  Moving an operator through the object store: the snapshot that a node takes, its download, and the restored
  operator, composed of the operators of \<open>workloads\<close>, \<open>common/snapshot.py\<close> and \<open>hea/state/snapshot.py\<close>.
\<close>

section \<open>One move\<close>

text \<open>
  Where a snapshot comes from and goes to.  \<open>tc_op_type\<close> names the schema, \<open>tc_offsets\<close> are the drained offsets.
\<close>

record transfer_config =
  tc_source :: schema_source
  tc_msgpack :: msgpack
  tc_store :: ObjectStore
  tc_operator_id :: string
  tc_op_type :: string
  tc_offsets :: pyval

definition move_operator ::
    "transfer_config \<Rightarrow> ('s \<Rightarrow> py_record) \<Rightarrow> (py_record \<Rightarrow> 's \<Rightarrow> 's res) \<Rightarrow> 's \<Rightarrow> int \<Rightarrow> 's \<Rightarrow>
     SchemaRegistry \<times> (string \<times> string, bytes) dict \<Rightarrow> 's res \<times> SchemaRegistry \<times> (string \<times> string, bytes) dict" where
  "move_operator tc get_state restore fresh seqno s = (\<lambda>(reg, st).
     (case create_migration_snapshot (tc_source tc) (tc_msgpack tc) map_s3 (tc_store tc) (tc_operator_id tc) (tc_op_type tc)
             (get_state s) seqno (tc_offsets tc) reg st of
        (Inl e, reg, st) \<Rightarrow> (Inl e, reg, st)
      | (Inr (key, n), reg, st) \<Rightarrow>
          (case download map_s3 (tc_store tc) key st of
             Inl e \<Rightarrow> (Inl e, reg, st)
           | Inr data \<Rightarrow>
               (case deserialize (tc_source tc) (tc_msgpack tc) data reg of
                  (Inl e, reg) \<Rightarrow> (Inl e, reg, st)
                | (Inr out, reg) \<Rightarrow> (restore out fresh, reg, st)))))"

text \<open>An input in parts, with a move between each two of them, numbered from \<open>seqno\<close>.\<close>

fun run_moving ::
    "transfer_config \<Rightarrow> 's operator_step \<Rightarrow> ('s \<Rightarrow> py_record) \<Rightarrow> (py_record \<Rightarrow> 's \<Rightarrow> 's res) \<Rightarrow> 's \<Rightarrow> int \<Rightarrow>
     stream_input list list \<Rightarrow> 's \<Rightarrow> SchemaRegistry \<times> (string \<times> string, bytes) dict \<Rightarrow> (py_record list res list \<times> 's) res" where
  "run_moving tc step get_state restore fresh seqno [] s env = Inr ([], s)"
| "run_moving tc step get_state restore fresh seqno [xs] s env = Inr (run_operator step xs s)"
| "run_moving tc step get_state restore fresh seqno (xs # ys # parts) s env =
     (case run_operator step xs s of
        (outs, s1) \<Rightarrow>
          (case move_operator tc get_state restore fresh seqno s1 env of
             (Inl e, env) \<Rightarrow> Inl e
           | (Inr s2, env) \<Rightarrow>
               bind_res (run_moving tc step get_state restore fresh (seqno + 1) (ys # parts) s2 env)
                 (\<lambda>(outs', t). Inr (outs @ outs', t))))"

section \<open>When a move loses nothing\<close>

text \<open>The schema of the operator names every field of its state.\<close>

definition complete_schema :: "transfer_config \<Rightarrow> string list \<Rightarrow> SchemaRegistry \<Rightarrow> bool" where
  "complete_schema tc field_names reg \<longleftrightarrow>
     (\<exists>schema reg' names. get_schema (tc_source tc) (tc_op_type tc) 1 reg = (Inr schema, reg') \<and> has_schema schema 1 names \<and>
        ''operator_class'' \<notin> set names \<and> set field_names \<subseteq> set names) \<and> tc_op_type tc \<noteq> []"

lemma complete_schema_again:
  assumes "complete_schema tc field_names reg" "get_schema (tc_source tc) (tc_op_type tc) 1 reg = (Inr schema, reg')"
  shows "complete_schema tc field_names reg'"
  using assms get_schema_again [OF assms(2)] unfolding complete_schema_def by auto

text \<open>A snapshot fails only where the state cannot be packed.\<close>

lemma serialize_cases:
  assumes "get_schema src cls 1 reg = (Inr schema, reg')" "has_schema schema 1 names"
  obtains (packed) data where "serialize src mp cls state reg = (Inr data, reg')"
  | (refused) e d where "serialize src mp cls state reg = (Inl e, reg')" "mp_packb mp d = Inl e"
proof -
  obtain field_defs where f: "py_index schema ''schema_version'' = Inr (PInt 1)" "py_index schema ''fields'' = Inr (PList field_defs)"
    "mapM_res field_name field_defs = Inr names"
    using assms(2) by (auto simp: has_schema_def)
  obtain doc where doc: "fill_document field_defs state [(''schema_version'', PInt 1), (''operator_class'', PStr cls)] = Inr doc"
    using fill_document_get [OF f(3)] by blast
  obtain v where v: "pack_uint16 1 = Inr v" using pack_uint16_range [of 1] by auto
  show ?thesis
  proof (cases "mp_packb mp doc")
    case (Inl e)
    then show ?thesis by (intro refused [of e doc]) (simp_all add: serialize_def assms(1) f doc)
  next
    case (Inr payload)
    then show ?thesis by (intro packed [of "MAGIC @ v @ payload"]) (simp add: serialize_def assms(1) f doc v)
  qed
qed

text \<open>
  An operator whose state is a fixed list of fields, and which is restored from those alone.
\<close>

locale moved_operator = stream_operator step get_state restore fresh good
  for step :: "'s operator_step" and get_state :: "'s \<Rightarrow> py_record" and restore :: "py_record \<Rightarrow> 's \<Rightarrow> 's res"
    and fresh :: 's and good :: "'s \<Rightarrow> bool" +
  fixes field_names :: "string list"
  assumes state_fields: "dict_keys (get_state s) = field_names"
    and no_offsets: "''kafka_offset_map'' \<notin> set field_names"
    and restore_reads: "list_all (\<lambda>k. dict_get out k = dict_get (get_state s) k) field_names \<Longrightarrow>
      restore out fresh = restore (get_state s) fresh"
begin

lemma move_keeps:
  assumes mp: "faithful_msgpack (tc_msgpack tc)" and reg: "complete_schema tc field_names reg" and s: "good s"
  obtains (moved) reg' st' where "move_operator tc get_state restore fresh seqno s (reg, st) = (Inr s, reg', st')"
      "complete_schema tc field_names reg'"
  | (refused) e d env where "move_operator tc get_state restore fresh seqno s (reg, st) = (Inl e, env)"
      "mp_packb (tc_msgpack tc) d = Inl e"
proof -
  obtain schema reg' names where schema: "get_schema (tc_source tc) (tc_op_type tc) 1 reg = (Inr schema, reg')" "has_schema schema 1 names"
    "''operator_class'' \<notin> set names" "tc_op_type tc \<noteq> []" "set field_names \<subseteq> set names"
    using reg unfolding complete_schema_def by blast
  let ?state = "dict_set ''kafka_offset_map'' (tc_offsets tc) (get_state s)"
  consider (packed) data where "serialize (tc_source tc) (tc_msgpack tc) (tc_op_type tc) ?state reg = (Inr data, reg')"
    | (refused) e d where "serialize (tc_source tc) (tc_msgpack tc) (tc_op_type tc) ?state reg = (Inl e, reg')"
      "mp_packb (tc_msgpack tc) d = Inl e"
    by (rule serialize_cases [OF schema(1,2), of "tc_msgpack tc" ?state])
  then show ?thesis
  proof cases
    case (refused e d)
    then show ?thesis
      by (intro that(2) [of e "(reg', st)" d]) (simp_all add: move_operator_def create_migration_snapshot_def Let_def)
  next
    case (packed data)
    let ?key = "snapshot_object_key (tc_operator_id tc) seqno"
    let ?st = "dict_set (os_bucket (tc_store tc), ?key) data st"
    obtain out where out: "deserialize (tc_source tc) (tc_msgpack tc) data reg' = (Inr out, reg')"
      "\<forall>k. dict_get out k = (if k \<in> set names then Some (rec_get ?state k PNone) else None)"
      using serialize_deserialize [OF mp schema(1-4) packed] by blast
    have "dict_get out k = dict_get (get_state s) k" if "k \<in> set field_names" for k
    proof -
      have "k \<noteq> ''kafka_offset_map''" using that no_offsets by blast
      moreover have "dict_get (get_state s) k \<noteq> None"
        using that unfolding state_fields [of s, symmetric] by (simp add: map_of_eq_None_iff)
      ultimately show ?thesis using out(2) schema(5) that by (auto simp: dict_get_default_def dict_simps)
    qed
    then have "restore out fresh = restore (get_state s) fresh" by (intro restore_reads) (simp add: list_all_iff)
    then have "restore out fresh = Inr s" using restore_get [OF s] by simp
    then have "move_operator tc get_state restore fresh seqno s (reg, st) = (Inr s, reg', ?st)"
      using out(1) packed by (simp add: move_operator_def create_migration_snapshot_def upload_def download_def map_s3_def Let_def dict_simps)
    then show ?thesis using complete_schema_again [OF reg schema(1)] by (rule that(1))
  qed
qed

lemma run_moving_good:
  assumes mp: "faithful_msgpack (tc_msgpack tc)" and "complete_schema tc field_names reg" "good s"
  shows "case run_moving tc step get_state restore fresh seqno parts s (reg, st) of
      Inr r \<Rightarrow> r = run_operator step (concat parts) s
    | Inl e \<Rightarrow> \<exists>d. mp_packb (tc_msgpack tc) d = Inl e"
  using assms(2,3)
proof (induction parts arbitrary: seqno s reg st)
  case (Cons xs parts)
  show ?case
  proof (cases parts)
    case Nil
    then show ?thesis by simp
  next
    case parts: (Cons ys rest)
    obtain outs s1 where run: "run_operator step xs s = (outs, s1)" by (rule prod.exhaust)
    have s1: "good s1" using good_run [OF Cons.prems(2), of xs] run by simp
    consider (moved) reg' st' where "move_operator tc get_state restore fresh seqno s1 (reg, st) = (Inr s1, reg', st')"
        "complete_schema tc field_names reg'"
      | (refused) e d env where "move_operator tc get_state restore fresh seqno s1 (reg, st) = (Inl e, env)"
        "mp_packb (tc_msgpack tc) d = Inl e"
      by (rule move_keeps [OF mp Cons.prems(1) s1, of seqno st])
    then show ?thesis
    proof cases
      case (refused e d env)
      then show ?thesis by (auto simp: parts run)
    next
      case (moved reg' st')
      show ?thesis
        using Cons.IH [OF moved(2) s1, of "seqno + 1" st'] moved(1)
        by (cases "run_moving tc step get_state restore fresh (seqno + 1) parts s1 (reg', st')")
          (auto simp: parts run run_operator_append split: prod.splits)
    qed
  qed
qed simp

lemma run_moving_from_start:
  assumes "faithful_msgpack (tc_msgpack tc)" "complete_schema tc field_names reg"
  shows "case run_moving tc step get_state restore fresh seqno parts fresh (reg, st) of
      Inr r \<Rightarrow> r = run_operator step (concat parts) fresh
    | Inl e \<Rightarrow> \<exists>d. mp_packb (tc_msgpack tc) d = Inl e"
  by (rule run_moving_good [OF assms good_fresh])

end

section \<open>The operators\<close>

lemmas restore_simps = dict_get_default_def
  normalizer_restore_state_def normalizer_get_state_def classifier_restore_state_def classifier_get_state_def
  detector_restore_state_def detector_get_state_def pattern_restore_state_def pattern_get_state_def
  risk_restore_state_def risk_get_state_def anomaly_restore_state_def anomaly_get_state_def
  stat_restore_state_def stat_get_state_def compliance_restore_state_def compliance_get_state_def

interpretation moved_normalizer: moved_operator normalizer_process normalizer_get_state normalizer_restore_state
    "Normalizer_new oid zone alpha" "\<lambda>s. nm_operator_id s = oid \<and> nm_zone_id s = zone"
    "dict_keys (normalizer_get_state (Normalizer_new oid zone alpha))" for oid zone alpha
  by unfold_locales (simp_all add: restore_simps)

interpretation moved_classifier: moved_operator classifier_process classifier_get_state classifier_restore_state
    "BinaryClassifier_new oid threshold" "\<lambda>s. bc_operator_id s = oid"
    "dict_keys (classifier_get_state (BinaryClassifier_new oid threshold))" for oid threshold
  by unfold_locales (simp_all add: restore_simps)

interpretation moved_detector: moved_operator detector_process detector_get_state detector_restore_state
    "VehicleDetector_new oid sensor alpha" "detector_good oid sensor"
    "dict_keys (detector_get_state (VehicleDetector_new oid sensor alpha))" for oid sensor alpha
  by unfold_locales (simp_all add: restore_simps)

interpretation moved_pattern: moved_operator pattern_process pattern_get_state pattern_restore_state
    "PatternDetector_new oid threshold" "pattern_good oid"
    "dict_keys (pattern_get_state (PatternDetector_new oid threshold))" for oid threshold
  by unfold_locales (simp_all add: restore_simps)

interpretation moved_risk: moved_operator risk_process risk_get_state risk_restore_state
    "RiskCheck_new oid category" "\<lambda>s. rk_operator_id s = oid"
    "dict_keys (risk_get_state (RiskCheck_new oid category))" for oid category
  by unfold_locales (simp_all add: restore_simps)

interpretation moved_anomaly: moved_operator anomaly_process anomaly_get_state anomaly_restore_state
    "AnomalyDetector_new oid metric alpha z_threshold"
    "\<lambda>s. an_operator_id s = oid \<and> length (an_recent_zscores s) \<le> 100"
    "dict_keys (anomaly_get_state (AnomalyDetector_new oid metric alpha z_threshold))" for oid metric alpha z_threshold
  by unfold_locales (simp_all add: restore_simps)

interpretation moved_stat: moved_operator stat_process stat_get_state stat_restore_state
    "StatAggregator_new oid instrument" "stat_good oid"
    "dict_keys (stat_get_state (StatAggregator_new oid instrument))" for oid instrument
  by unfold_locales (simp_all add: restore_simps)

interpretation moved_compliance: moved_operator compliance_process compliance_get_state compliance_restore_state
    "ComplianceLogger_new oid dm" "\<lambda>s. cl_operator_id s = oid"
    "dict_keys (compliance_get_state (ComplianceLogger_new oid dm))" for oid dm
  by unfold_locales (simp_all add: restore_simps)

section \<open>Moving through the object store\<close>

text \<open>Every move of a run either loses nothing, or the run ends with the error of a state that cannot be packed.\<close>

definition moves_invisibly ::
    "transfer_config \<Rightarrow> 's operator_step \<Rightarrow> ('s \<Rightarrow> py_record) \<Rightarrow> (py_record \<Rightarrow> 's \<Rightarrow> 's res) \<Rightarrow> 's \<Rightarrow> int \<Rightarrow>
     stream_input list list \<Rightarrow> SchemaRegistry \<times> (string \<times> string, bytes) dict \<Rightarrow> bool" where
  "moves_invisibly tc step get_state restore fresh seqno parts env \<longleftrightarrow>
     (case run_moving tc step get_state restore fresh seqno parts fresh env of
        Inr r \<Rightarrow> r = run_operator step (concat parts) fresh
      | Inl e \<Rightarrow> \<exists>d. mp_packb (tc_msgpack tc) d = Inl e)"


text \<open>A risk check under a schema that has its four fields, with a packing of the one document it needs.\<close>

definition risk_document :: py_record where
  "risk_document =
     [(''schema_version'', PInt 1), (''operator_class'', PStr ''RiskCheck''), (''risk_category'', PStr ''credit''), (''limit'', PFloat 5000000),
      (''breach_count'', PInt 0), (''total_checked'', PInt 0)]"

definition risk_names :: "string list" where
  "risk_names = [''risk_category'', ''limit'', ''breach_count'', ''total_checked'']"

definition risk_transfer :: transfer_config where
  "risk_transfer =
     \<lparr>tc_source = \<lparr>sc_file = (\<lambda>path. Some (Inr (schema_document ''RiskCheck'' risk_names))), sc_etcd = (\<lambda>key. None)\<rparr>,
      tc_msgpack = \<lparr>mp_packb = (\<lambda>d. if d = risk_document then Inr [1] else Inl (Exc ''unsupported'')),
                    mp_unpackb = (\<lambda>b. Inr (PDict risk_document))\<rparr>,
      tc_store = sample_store, tc_operator_id = ''risk-credit'', tc_op_type = ''RiskCheck'', tc_offsets = PDict []\<rparr>"


end
