(* ===== verification/Collector.thy ===== *)
theory Collector
  imports Numerics
begin

text \<open>
  The metrics of an experiment run (\<open>experiments/metrics/collector.py\<close>, \<open>storage.py\<close>): six metrics over windows of
  five seconds, and the rows they are stored as.  The monotonic clock is an input; writing and reading the
  files is left out.
\<close>

section \<open>State\<close>

record MetricSnapshot =
  sn_timestamp :: real
  sn_config_id :: string
  sn_repetition :: int
  sn_m1_p95_latency_ms :: "(string, real) dict"
  sn_m2_slo_compliance :: "(string, real) dict"
  sn_m3_throughput_eps :: real
  sn_m4_migration_pause_ms :: real
  sn_m5_aode_overhead_ms :: real
  sn_m6_edge_utilization :: real

record MetricsCollector =
  mc_config_id :: string
  mc_repetition :: int
  mc_warmup_s :: int
  mc_start_time :: real
  mc_snapshots :: "MetricSnapshot list"
  mc_latency_samples :: "(string, real list) dict"
  mc_slo_counters :: "(string, int \<times> int) dict"
  mc_ingest_count :: int
  mc_ingest_window_start :: real
  mc_migration_times :: "real list"
  mc_aode_overhead_samples :: "real list"
  mc_edge_utilizations :: "real list"

definition MetricsCollector_new :: "string \<Rightarrow> int \<Rightarrow> int \<Rightarrow> real \<Rightarrow> MetricsCollector" where
  "MetricsCollector_new config_id repetition warmup_s now =
     \<lparr>mc_config_id = config_id, mc_repetition = repetition, mc_warmup_s = warmup_s, mc_start_time = now, mc_snapshots = [],
      mc_latency_samples = [], mc_slo_counters = [], mc_ingest_count = 0, mc_ingest_window_start = now,
      mc_migration_times = [], mc_aode_overhead_samples = [], mc_edge_utilizations = []\<rparr>"

definition collector_start :: "real \<Rightarrow> MetricsCollector \<Rightarrow> MetricsCollector" where
  "collector_start now c = c\<lparr>mc_start_time := now, mc_ingest_window_start := now\<rparr>"

section \<open>Recording\<close>

definition collect_latency :: "string \<Rightarrow> real \<Rightarrow> real option \<Rightarrow> MetricsCollector \<Rightarrow> MetricsCollector" where
  "collect_latency op_type latency_ms slo_ms c =
     (let c = c\<lparr>mc_latency_samples := dict_set op_type (dict_get_default (mc_latency_samples c) op_type [] @ [latency_ms])
                  (mc_latency_samples c)\<rparr>
      in case slo_ms of
           None \<Rightarrow> c
         | Some slo \<Rightarrow>
             (case dict_get_default (mc_slo_counters c) op_type (0, 0) of
                (compliant, seen) \<Rightarrow>
                  c\<lparr>mc_slo_counters := dict_set op_type (compliant + (if latency_ms \<le> slo then 1 else 0), seen + 1)
                      (mc_slo_counters c)\<rparr>))"

definition collect_ingest :: "int \<Rightarrow> MetricsCollector \<Rightarrow> MetricsCollector" where
  "collect_ingest n_events c = c\<lparr>mc_ingest_count := mc_ingest_count c + n_events\<rparr>"

definition collect_migration :: "real \<Rightarrow> MetricsCollector \<Rightarrow> MetricsCollector" where
  "collect_migration pause_duration_ms c = c\<lparr>mc_migration_times := mc_migration_times c @ [pause_duration_ms]\<rparr>"

definition collect_aode_overhead :: "real \<Rightarrow> MetricsCollector \<Rightarrow> MetricsCollector" where
  "collect_aode_overhead duration_ms c = c\<lparr>mc_aode_overhead_samples := mc_aode_overhead_samples c @ [duration_ms]\<rparr>"

definition collect_edge_utilization :: "real \<Rightarrow> real \<Rightarrow> MetricsCollector \<Rightarrow> MetricsCollector" where
  "collect_edge_utilization cpu_frac mem_frac c = c\<lparr>mc_edge_utilizations := mc_edge_utilizations c @ [max cpu_frac mem_frac]\<rparr>"

section \<open>Snapshots\<close>

definition max_or_zero :: "real list \<Rightarrow> real" where
  "max_or_zero xs = (if xs = [] then 0 else Max (set xs))"

definition mean_or_zero :: "real list \<Rightarrow> real" where
  "mean_or_zero xs = (if xs = [] then 0 else mean_of xs)"

definition slo_fraction :: "int \<times> int \<Rightarrow> real" where
  "slo_fraction = (\<lambda>(compliant, seen). if 0 < seen then of_int compliant / of_int seen else 1)"

definition build_snapshot :: "real \<Rightarrow> MetricsCollector \<Rightarrow> MetricSnapshot \<times> MetricsCollector" where
  "build_snapshot now c =
     (\<lparr>sn_timestamp = now - mc_start_time c, sn_config_id = mc_config_id c, sn_repetition = mc_repetition c,
       sn_m1_p95_latency_ms = map (\<lambda>(t, samples). (t, p95 (deque_of 1000 samples)))
         (filter (\<lambda>(t, samples). samples \<noteq> []) (mc_latency_samples c)),
       sn_m2_slo_compliance = map (\<lambda>(t, counts). (t, slo_fraction counts)) (mc_slo_counters c),
       sn_m3_throughput_eps = of_int (mc_ingest_count c) / max (now - mc_ingest_window_start c) 1,
       sn_m4_migration_pause_ms = max_or_zero (mc_migration_times c),
       sn_m5_aode_overhead_ms = mean_or_zero (mc_aode_overhead_samples c),
       sn_m6_edge_utilization = mean_or_zero (mc_edge_utilizations c)\<rparr>,
      c\<lparr>mc_latency_samples := [], mc_slo_counters := [], mc_ingest_count := 0, mc_ingest_window_start := now,
        mc_migration_times := [], mc_aode_overhead_samples := [], mc_edge_utilizations := []\<rparr>)"

text \<open>One turn of the collection loop.\<close>

definition collect_turn :: "real \<Rightarrow> MetricsCollector \<Rightarrow> MetricsCollector" where
  "collect_turn now c = (case build_snapshot now c of (s, c) \<Rightarrow> c\<lparr>mc_snapshots := mc_snapshots c @ [s]\<rparr>)"

definition get_snapshots :: "bool \<Rightarrow> bool \<Rightarrow> MetricsCollector \<Rightarrow> MetricSnapshot list" where
  "get_snapshots warmup_only post_warmup_only c =
     (let warmup_end = mc_start_time c + of_int (mc_warmup_s c)
      in if warmup_only then filter (\<lambda>s. mc_start_time c + sn_timestamp s < warmup_end) (mc_snapshots c)
         else if post_warmup_only then filter (\<lambda>s. of_int (mc_warmup_s c) \<le> sn_timestamp s) (mc_snapshots c)
         else mc_snapshots c)"

section \<open>Rows\<close>

record result_row =
  rr_timestamp_s :: real
  rr_config_id :: string
  rr_repetition :: int
  rr_operator_type :: string
  rr_m1 :: "real option"
  rr_m2 :: "real option"
  rr_m3 :: real
  rr_m4 :: real
  rr_m5 :: real
  rr_m6 :: real

definition row_of :: "MetricSnapshot \<Rightarrow> string \<Rightarrow> real option \<Rightarrow> real option \<Rightarrow> result_row" where
  "row_of s op_type m1 m2 =
     \<lparr>rr_timestamp_s = sn_timestamp s, rr_config_id = sn_config_id s, rr_repetition = sn_repetition s,
      rr_operator_type = op_type, rr_m1 = m1, rr_m2 = m2, rr_m3 = sn_m3_throughput_eps s,
      rr_m4 = sn_m4_migration_pause_ms s, rr_m5 = sn_m5_aode_overhead_ms s, rr_m6 = sn_m6_edge_utilization s\<rparr>"

text \<open>The operator types of a snapshot are iterated as a set; \<open>order\<close> is the order in which that happens.\<close>

definition snapshot_rows :: "(string set \<Rightarrow> string list) \<Rightarrow> MetricSnapshot \<Rightarrow> result_row list" where
  "snapshot_rows order s =
     (let all_op_types = set (dict_keys (sn_m1_p95_latency_ms s)) \<union> set (dict_keys (sn_m2_slo_compliance s))
      in if all_op_types = {} then [row_of s ''_global'' None None]
         else map (\<lambda>t. row_of s t (dict_get (sn_m1_p95_latency_ms s) t) (dict_get (sn_m2_slo_compliance s) t)) (order all_op_types))"

definition save_snapshots :: "(string set \<Rightarrow> string list) \<Rightarrow> MetricSnapshot list \<Rightarrow> result_row list option" where
  "save_snapshots order snaps = (if snaps = [] then None else Some (concat (map (snapshot_rows order) snaps)))"

text \<open>\<open>str.split("-", n=2)\<close> of pandas: at most three parts.\<close>

fun split_at_most :: "nat \<Rightarrow> string \<Rightarrow> string list" where
  "split_at_most 0 s = [s]"
| "split_at_most (Suc n) s =
     (case dropWhile (\<lambda>c. c \<noteq> CHR ''-'') s of
        [] \<Rightarrow> [s]
      | _ # rest \<Rightarrow> takeWhile (\<lambda>c. c \<noteq> CHR ''-'') s # split_at_most n rest)"

text \<open>
  The rows of all files together, with the parts of the configuration; rows before 120 seconds are dropped.
  A missing part is not a value in the column.
\<close>

definition load_all_results :: "result_row list list \<Rightarrow> (result_row \<times> string option \<times> string option \<times> string option) list res" where
  "load_all_results files =
     (if files = [] then Inl (Exc ''No results found'')
      else
        (let combined = concat files;
             parts = (\<lambda>r. split_at_most 2 (rr_config_id r));
             part = (\<lambda>r i. if i < length (parts r) then Some (parts r ! i) else None)
         in if list_all (\<lambda>r. length (parts r) < 3) combined
            then Inl (ValueError (''config_id must have format '' @ [CHR 39] @ ''workload-system-network'' @ [CHR 39]))
            else Inr (map (\<lambda>r. (r, part r 0, part r 1, part r 2)) (filter (\<lambda>r. 120 \<le> rr_timestamp_s r) combined))))"

section \<open>What a window holds\<close>

datatype collect_event =
    Latency string real "real option"
  | Ingest int
  | MigrationPause real
  | Overhead real
  | EdgeUtilization real real

fun collect :: "collect_event \<Rightarrow> MetricsCollector \<Rightarrow> MetricsCollector" where
  "collect (Latency t x slo) c = collect_latency t x slo c"
| "collect (Ingest n) c = collect_ingest n c"
| "collect (MigrationPause x) c = collect_migration x c"
| "collect (Overhead x) c = collect_aode_overhead x c"
| "collect (EdgeUtilization cpu mem) c = collect_edge_utilization cpu mem c"

text \<open>The latencies of a type in a window, those that had an objective with it, and the other samples.\<close>

fun latency_in :: "string \<Rightarrow> collect_event \<Rightarrow> real list" where
  "latency_in t (Latency t' x slo) = (if t' = t then [x] else [])"
| "latency_in t _ = []"

fun judged_in :: "string \<Rightarrow> collect_event \<Rightarrow> (real \<times> real) list" where
  "judged_in t (Latency t' x (Some slo)) = (if t' = t then [(x, slo)] else [])"
| "judged_in t _ = []"

fun ingest_in :: "collect_event \<Rightarrow> int" where
  "ingest_in (Ingest n) = n"
| "ingest_in _ = 0"

fun pause_in :: "collect_event \<Rightarrow> real list" where
  "pause_in (MigrationPause x) = [x]"
| "pause_in _ = []"

fun overhead_in :: "collect_event \<Rightarrow> real list" where
  "overhead_in (Overhead x) = [x]"
| "overhead_in _ = []"

fun utilization_in :: "collect_event \<Rightarrow> real list" where
  "utilization_in (EdgeUtilization cpu mem) = [max cpu mem]"
| "utilization_in _ = []"

abbreviation latencies_in :: "string \<Rightarrow> collect_event list \<Rightarrow> real list" where
  "latencies_in t evs \<equiv> concat (map (latency_in t) evs)"

abbreviation judged :: "string \<Rightarrow> collect_event list \<Rightarrow> (real \<times> real) list" where
  "judged t evs \<equiv> concat (map (judged_in t) evs)"

definition met :: "(real \<times> real) list \<Rightarrow> nat" where
  "met js = length (filter (\<lambda>(x, slo). x \<le> slo) js)"

text \<open>A collector that holds exactly the events of a window that began at a time.\<close>

definition holds :: "collect_event list \<Rightarrow> real \<Rightarrow> MetricsCollector \<Rightarrow> bool" where
  "holds evs since c \<longleftrightarrow>
     wf_dict (mc_latency_samples c) \<and> wf_dict (mc_slo_counters c) \<and>
     (\<forall>t. dict_get (mc_latency_samples c) t = (if latencies_in t evs = [] then None else Some (latencies_in t evs))) \<and>
     (\<forall>t. dict_get (mc_slo_counters c) t =
       (if judged t evs = [] then None else Some (int (met (judged t evs)), int (length (judged t evs))))) \<and>
     mc_ingest_count c = sum_list (map ingest_in evs) \<and> mc_ingest_window_start c = since \<and>
     mc_migration_times c = concat (map pause_in evs) \<and> mc_aode_overhead_samples c = concat (map overhead_in evs) \<and>
     mc_edge_utilizations c = concat (map utilization_in evs)"

lemma holds_Nil: "holds [] since (snd (build_snapshot since c))"
  by (simp add: holds_def build_snapshot_def)

lemma holds_collect:
  assumes "holds evs since c"
  shows "holds (evs @ [ev]) since (collect ev c)"
proof (cases ev)
  case (Latency t x slo)
  have old: "dict_get_default (mc_latency_samples c) t [] = latencies_in t evs"
    using assms by (simp add: holds_def dict_get_default_def)
  show ?thesis
  proof (cases slo)
    case None
    then show ?thesis using assms old by (auto simp: Latency holds_def collect_latency_def Let_def dict_simps)
  next
    case (Some v)
    have "dict_get_default (mc_slo_counters c) t (0, 0) = (int (met (judged t evs)), int (length (judged t evs)))"
      using assms by (simp add: holds_def dict_get_default_def met_def)
    then show ?thesis using assms old Some
      by (auto simp: Latency holds_def collect_latency_def Let_def dict_simps met_def)
  qed
qed (use assms in \<open>simp_all add: holds_def collect_ingest_def collect_migration_def collect_aode_overhead_def collect_edge_utilization_def\<close>)

lemma holds_run: "holds evs since c \<Longrightarrow> holds (evs @ evs') since (fold collect evs' c)"
proof (induction evs' arbitrary: evs c)
  case (Cons ev evs')
  show ?case using Cons.IH [OF holds_collect [OF Cons.prems, of ev]] by simp
qed simp

lemma map_of_mapped: "map_of (map (\<lambda>(k, v). (k, f v)) d) k = map_option f (map_of d k)"
  by (induction d) auto

lemma map_of_kept:
  assumes "wf_dict d"
  shows "map_of (filter (\<lambda>(k, v). P v) d) k = (case map_of d k of None \<Rightarrow> None | Some v \<Rightarrow> if P v then Some v else None)"
  using assms
proof (induction d)
  case (Cons p d)
  obtain k' v where p: "p = (k', v)" by (rule prod.exhaust)
  have "map_of d k' = None" "wf_dict d" using Cons.prems by (simp_all add: p wf_dict_def map_of_eq_None_iff)
  then show ?case using Cons.IH by (cases "k = k'"; cases "map_of d k") (auto simp: p)
qed simp

text \<open>C33: A snapshot is exactly its window.  It gives for every operator type the 95th percentile of the last thousand
  latencies and the share of those with an objective that met it, the events per second over the length of the
  window (a second at least), the longest migration pause, and the mean overhead and edge utilization, all over
  what was recorded since the previous snapshot and nothing else; a type without samples has no entry.\<close>

theorem snapshot_is_window:
  assumes "c0 = collect_turn t0 c" "s = fst (build_snapshot now (fold collect evs c0))"
  shows "dict_get (sn_m1_p95_latency_ms s) t =
      (if latencies_in t evs = [] then None else Some (p95 (deque_of 1000 (latencies_in t evs)))) \<and>
    dict_get (sn_m2_slo_compliance s) t =
      (if judged t evs = [] then None else Some (of_nat (met (judged t evs)) / of_nat (length (judged t evs)))) \<and>
    sn_m3_throughput_eps s = of_int (sum_list (map ingest_in evs)) / max (now - t0) 1 \<and>
    sn_m4_migration_pause_ms s = max_or_zero (concat (map pause_in evs)) \<and>
    sn_m5_aode_overhead_ms s = mean_or_zero (concat (map overhead_in evs)) \<and>
    sn_m6_edge_utilization s = mean_or_zero (concat (map utilization_in evs))"
proof -
  have "holds [] t0 c0"
    using holds_Nil [of t0 c] by (simp add: assms(1) collect_turn_def holds_def split_def)
  then have h: "holds evs t0 (fold collect evs c0)" using holds_run [of "[]" t0 c0 evs] by simp
  have "wf_dict (mc_latency_samples (fold collect evs c0))" using h by (simp add: holds_def)
  note kept = map_of_kept [OF this, of "\<lambda>samples. samples \<noteq> []"]
  show ?thesis
    unfolding assms(2) build_snapshot_def fst_conv MetricSnapshot.simps map_of_mapped kept
    using h by (simp add: holds_def slo_fraction_def)
qed

theorem snapshot_is_window_witness:
  "sn_m4_migration_pause_ms (fst (build_snapshot 10 (fold collect [MigrationPause 7, Ingest 5, MigrationPause 3]
     (collect_turn 5 (MetricsCollector_new ''W1-B1-N1'' 1 600 0))))) = 7"
  using snapshot_is_window [OF refl refl, where evs = "[MigrationPause 7, Ingest 5, MigrationPause 3]" and now = 10 and c = "MetricsCollector_new ''W1-B1-N1'' 1 600 0"]
  by (simp add: max_or_zero_def)

end
