(* ===== verification/Harness.thy ===== *)
theory Harness
  imports Pyval Collector "HOL-Library.Product_Lexorder" "HOL-Library.Char_ord" "HOL-Library.List_Lexorder" "HOL-Library.Sublist"
begin

text \<open>
  The experiment harness (\<open>experiments/harness\<close>: \<open>config.py\<close>, \<open>network.py\<close>, \<open>baselines.py\<close>, \<open>runner.py\<close>): the matrix of
  configurations, the commands that shape the network, and the order in which the runs are made.  What a
  command answers, and the runs themselves, are inputs.
\<close>

section \<open>Configurations\<close>

record NetworkProfile =
  np_name :: string
  np_rtt_ms :: int
  np_bandwidth_mbps :: int
  np_jitter_ms :: int

definition tc_netem_args :: "NetworkProfile \<Rightarrow> string \<Rightarrow> string" where
  "tc_netem_args p interface =
     (let delay_ms = np_rtt_ms p div 2
      in ''tc qdisc add dev '' @ interface @ '' root netem delay '' @ show_int delay_ms @ ''ms '' @
         show_int (np_jitter_ms p) @ ''ms rate '' @ show_int (np_bandwidth_mbps p) @ ''mbit'')"

definition tc_netem_clear :: "NetworkProfile \<Rightarrow> string \<Rightarrow> string" where
  "tc_netem_clear p interface = ''tc qdisc del dev '' @ interface @ '' root''"

definition NETWORK_PROFILES :: "(string, NetworkProfile) dict" where
  "NETWORK_PROFILES =
     [(''N1'', \<lparr>np_name = ''N1'', np_rtt_ms = 10, np_bandwidth_mbps = 1000, np_jitter_ms = 1\<rparr>),
      (''N2'', \<lparr>np_name = ''N2'', np_rtt_ms = 50, np_bandwidth_mbps = 100, np_jitter_ms = 5\<rparr>),
      (''N3'', \<lparr>np_name = ''N3'', np_rtt_ms = 150, np_bandwidth_mbps = 50, np_jitter_ms = 15\<rparr>)]"

record WorkloadConfig =
  wc_name :: string
  wc_ingest_rate_eps :: int
  wc_slo_ms :: real
  wc_duration_s :: int
  wc_warmup_s :: int
  wc_generator_module :: string

definition WORKLOAD_CONFIGS :: "(string, WorkloadConfig) dict" where
  "WORKLOAD_CONFIGS =
     [(''W1'', \<lparr>wc_name = ''W1'', wc_ingest_rate_eps = 2000000, wc_slo_ms = 5, wc_duration_s = 3600, wc_warmup_s = 600,
         wc_generator_module = ''generators.w1_generator''\<rparr>),
      (''W2'', \<lparr>wc_name = ''W2'', wc_ingest_rate_eps = 50000, wc_slo_ms = 2000, wc_duration_s = 3600, wc_warmup_s = 600,
         wc_generator_module = ''generators.w2_generator''\<rparr>),
      (''W3'', \<lparr>wc_name = ''W3'', wc_ingest_rate_eps = 500000, wc_slo_ms = 1, wc_duration_s = 3600, wc_warmup_s = 600,
         wc_generator_module = ''generators.w3_generator''\<rparr>)]"

record ExperimentConfig =
  ex_workload :: string
  ex_system :: string
  ex_network :: string
  ex_repetitions :: nat

definition config_id :: "ExperimentConfig \<Rightarrow> string" where
  "config_id c = ex_workload c @ ''-'' @ ex_system c @ ''-'' @ ex_network c"

definition build_experiment_matrix :: "ExperimentConfig list" where
  "build_experiment_matrix =
     concat (map (\<lambda>w. concat (map (\<lambda>s. map (\<lambda>n.
       \<lparr>ex_workload = w, ex_system = s, ex_network = n, ex_repetitions = 10\<rparr>)
       [''N1'', ''N2'', ''N3'']) [''HybridStream'', ''B1'', ''B2''])) [''W1'', ''W2'', ''W3''])"

section \<open>Baselines\<close>

record B1Config =
  b1_flink_master :: string
  b1_task_managers :: int
  b1_slots_per_tm :: int
  b1_jvm_heap_gb :: int
  b1_rocksdb_checkpoint :: string

definition B1Config_default :: B1Config where
  "B1Config_default =
     \<lparr>b1_flink_master = ''flink-master:8081'', b1_task_managers = 4, b1_slots_per_tm = 2, b1_jvm_heap_gb = 6,
      b1_rocksdb_checkpoint = ''s3://hybridstream-checkpoints/b1''\<rparr>"

record B2Config =
  b2_static_placement :: "(string, string) dict"
  b2_edge_nodes :: "string list"
  b2_cloud_endpoint :: string

definition B2_PLACEMENTS :: "(string \<times> string, (string, string) dict) dict" where
  "B2_PLACEMENTS =
     [((''W1'', ''N1''), [(''NormalizerOperator'', ''edge-node-1''), (''FeatureAggWindow'', ''edge-node-2''), (''MultiStreamJoin'', ''edge-node-3''), (''BinaryClassifier'', ''edge-node-4'')]),
      ((''W1'', ''N2''), [(''NormalizerOperator'', ''edge-node-1''), (''FeatureAggWindow'', ''edge-node-2''), (''MultiStreamJoin'', ''cloud''), (''BinaryClassifier'', ''cloud'')]),
      ((''W1'', ''N3''), [(''NormalizerOperator'', ''edge-node-1''), (''FeatureAggWindow'', ''edge-node-2''), (''MultiStreamJoin'', ''edge-node-3''), (''BinaryClassifier'', ''edge-node-4'')]),
      ((''W2'', ''N1''), [(''VehicleDetector'', ''edge-node-1''), (''ZoneAggregator'', ''edge-node-2''), (''PatternDetector'', ''cloud'')]),
      ((''W2'', ''N2''), [(''VehicleDetector'', ''edge-node-1''), (''ZoneAggregator'', ''edge-node-2''), (''PatternDetector'', ''cloud'')]),
      ((''W2'', ''N3''), [(''VehicleDetector'', ''edge-node-1''), (''ZoneAggregator'', ''edge-node-3''), (''PatternDetector'', ''edge-node-4'')]),
      ((''W3'', ''N1''), [(''RiskCheck'', ''cloud''), (''AnomalyDetector'', ''edge-node-1''), (''StatAggregator'', ''edge-node-2''), (''ComplianceLogger'', ''edge-node-3'')]),
      ((''W3'', ''N2''), [(''RiskCheck'', ''cloud''), (''AnomalyDetector'', ''cloud''), (''StatAggregator'', ''edge-node-1''), (''ComplianceLogger'', ''edge-node-2'')]),
      ((''W3'', ''N3''), [(''RiskCheck'', ''edge-node-1''), (''AnomalyDetector'', ''edge-node-2''), (''StatAggregator'', ''edge-node-3''), (''ComplianceLogger'', ''edge-node-4'')])]"

definition setup_baseline_b2 :: "string \<Rightarrow> string \<Rightarrow> B2Config res" where
  "setup_baseline_b2 workload network =
     (case dict_get B2_PLACEMENTS (workload, network) of
        Some (p # ps) \<Rightarrow>
          Inr \<lparr>b2_static_placement = p # ps, b2_edge_nodes = [''edge-node-1'', ''edge-node-2'', ''edge-node-3'', ''edge-node-4''],
               b2_cloud_endpoint = ''cloud:9092''\<rparr>
      | _ \<Rightarrow> Inl (ValueError (''No B2 static placement defined for ('' @ [CHR 39] @ workload @ [CHR 39] @ '', '' @
                [CHR 39] @ network @ [CHR 39] @ '')'')))"

section \<open>What the runner does\<close>

text \<open>
  The actions of the runner in order are its state.  A command is answered by its exit code and its two
  outputs, which may depend on everything done before.
\<close>

datatype runner_action =
    Command string
  | SetUp string string
  | CollectorStart
  | GeneratorStart string int
  | GeneratorCancel
  | CollectorStop
  | Save string nat "result_row list option"
  | Teardown string
  | Sleep int

type_synonym shell = "runner_action list \<Rightarrow> string \<Rightarrow> int \<times> string \<times> string"

section \<open>Shaping the network\<close>

definition run_cmd :: "shell \<Rightarrow> string \<Rightarrow> bool \<Rightarrow> runner_action list \<Rightarrow> string res \<times> runner_action list" where
  "run_cmd sh cmd ignore_errors acts =
     (case sh acts cmd of
        (returncode, stdout, stderr) \<Rightarrow>
          (if returncode \<noteq> 0 \<and> \<not> ignore_errors then Inl (RuntimeError (''Command failed ['' @ cmd @ '']: '' @ stderr))
           else Inr stdout, acts @ [Command cmd]))"

definition EDGE_CLOUD_INTERFACE :: string where
  "EDGE_CLOUD_INTERFACE = ''eth0''"

definition apply_network_profile :: "shell \<Rightarrow> NetworkProfile \<Rightarrow> string \<Rightarrow> runner_action list \<Rightarrow> unit res \<times> runner_action list" where
  "apply_network_profile sh profile interface acts =
     (case run_cmd sh (tc_netem_clear profile interface) True acts of
        (Inl e, acts) \<Rightarrow> (Inl e, acts)
      | (Inr _, acts) \<Rightarrow>
          (case run_cmd sh (tc_netem_args profile interface) False acts of
             (Inl e, acts) \<Rightarrow> (Inl e, acts)
           | (Inr _, acts) \<Rightarrow> (Inr (), acts)))"

text \<open>Any failure is logged and dropped.\<close>

definition clear_network_profile :: "string \<Rightarrow> runner_action list \<Rightarrow> runner_action list" where
  "clear_network_profile interface acts = acts @ [Command (''tc qdisc del dev '' @ interface @ '' root'')]"

fun contains :: "string \<Rightarrow> string \<Rightarrow> bool" where
  "contains pat [] = (pat = [])"
| "contains pat (c # s) = (take (length pat) (c # s) = pat \<or> contains pat s)"

text \<open>
  The first line that speaks of round trips and has five parts decides; a part that is not a number raises,
  which \<open>validate_rtt\<close> answers with false as it does a failing command.  A program's output is split at newlines.
\<close>

fun rtt_line :: "int \<Rightarrow> int \<Rightarrow> string list \<Rightarrow> bool res" where
  "rtt_line expected tolerance [] = Inr False"
| "rtt_line expected tolerance (line # rest) =
     (let parts = py_split (CHR ''/'') line
      in if (contains ''avg'' line \<or> contains ''rtt'' line) \<and> 5 \<le> length parts
         then (case float_of_string (parts ! 4) of
                 Inl e \<Rightarrow> Inl e
               | Inr avg_rtt \<Rightarrow> Inr (\<bar>avg_rtt - of_int expected\<bar> \<le> of_int tolerance))
         else rtt_line expected tolerance rest)"

definition validate_rtt :: "shell \<Rightarrow> string \<Rightarrow> int \<Rightarrow> int \<Rightarrow> runner_action list \<Rightarrow> bool \<times> runner_action list" where
  "validate_rtt sh target_host expected_rtt_ms tolerance_ms acts =
     (case run_cmd sh (''ping -c 10 -q '' @ target_host) False acts of
        (Inl e, acts) \<Rightarrow> (False, acts)
      | (Inr result, acts) \<Rightarrow>
          (case rtt_line expected_rtt_ms tolerance_ms (py_split (CHR 0x0A) result) of
             Inl e \<Rightarrow> (False, acts)
           | Inr ok \<Rightarrow> (ok, acts)))"

section \<open>Runner\<close>

text \<open>
  What the runner cannot decide: the shell, the times at which the collector of a run is created, is started and
  takes its snapshots, the order in which a set of operator types is listed, and whether a file can be written.
  The generator is a task of its own that writes to Kafka; what becomes of it the runner never asks.
\<close>

record run_env =
  en_shell :: shell
  en_clock :: "string \<Rightarrow> nat \<Rightarrow> real \<times> real \<times> real list"
  en_order :: "string set \<Rightarrow> string list"
  en_write :: "string \<Rightarrow> nat \<Rightarrow> result_row list \<Rightarrow> unit res"

text \<open>\<open>setup_baseline_b1\<close> only logs.\<close>

definition setup_system :: "ExperimentConfig \<Rightarrow> unit res" where
  "setup_system config =
     (if ex_system config = ''B1'' then Inr ()
      else if ex_system config = ''B2''
      then (case setup_baseline_b2 (ex_workload config) (ex_network config) of Inl e \<Rightarrow> Inl e | Inr _ \<Rightarrow> Inr ())
      else Inr ())"

text \<open>The collector of a run: its loop takes the snapshots, and no code reports anything to it.\<close>

definition run_collector :: "run_env \<Rightarrow> string \<Rightarrow> nat \<Rightarrow> int \<Rightarrow> MetricsCollector" where
  "run_collector env cid rep warmup_s =
     (case en_clock env cid rep of
        (created, started, turns) \<Rightarrow>
          fold collect_turn turns (collector_start started (MetricsCollector_new cid (int rep) warmup_s created)))"

definition run_single :: "run_env \<Rightarrow> ExperimentConfig \<Rightarrow> nat \<Rightarrow> runner_action list \<Rightarrow> unit res \<times> runner_action list" where
  "run_single env config repetition acts =
     (case dict_get WORKLOAD_CONFIGS (ex_workload config) of
        None \<Rightarrow> (Inl (KeyError (ex_workload config)), acts)
      | Some wl_config \<Rightarrow>
          (let cid = config_id config;
               acts = acts @ [SetUp (ex_system config) cid]
           in case setup_system config of
                Inl e \<Rightarrow> (Inl e, acts @ [Teardown cid])
              | Inr _ \<Rightarrow>
                  (let acts = acts @ [Sleep 30, CollectorStart, GeneratorStart (ex_workload config) (wc_ingest_rate_eps wl_config),
                                      Sleep (wc_warmup_s wl_config + wc_duration_s wl_config), GeneratorCancel, CollectorStop];
                       snapshots = get_snapshots False True (run_collector env cid repetition (wc_warmup_s wl_config));
                       saved = save_snapshots (en_order env) snapshots;
                       acts = acts @ [Save cid repetition saved]
                   in case saved of
                        None \<Rightarrow> (Inr (), acts @ [Teardown cid])
                      | Some rows \<Rightarrow> (en_write env cid repetition rows, acts @ [Teardown cid]))))"

text \<open>\<open>sorted\<close> with a key is stable.\<close>

definition sorted_configs :: "ExperimentConfig list \<Rightarrow> ExperimentConfig list" where
  "sorted_configs = sort_key (\<lambda>c. (ex_network c, ex_workload c, ex_system c))"

fun run_repetitions ::
    "bool \<Rightarrow> run_env \<Rightarrow> ExperimentConfig \<Rightarrow> nat list \<Rightarrow> runner_action list \<Rightarrow> unit res \<times> runner_action list" where
  "run_repetitions dry_run env config [] acts = (Inr (), acts)"
| "run_repetitions dry_run env config (rep # reps) acts =
     (if dry_run then run_repetitions dry_run env config reps acts
      else (case run_single env config rep acts of
              (Inl e, acts) \<Rightarrow> (Inl e, acts)
            | (Inr _, acts) \<Rightarrow> run_repetitions dry_run env config reps (acts @ [Sleep 60])))"

fun run_configs ::
    "bool \<Rightarrow> run_env \<Rightarrow> string option \<Rightarrow> ExperimentConfig list \<Rightarrow> runner_action list \<Rightarrow> unit res \<times> runner_action list" where
  "run_configs dry_run env current_network [] acts = (Inr (), acts)"
| "run_configs dry_run env current_network (config # configs) acts =
     (case (if current_network = Some (ex_network config) then (Inr (), acts)
            else (case dict_get NETWORK_PROFILES (ex_network config) of
                    None \<Rightarrow> (Inl (KeyError (ex_network config)), acts)
                  | Some profile \<Rightarrow>
                      if dry_run then (Inr (), acts)
                      else apply_network_profile (en_shell env) profile EDGE_CLOUD_INTERFACE acts)) of
        (Inl e, acts) \<Rightarrow> (Inl e, acts)
      | (Inr _, acts) \<Rightarrow>
          (case run_repetitions dry_run env config [1..<11] acts of
             (Inl e, acts) \<Rightarrow> (Inl e, acts)
           | (Inr _, acts) \<Rightarrow> run_configs dry_run env (Some (ex_network config)) configs acts))"

definition run_all :: "bool \<Rightarrow> run_env \<Rightarrow> unit res \<times> runner_action list" where
  "run_all dry_run env = run_configs dry_run env None (sorted_configs build_experiment_matrix) []"

section \<open>The order of the runs\<close>

text \<open>The configurations of a network in the order in which they are run.\<close>

definition configs_of :: "string \<Rightarrow> ExperimentConfig list" where
  "configs_of n =
     map (\<lambda>(w, s). \<lparr>ex_workload = w, ex_system = s, ex_network = n, ex_repetitions = 10\<rparr>)
       [(''W1'', ''B1''), (''W1'', ''B2''), (''W1'', ''HybridStream''), (''W2'', ''B1''), (''W2'', ''B2''), (''W2'', ''HybridStream''),
        (''W3'', ''B1''), (''W3'', ''B2''), (''W3'', ''HybridStream'')]"

lemma sorted_matrix: "sorted_configs build_experiment_matrix = configs_of ''N1'' @ configs_of ''N2'' @ configs_of ''N3''"
  by code_simp

text \<open>The runs of which results are saved, and those the plan has.\<close>

fun saved_run :: "runner_action \<Rightarrow> (string \<times> nat) list" where
  "saved_run (Save cid rep rows) = [(cid, rep)]"
| "saved_run _ = []"

abbreviation saved_runs :: "runner_action list \<Rightarrow> (string \<times> nat) list" where
  "saved_runs acts \<equiv> concat (map saved_run acts)"

definition planned :: "ExperimentConfig list \<Rightarrow> (string \<times> nat) list" where
  "planned cs = concat (map (\<lambda>c. map (Pair (config_id c)) [1..<11]) cs)"

lemma planned_simps [simp]: "planned [] = []" "planned (c # cs) = map (Pair (config_id c)) [1..<11] @ planned cs"
  by (simp_all add: planned_def del: upt_rec_numeral)

lemma length_planned: "length (planned cs) = 10 * length cs"
  by (induction cs) simp_all

lemma distinct_planned: "distinct (map config_id cs) \<Longrightarrow> distinct (planned cs)"
  by (induction cs) (auto simp: planned_def distinct_map inj_on_def simp del: upt_rec_numeral)

text \<open>Every system set up is torn down before the next one.\<close>

fun balanced :: "string option \<Rightarrow> runner_action list \<Rightarrow> bool" where
  "balanced up [] = (up = None)"
| "balanced up (SetUp system cid # acts) = (up = None \<and> balanced (Some cid) acts)"
| "balanced up (Teardown cid # acts) = (up = Some cid \<and> balanced None acts)"
| "balanced up (_ # acts) = balanced up acts"

lemma balanced_append: "balanced up acts \<Longrightarrow> balanced up (acts @ acts') = balanced None acts'"
  by (induction up acts rule: balanced.induct) auto

definition outcome_ok :: "bool \<Rightarrow> (string \<times> nat) list \<Rightarrow> runner_action list \<Rightarrow> unit res \<times> runner_action list \<Rightarrow> bool" where
  "outcome_ok dry_run plan acts r \<longleftrightarrow>
     (\<exists>new. snd r = acts @ new \<and> balanced None new \<and> prefix (saved_runs new) (if dry_run then [] else plan) \<and>
       (isl (fst r) \<or> saved_runs new = (if dry_run then [] else plan)))"

lemma outcome_okI:
  "snd r = acts @ new \<Longrightarrow> balanced None new \<Longrightarrow> prefix (saved_runs new) (if dry_run then [] else plan) \<Longrightarrow>
   isl (fst r) \<or> saved_runs new = (if dry_run then [] else plan) \<Longrightarrow> outcome_ok dry_run plan acts r"
  unfolding outcome_ok_def by blast

lemma outcome_ok_Inl: "outcome_ok dry_run plan acts (Inl e, acts)"
  by (rule outcome_okI [where new = "[]"]) simp_all

lemma outcome_ok_Nil: "outcome_ok dry_run [] acts (Inr (), acts)"
  by (rule outcome_okI [where new = "[]"]) simp_all

text \<open>What is done after a success continues the plan, and a failure ends it.\<close>

lemma outcome_ok_seq:
  assumes "outcome_ok dry_run plan acts r" "\<And>acts. outcome_ok dry_run plan' acts (f acts)"
  shows "outcome_ok dry_run (plan @ plan') acts (case r of (Inl e, acts) \<Rightarrow> (Inl e, acts) | (Inr _, acts) \<Rightarrow> f acts)"
proof -
  obtain res acts1 where r: "r = (res, acts1)" by (rule prod.exhaust)
  obtain new where "acts1 = acts @ new" "balanced None new" "prefix (saved_runs new) (if dry_run then [] else plan)"
      "isl res \<or> saved_runs new = (if dry_run then [] else plan)"
    using assms(1) unfolding outcome_ok_def r by auto
  note new = this
  show ?thesis
  proof (cases res)
    case (Inl e)
    show ?thesis unfolding r Inl prod.case sum.case
      by (rule outcome_okI [where new = new]) (use new in \<open>auto simp: prefix_def\<close>)
  next
    case (Inr u)
    obtain new' where "snd (f acts1) = acts1 @ new'" "balanced None new'"
        "prefix (saved_runs new') (if dry_run then [] else plan')" "isl (fst (f acts1)) \<or> saved_runs new' = (if dry_run then [] else plan')"
      using assms(2) [of acts1] unfolding outcome_ok_def by auto
    note new' = this
    show ?thesis unfolding r Inr prod.case sum.case
      by (rule outcome_okI [where new = "new @ new'"]) (use new new' Inr in \<open>auto simp: balanced_append prefix_def\<close>)
  qed
qed

lemma outcome_ok_profile: "outcome_ok dry_run [] acts (apply_network_profile sh p interface acts)"
proof -
  let ?clear = "Command (tc_netem_clear p interface)" and ?add = "Command (tc_netem_args p interface)"
  have "\<exists>res. apply_network_profile sh p interface acts = (res, acts @ [?clear, ?add])"
    by (auto simp: apply_network_profile_def run_cmd_def split: prod.splits)
  then obtain res where res: "apply_network_profile sh p interface acts = (res, acts @ [?clear, ?add])" by blast
  show ?thesis unfolding res by (rule outcome_okI [where new = "[?clear, ?add]"]) simp_all
qed

text \<open>What a run does: nothing for an unknown workload, set up and tear down, or the whole run.\<close>

lemma run_single_cases:
  obtains (no_workload) e where "run_single env c rep acts = (Inl e, acts)"
  | (refused) e where "run_single env c rep acts = (Inl e, acts @ [SetUp (ex_system c) (config_id c), Teardown (config_id c)])"
  | (whole) res rate time rows where "run_single env c rep acts =
      (res, acts @ [SetUp (ex_system c) (config_id c), Sleep 30, CollectorStart, GeneratorStart (ex_workload c) rate, Sleep time,
        GeneratorCancel, CollectorStop, Save (config_id c) rep rows, Teardown (config_id c)])"
      "\<exists>wl. dict_get WORKLOAD_CONFIGS (ex_workload c) = Some wl \<and>
         rows = save_snapshots (en_order env) (get_snapshots False True (run_collector env (config_id c) rep (wc_warmup_s wl)))"
proof (cases "dict_get WORKLOAD_CONFIGS (ex_workload c)")
  case None
  show ?thesis by (rule no_workload) (simp add: run_single_def None)
next
  case (Some wl)
  show ?thesis
  proof (cases "setup_system c")
    case (Inl e)
    show ?thesis by (rule refused) (simp add: run_single_def Some Inl Let_def)
  next
    case (Inr u)
    let ?saved = "save_snapshots (en_order env) (get_snapshots False True (run_collector env (config_id c) rep (wc_warmup_s wl)))"
    have "run_single env c rep acts =
        (case ?saved of None \<Rightarrow> Inr () | Some rows \<Rightarrow> en_write env (config_id c) rep rows,
         acts @ [SetUp (ex_system c) (config_id c), Sleep 30, CollectorStart,
           GeneratorStart (ex_workload c) (wc_ingest_rate_eps wl), Sleep (wc_warmup_s wl + wc_duration_s wl), GeneratorCancel,
           CollectorStop, Save (config_id c) rep ?saved, Teardown (config_id c)])"
      unfolding run_single_def Some Inr Let_def option.case sum.case by (cases ?saved) simp_all
    then show ?thesis by (rule whole) (use Some in blast)
  qed
qed

lemma outcome_ok_single: "outcome_ok False [(config_id c, rep)] acts (run_single env c rep acts)"
  by (cases rule: run_single_cases [of env c rep acts]) (auto intro: outcome_okI)

lemma outcome_ok_repetitions: "outcome_ok dry (map (Pair (config_id c)) reps) acts (run_repetitions dry env c reps acts)"
proof (induction reps arbitrary: acts)
  case Nil
  show ?case using outcome_ok_Nil by simp
next
  case (Cons rep reps)
  show ?case
  proof (cases dry)
    case True
    show ?thesis using Cons.IH [of acts] unfolding outcome_ok_def run_repetitions.simps by (simp add: True)
  next
    case False
    have sleep: "outcome_ok False (map (Pair (config_id c)) reps) acts (run_repetitions False env c reps (acts @ [Sleep 60]))" for acts
    proof -
      obtain new where "snd (run_repetitions False env c reps (acts @ [Sleep 60])) = (acts @ [Sleep 60]) @ new" "balanced None new"
          "prefix (saved_runs new) (map (Pair (config_id c)) reps)"
          "isl (fst (run_repetitions False env c reps (acts @ [Sleep 60]))) \<or> saved_runs new = map (Pair (config_id c)) reps"
        using Cons.IH [of "acts @ [Sleep 60]"] False unfolding outcome_ok_def by auto
      note new = this
      show ?thesis by (rule outcome_okI [where new = "Sleep 60 # new"]) (use new in simp_all)
    qed
    show ?thesis
      using outcome_ok_seq [OF outcome_ok_single sleep, where c2 = c] by (simp add: False)
  qed
qed

lemma outcome_ok_configs: "outcome_ok dry (planned cs) acts (run_configs dry env current cs acts)"
proof (induction cs arbitrary: current acts)
  case Nil
  show ?case using outcome_ok_Nil by simp
next
  case (Cons c cs)
  let ?profile = "\<lambda>acts. if current = Some (ex_network c) then (Inr (), acts)
    else (case dict_get NETWORK_PROFILES (ex_network c) of
            None \<Rightarrow> (Inl (KeyError (ex_network c)), acts)
          | Some profile \<Rightarrow>
              if dry then (Inr (), acts) else apply_network_profile (en_shell env) profile EDGE_CLOUD_INTERFACE acts)"
  have "outcome_ok dry [] acts (?profile acts)" for acts
    by (simp add: outcome_ok_Nil outcome_ok_profile outcome_ok_Inl split: option.split)
  note profile = this
  have "outcome_ok dry (planned (c # cs)) acts
      (case run_repetitions dry env c [1..<11] acts of
         (Inl e, acts) \<Rightarrow> (Inl e, acts)
       | (Inr _, acts) \<Rightarrow> run_configs dry env (Some (ex_network c)) cs acts)" for acts
    unfolding planned_simps by (rule outcome_ok_seq [OF outcome_ok_repetitions Cons.IH])
  from outcome_ok_seq [OF profile this] show ?case unfolding run_configs.simps by simp
qed

text \<open>The last command that was run, and for each saved result the last command before it.\<close>

fun last_command :: "string option \<Rightarrow> runner_action list \<Rightarrow> string option" where
  "last_command cmd [] = cmd"
| "last_command cmd (Command c # acts) = last_command (Some c) acts"
| "last_command cmd (_ # acts) = last_command cmd acts"

fun saved_under :: "string option \<Rightarrow> runner_action list \<Rightarrow> (string \<times> string option) list" where
  "saved_under cmd [] = []"
| "saved_under cmd (Command c # acts) = saved_under (Some c) acts"
| "saved_under cmd (Save cid rep rows # acts) = (cid, cmd) # saved_under cmd acts"
| "saved_under cmd (_ # acts) = saved_under cmd acts"

lemma last_command_append [simp]: "last_command cmd (acts @ acts') = last_command (last_command cmd acts) acts'"
  by (induction cmd acts rule: last_command.induct) simp_all

lemma saved_under_append [simp]:
  "saved_under cmd (acts @ acts') = saved_under cmd acts @ saved_under (last_command cmd acts) acts'"
  by (induction cmd acts rule: saved_under.induct) simp_all

text \<open>The command that shapes a network, and the network that a configuration's identifier names.\<close>

definition shaping :: "string \<Rightarrow> string option" where
  "shaping n = map_option (\<lambda>p. tc_netem_args p EDGE_CLOUD_INTERFACE) (dict_get NETWORK_PROFILES n)"

definition network_of :: "string \<Rightarrow> string" where
  "network_of cid = last (py_split (CHR ''-'') cid)"

definition on_network :: "string \<times> string option \<Rightarrow> bool" where
  "on_network = (\<lambda>(cid, cmd). cmd = shaping (network_of cid))"

definition shaped :: "string option \<Rightarrow> string option \<Rightarrow> runner_action list \<Rightarrow> unit res \<times> runner_action list \<Rightarrow> bool" where
  "shaped cmd cmd' acts r \<longleftrightarrow>
     (\<exists>new. snd r = acts @ new \<and> list_all on_network (saved_under cmd new) \<and> (isl (fst r) \<or> last_command cmd new = cmd'))"

lemma shapedI:
  "snd r = acts @ new \<Longrightarrow> list_all on_network (saved_under cmd new) \<Longrightarrow> isl (fst r) \<or> last_command cmd new = cmd' \<Longrightarrow>
   shaped cmd cmd' acts r"
  unfolding shaped_def by blast

lemma shaped_Nil: "shaped cmd cmd acts (Inr (), acts)" "shaped cmd cmd' acts (Inl e, acts)"
  by (rule shapedI [where new = "[]"]; simp)+

lemma shaped_seq:
  assumes "shaped cmd cmd' acts r" "\<And>acts. shaped cmd' cmd'' acts (f acts)"
  shows "shaped cmd cmd'' acts (case r of (Inl e, acts) \<Rightarrow> (Inl e, acts) | (Inr _, acts) \<Rightarrow> f acts)"
proof -
  obtain res acts1 where r: "r = (res, acts1)" by (rule prod.exhaust)
  obtain new where "acts1 = acts @ new" "list_all on_network (saved_under cmd new)" "isl res \<or> last_command cmd new = cmd'"
    using assms(1) unfolding shaped_def r by auto
  note new = this
  show ?thesis
  proof (cases res)
    case (Inl e)
    show ?thesis unfolding r Inl prod.case sum.case by (rule shapedI [where new = new]) (use new in simp_all)
  next
    case (Inr u)
    obtain new' where "snd (f acts1) = acts1 @ new'" "list_all on_network (saved_under cmd' new')"
        "isl (fst (f acts1)) \<or> last_command cmd' new' = cmd''"
      using assms(2) [of acts1] unfolding shaped_def by auto
    then show ?thesis unfolding r Inr prod.case sum.case
      by - (rule shapedI [where new = "new @ new'"], use new Inr in auto)
  qed
qed

lemma shaped_profile:
  "shaped cmd (Some (tc_netem_args p interface)) acts (apply_network_profile sh p interface acts)"
proof -
  let ?clear = "Command (tc_netem_clear p interface)" and ?add = "Command (tc_netem_args p interface)"
  have "\<exists>res. apply_network_profile sh p interface acts = (res, acts @ [?clear, ?add])"
    by (auto simp: apply_network_profile_def run_cmd_def split: prod.splits)
  then obtain res where res: "apply_network_profile sh p interface acts = (res, acts @ [?clear, ?add])" by blast
  show ?thesis unfolding res by (rule shapedI [where new = "[?clear, ?add]"]) simp_all
qed

lemma shaped_single: "on_network (config_id c, cmd) \<Longrightarrow> shaped cmd cmd acts (run_single env c rep acts)"
  by (cases rule: run_single_cases [of env c rep acts]) (auto intro: shapedI)

lemma shaped_sleep: "shaped cmd cmd acts (Inr (), acts @ [Sleep n])"
  by (rule shapedI [where new = "[Sleep n]"]) simp_all

lemma shaped_repetitions:
  assumes "on_network (config_id c, cmd)"
  shows "shaped cmd cmd acts (run_repetitions False env c reps acts)"
proof (induction reps arbitrary: acts)
  case (Cons rep reps)
  have "shaped cmd cmd acts (run_repetitions False env c reps (acts @ [Sleep 60]))" for acts
    using shaped_seq [OF shaped_sleep, where f = "run_repetitions False env c reps"] Cons.IH by simp
  then show ?case using shaped_seq [OF shaped_single [OF assms]] by simp
qed (simp add: shaped_Nil)

lemma shaped_configs:
  assumes "list_all (\<lambda>c. network_of (config_id c) = ex_network c) cs" "current = None \<or> cmd = shaping (the current)"
  shows "shaped cmd (if cs = [] then cmd else shaping (ex_network (last cs))) acts (run_configs False env current cs acts)"
  using assms
proof (induction cs arbitrary: current cmd acts)
  case Nil
  show ?case using shaped_Nil(1) by simp
next
  case (Cons c cs)
  let ?n = "ex_network c"
  let ?profile = "\<lambda>acts. if current = Some ?n then (Inr (), acts)
    else (case dict_get NETWORK_PROFILES ?n of
            None \<Rightarrow> (Inl (KeyError ?n), acts)
          | Some profile \<Rightarrow>
              if False then (Inr (), acts) else apply_network_profile (en_shell env) profile EDGE_CLOUD_INTERFACE acts)"
  have "shaped cmd (shaping ?n) acts (?profile acts)" for acts
  proof (cases "current = Some ?n")
    case True
    then show ?thesis using Cons.prems(2) shaped_Nil(1) by simp
  next
    case False
    show ?thesis
    proof (cases "dict_get NETWORK_PROFILES ?n")
      case (Some p)
      then show ?thesis using shaped_profile False by (simp add: shaping_def)
    qed (simp add: False shaped_Nil)
  qed
  note profile = this
  have on: "on_network (config_id c, shaping ?n)" using Cons.prems(1) by (simp add: on_network_def)
  have rest: "shaped (shaping ?n) (if cs = [] then shaping ?n else shaping (ex_network (last cs))) acts
      (run_configs False env (Some ?n) cs acts)" for acts
    by (rule Cons.IH) (use Cons.prems(1) in simp_all)
  have "shaped (shaping ?n) (if cs = [] then shaping ?n else shaping (ex_network (last cs))) acts
      (case run_repetitions False env c [1..<11] acts of
         (Inl e, acts) \<Rightarrow> (Inl e, acts)
       | (Inr _, acts) \<Rightarrow> run_configs False env (Some ?n) cs acts)" for acts
    by (rule shaped_seq [OF shaped_repetitions [OF on] rest])
  note reps = this
  have last: "(if c # cs = [] then cmd else shaping (ex_network (last (c # cs)))) =
      (if cs = [] then shaping ?n else shaping (ex_network (last cs)))" by simp
  show ?case unfolding last run_configs.simps by (rule shaped_seq [OF profile reps])
qed

lemma saved_on_network: "list_all on_network (saved_under None (snd (run_all False env)))"
proof -
  have "list_all (\<lambda>c. network_of (config_id c) = ex_network c) (configs_of ''N1'' @ configs_of ''N2'' @ configs_of ''N3'')"
    by code_simp
  from shaped_configs [OF this, of None None "[]" env]
  show ?thesis unfolding run_all_def sorted_matrix shaped_def by auto
qed


section \<open>What the experiment measures\<close>

text \<open>A collector to which nothing was reported.\<close>

definition quiet_snapshot :: "string \<Rightarrow> MetricSnapshot \<Rightarrow> bool" where
  "quiet_snapshot cid s \<longleftrightarrow>
     sn_config_id s = cid \<and> sn_m1_p95_latency_ms s = [] \<and> sn_m2_slo_compliance s = [] \<and> sn_m3_throughput_eps s = 0 \<and>
     sn_m4_migration_pause_ms s = 0 \<and> sn_m5_aode_overhead_ms s = 0 \<and> sn_m6_edge_utilization s = 0"

definition quiet :: "string \<Rightarrow> MetricsCollector \<Rightarrow> bool" where
  "quiet cid c \<longleftrightarrow>
     mc_config_id c = cid \<and> mc_latency_samples c = [] \<and> mc_slo_counters c = [] \<and> mc_ingest_count c = 0 \<and>
     mc_migration_times c = [] \<and> mc_aode_overhead_samples c = [] \<and> mc_edge_utilizations c = [] \<and>
     list_all (quiet_snapshot cid) (mc_snapshots c)"

lemma quiet_turn: "quiet cid c \<Longrightarrow> quiet cid (collect_turn now c)"
  by (simp add: quiet_def quiet_snapshot_def collect_turn_def build_snapshot_def max_or_zero_def mean_or_zero_def)

lemma quiet_turns: "quiet cid c \<Longrightarrow> quiet cid (fold collect_turn turns c) \<and> mc_warmup_s (fold collect_turn turns c) = mc_warmup_s c"
  by (induction turns arbitrary: c) (simp_all add: quiet_turn, simp add: collect_turn_def build_snapshot_def)

lemma quiet_run: "quiet cid (run_collector env cid rep w) \<and> mc_warmup_s (run_collector env cid rep w) = w"
proof -
  obtain created started turns where clock: "en_clock env cid rep = (created, started, turns)" by (rule prod_cases3)
  have "quiet cid (collector_start started (MetricsCollector_new cid (int rep) w created))"
    by (simp add: quiet_def collector_start_def MetricsCollector_new_def)
  from quiet_turns [OF this, of turns] show ?thesis
    by (simp add: run_collector_def clock collector_start_def MetricsCollector_new_def)
qed

text \<open>A row without a measurement, of after the warm-up.\<close>

definition empty_row :: "string \<Rightarrow> result_row \<Rightarrow> bool" where
  "empty_row cid r \<longleftrightarrow>
     rr_config_id r = cid \<and> 600 \<le> rr_timestamp_s r \<and> rr_operator_type r = ''_global'' \<and> rr_m1 r = None \<and> rr_m2 r = None \<and>
     rr_m3 r = 0 \<and> rr_m4 r = 0 \<and> rr_m5 r = 0 \<and> rr_m6 r = 0"

lemma quiet_rows:
  assumes "list_all (\<lambda>s. quiet_snapshot cid s \<and> 600 \<le> sn_timestamp s) snaps"
  shows "list_all (empty_row cid) (concat (map (snapshot_rows order) snaps))"
  using assms by (induction snaps) (auto simp: quiet_snapshot_def empty_row_def snapshot_rows_def row_of_def)

fun empty_save :: "runner_action \<Rightarrow> bool" where
  "empty_save (Save cid rep (Some rows)) = list_all (empty_row cid) rows"
| "empty_save _ = True"

lemma empty_save_run:
  assumes "dict_get WORKLOAD_CONFIGS w = Some wl"
  shows "empty_save (Save cid rep (save_snapshots order (get_snapshots False True (run_collector env cid rep (wc_warmup_s wl)))))"
proof -
  let ?c = "run_collector env cid rep (wc_warmup_s wl)"
  have "wc_warmup_s wl = 600" using assms by (auto simp: WORKLOAD_CONFIGS_def split: if_splits)
  moreover have "list_all (quiet_snapshot cid) (mc_snapshots ?c)" "mc_warmup_s ?c = wc_warmup_s wl"
    using quiet_run unfolding quiet_def by auto
  ultimately have "list_all (\<lambda>s. quiet_snapshot cid s \<and> 600 \<le> sn_timestamp s) (get_snapshots False True ?c)"
    by (simp add: get_snapshots_def Let_def list_all_iff)
  note rows = quiet_rows [OF this, of order]
  show ?thesis by (cases "get_snapshots False True ?c = []") (simp_all add: save_snapshots_def rows)
qed

lemma empty_save_single: "list_all empty_save acts \<Longrightarrow> list_all empty_save (snd (run_single env c rep acts))"
proof (cases rule: run_single_cases [of env c rep acts])
  case (whole res rate time rows)
  then show "list_all empty_save acts \<Longrightarrow> ?thesis" using empty_save_run by auto
qed simp_all

lemma list_all_seq:
  assumes "list_all P (snd r)" "\<And>acts. list_all P acts \<Longrightarrow> list_all P (snd (f acts))"
  shows "list_all P (snd (case r of (Inl e, acts) \<Rightarrow> (Inl e, acts) | (Inr _, acts) \<Rightarrow> f acts))"
  using assms by (auto split: prod.split sum.split)

lemma empty_save_repetitions:
  "list_all empty_save acts \<Longrightarrow> list_all empty_save (snd (run_repetitions dry env c reps acts))"
proof (induction reps arbitrary: acts)
  case (Cons rep reps)
  have "list_all empty_save (snd (case run_single env c rep acts of (Inl e, acts) \<Rightarrow> (Inl e, acts)
      | (Inr _, acts) \<Rightarrow> run_repetitions dry env c reps (acts @ [Sleep 60])))"
    by (rule list_all_seq [OF empty_save_single [OF Cons.prems]]) (rule Cons.IH, simp)
  then show ?case using Cons.IH [OF Cons.prems] unfolding run_repetitions.simps by (split if_split) blast
qed simp

lemma empty_save_profile:
  "list_all empty_save acts \<Longrightarrow> list_all empty_save (snd (apply_network_profile sh p interface acts))"
  by (auto simp: apply_network_profile_def run_cmd_def split: prod.splits)

lemma empty_save_configs: "list_all empty_save acts \<Longrightarrow> list_all empty_save (snd (run_configs dry env current cs acts))"
proof (induction cs arbitrary: current acts)
  case (Cons c cs)
  let ?profile = "if current = Some (ex_network c) then (Inr (), acts)
    else (case dict_get NETWORK_PROFILES (ex_network c) of
            None \<Rightarrow> (Inl (KeyError (ex_network c)), acts)
          | Some profile \<Rightarrow>
              if dry then (Inr (), acts) else apply_network_profile (en_shell env) profile EDGE_CLOUD_INTERFACE acts)"
  have "list_all empty_save (snd ?profile)" using Cons.prems by (simp add: empty_save_profile split: option.split)
  then show ?case unfolding run_configs.simps
    by (rule list_all_seq) (rule list_all_seq [OF empty_save_repetitions], assumption, rule Cons.IH, assumption)
qed simp

text \<open>C35: No result of the experiment holds a measurement.  Nothing reports to the collector of a run, so whatever the
  generators, the network and the systems do, every row that is saved is the row for all operators, with neither
  latency nor compliance and with zero throughput, pause, overhead and utilization.\<close>

theorem experiment_measures_nothing:
  "list_all empty_save (snd (run_all dry_run env))"
  unfolding run_all_def by (rule empty_save_configs) simp

section \<open>Reading the results back\<close>

definition labelled :: "result_row \<Rightarrow> ExperimentConfig \<Rightarrow> result_row \<times> string option \<times> string option \<times> string option" where
  "labelled r c = (r, Some (ex_workload c), Some (ex_system c), Some (ex_network c))"

lemma matrix_ids: "c \<in> set build_experiment_matrix \<Longrightarrow> split_at_most 2 (config_id c) = [ex_workload c, ex_system c, ex_network c]"
proof -
  have "list_all (\<lambda>c. split_at_most 2 (config_id c) = [ex_workload c, ex_system c, ex_network c]) build_experiment_matrix"
    by code_simp
  then show "c \<in> set build_experiment_matrix \<Longrightarrow> ?thesis" by (simp add: list_all_iff)
qed

text \<open>Reading the results of the experiment's configurations back gives every row from the 120th second on, in order,
  labelled with the workload, the system and the network of its configuration.\<close>

theorem results_read_back:
  assumes "rows \<noteq> []" "list_all (\<lambda>(r, c). c \<in> set build_experiment_matrix \<and> rr_config_id r = config_id c) rows"
    "concat files = map fst rows"
  shows "load_all_results files =
    Inr (map (\<lambda>(r, c). labelled r c) (filter (\<lambda>(r, c). 120 \<le> rr_timestamp_s r) rows))"
proof -
  have parts: "split_at_most 2 (rr_config_id r) = [ex_workload c, ex_system c, ex_network c]" if "(r, c) \<in> set rows" for r c
    using assms(2) that matrix_ids by (auto simp: list_all_iff)
  obtain r c where rc: "(r, c) \<in> set rows" using assms(1) by (cases rows) auto
  then have "r \<in> set (concat files)" unfolding assms(3) by force
  then have "\<not> list_all (\<lambda>r. length (split_at_most 2 (rr_config_id r)) < 3) (concat files)" "files \<noteq> []"
    using parts [OF rc] by (auto simp: list_all_iff intro!: bexI [of _ r])
  note ne = this
  let ?part = "\<lambda>r i. if i < length (split_at_most 2 (rr_config_id r)) then Some (split_at_most 2 (rr_config_id r) ! i) else None"
  have "map (\<lambda>r. (r, ?part r 0, ?part r 1, ?part r 2)) (filter (\<lambda>r. 120 \<le> rr_timestamp_s r) (map fst rs)) =
      map (\<lambda>(r, c). labelled r c) (filter (\<lambda>(r, c). 120 \<le> rr_timestamp_s r) rs)" if "set rs \<subseteq> set rows" for rs
    using that by (induction rs) (auto simp: parts labelled_def)
  from this [OF subset_refl] show ?thesis
    unfolding load_all_results_def Let_def using ne assms(3) by simp
qed

theorem results_read_back_witness:
  "\<exists>row c. rr_timestamp_s row = 605 \<and> load_all_results [[row]] = Inr [labelled row c] \<and> config_id c = ''W2-B1-N3''"
proof -
  let ?row = "\<lparr>rr_timestamp_s = 605, rr_config_id = ''W2-B1-N3'', rr_repetition = 1, rr_operator_type = ''_global'', rr_m1 = None,
    rr_m2 = None, rr_m3 = 0, rr_m4 = 0, rr_m5 = 0, rr_m6 = 0\<rparr>"
  let ?c = "\<lparr>ex_workload = ''W2'', ex_system = ''B1'', ex_network = ''N3'', ex_repetitions = 10\<rparr>"
  have "?c \<in> set build_experiment_matrix" by (simp add: build_experiment_matrix_def)
  then have "load_all_results [[?row]] = Inr [labelled ?row ?c]"
    using results_read_back [of "[(?row, ?c)]" "[[?row]]"] by (simp add: config_id_def)
  then show ?thesis by (intro exI [of _ ?row] exI [of _ ?c]) (simp add: config_id_def)
qed

end
