(* ===== verification/Stats.thy ===== *)
theory Stats
  imports Collector
begin

text \<open>
  The statistics of the experiment (\<open>experiments/analysis/stats.py\<close>): paired comparisons with a corrected level, an
  effect size and a bootstrap interval, over all workloads, networks and baselines; and the summary of the
  migration pauses.  What \<open>numpy\<close>, \<open>scipy\<close> and \<open>pandas\<close> compute is a parameter.
\<close>

section \<open>The libraries\<close>

text \<open>
  \<open>np.median\<close>, \<open>np.percentile\<close>, the random generator with its seed and its choice with replacement,
  \<open>scipy.stats.wilcoxon\<close> with its statistic and its p-value, \<open>Series.median\<close> and \<open>Series.quantile\<close>, and the means
  of a column per repetition, in the order of the repetitions.
\<close>

record 'g libs =
  np_median :: "real list \<Rightarrow> real"
  np_percentile :: "real list \<Rightarrow> real \<Rightarrow> real"
  default_rng :: "int \<Rightarrow> 'g"
  rng_choice :: "'g \<Rightarrow> real list \<Rightarrow> nat \<Rightarrow> real list \<times> 'g"
  sc_wilcoxon :: "real list \<Rightarrow> real list \<Rightarrow> real \<times> real"
  pd_median :: "real list \<Rightarrow> real"
  pd_quantile :: "real list \<Rightarrow> real \<Rightarrow> real"
  group_means :: "(int \<times> real option) list \<Rightarrow> real list"

section \<open>A comparison\<close>

record ComparisonResult =
  cr_metric :: string
  cr_group_a_label :: string
  cr_group_b_label :: string
  cr_n_a :: nat
  cr_n_b :: nat
  cr_median_a :: real
  cr_median_b :: real
  cr_median_diff :: real
  cr_wilcoxon_stat :: real
  cr_wilcoxon_p :: real
  cr_bonferroni_p :: real
  cr_significant :: bool
  cr_effect_size_r :: real
  cr_effect_magnitude :: string
  cr_bootstrap_ci_lo :: real
  cr_bootstrap_ci_hi :: real

fun boot_medians :: "'g libs \<Rightarrow> real list \<Rightarrow> nat \<Rightarrow> nat \<Rightarrow> 'g \<Rightarrow> real list" where
  "boot_medians np ds n 0 rng = []"
| "boot_medians np ds n (Suc k) rng =
     (case rng_choice np rng ds n of (xs, rng) \<Rightarrow> np_median np xs # boot_medians np ds n k rng)"

definition effect_size :: "real \<Rightarrow> nat \<Rightarrow> real" where
  "effect_size stat n =
     (let n_pairs = of_nat n * (of_nat n + 1) / 2;
          r = (if 0 < n_pairs then 1 - 2 * stat / n_pairs else 0)
      in max (- 1) (min 1 r))"

definition magnitude_of :: "real \<Rightarrow> string" where
  "magnitude_of r =
     (let abs_r = \<bar>r\<bar> in if abs_r < 3/10 then ''small'' else if abs_r < 5/10 then ''medium'' else ''large'')"

text \<open>\<open>n_bootstrap\<close> and \<open>alpha\<close> have their defaults at every call, 9999 and 0.05.\<close>

definition wilcoxon_comparison ::
    "'g libs \<Rightarrow> nat \<Rightarrow> real \<Rightarrow> real list \<Rightarrow> real list \<Rightarrow> string \<Rightarrow> string \<Rightarrow> string \<Rightarrow> nat \<Rightarrow> ComparisonResult res" where
  "wilcoxon_comparison np n_bootstrap alpha group_a group_b metric label_a label_b n_comparisons =
     (if length group_a \<noteq> length group_b then Inl (Exc ''Groups must be matched'')
      else
        (let n = length group_a;
             ds = map2 (-) group_a group_b
         in if list_all (\<lambda>d. d = 0) ds
            then Inr \<lparr>cr_metric = metric, cr_group_a_label = label_a, cr_group_b_label = label_b, cr_n_a = n, cr_n_b = n,
                     cr_median_a = np_median np group_a, cr_median_b = np_median np group_b, cr_median_diff = 0,
                     cr_wilcoxon_stat = 0, cr_wilcoxon_p = 1, cr_bonferroni_p = 1, cr_significant = False,
                     cr_effect_size_r = 0, cr_effect_magnitude = ''small'', cr_bootstrap_ci_lo = 0, cr_bootstrap_ci_hi = 0\<rparr>
            else (case sc_wilcoxon np group_a group_b of
                    (stat, p_value) \<Rightarrow>
                      (let p_bonferroni = min (p_value * of_nat n_comparisons) 1;
                           r = effect_size stat n;
                           medians = boot_medians np ds n n_bootstrap (default_rng np 42)
                       in Inr \<lparr>cr_metric = metric, cr_group_a_label = label_a, cr_group_b_label = label_b, cr_n_a = n, cr_n_b = n,
                               cr_median_a = np_median np group_a, cr_median_b = np_median np group_b,
                               cr_median_diff = np_median np group_a - np_median np group_b,
                               cr_wilcoxon_stat = stat, cr_wilcoxon_p = p_value, cr_bonferroni_p = p_bonferroni,
                               cr_significant = (p_bonferroni < alpha), cr_effect_size_r = r, cr_effect_magnitude = magnitude_of r,
                               cr_bootstrap_ci_lo = np_percentile np medians (5/2),
                               cr_bootstrap_ci_hi = np_percentile np medians (195/2)\<rparr>))))"

section \<open>All comparisons\<close>

type_synonym labelled_row = "result_row \<times> string option \<times> string option \<times> string option"

definition metric_column :: "string \<Rightarrow> result_row \<Rightarrow> real option" where
  "metric_column metric r =
     (if metric = ''m1_p95_latency_ms'' then rr_m1 r
      else if metric = ''m2_slo_compliance'' then rr_m2 r
      else Some (rr_m3 r))"

definition get_reps :: "'g libs \<Rightarrow> labelled_row list \<Rightarrow> string \<Rightarrow> string \<Rightarrow> string \<Rightarrow> string \<Rightarrow> real list" where
  "get_reps np df workload network system metric =
     group_means np (map (\<lambda>(r, _). (rr_repetition r, metric_column metric r))
       (filter (\<lambda>(r, w, s, n). w = Some workload \<and> n = Some network \<and> s = Some system) df))"

definition compare_metric ::
    "'g libs \<Rightarrow> labelled_row list \<Rightarrow> string \<Rightarrow> string \<Rightarrow> string \<Rightarrow> ComparisonResult list \<Rightarrow> ComparisonResult list res" where
  "compare_metric np df workload network metric results =
     (let hs = get_reps np df workload network ''HybridStream'' metric;
          b1 = get_reps np df workload network ''B1'' metric;
          b2 = get_reps np df workload network ''B2'' metric;
          n_total = 54
      in if length hs = length b1 \<and> length b1 = length b2 \<and> length b2 = 10
         then
           (let pre = workload @ ''/'' @ network
            in case wilcoxon_comparison np 9999 (5/100) hs b1 metric (pre @ ''/HybridStream'') (pre @ ''/B1'') n_total of
                 Inl e \<Rightarrow> Inl e
               | Inr c1 \<Rightarrow>
                   (case wilcoxon_comparison np 9999 (5/100) hs b2 metric (pre @ ''/HybridStream'') (pre @ ''/B2'') n_total of
                      Inl e \<Rightarrow> Inl e
                    | Inr c2 \<Rightarrow> Inr (results @ [c1, c2])))
         else Inr results)"

fun compare_cells ::
    "'g libs \<Rightarrow> labelled_row list \<Rightarrow> (string \<times> string \<times> string) list \<Rightarrow> ComparisonResult list \<Rightarrow> ComparisonResult list res" where
  "compare_cells np df [] results = Inr results"
| "compare_cells np df ((w, n, m) # cells) results =
     (case compare_metric np df w n m results of
        Inl e \<Rightarrow> Inl e
      | Inr results \<Rightarrow> compare_cells np df cells results)"

text \<open>The three nested loops, in their order.\<close>

definition comparison_cells :: "(string \<times> string \<times> string) list" where
  "comparison_cells =
     concat (map (\<lambda>w. concat (map (\<lambda>n. map (\<lambda>m. (w, n, m))
       [''m1_p95_latency_ms'', ''m2_slo_compliance'', ''m3_throughput_eps'']) [''N1'', ''N2'', ''N3''])) [''W1'', ''W2'', ''W3''])"

definition run_all_pairwise_comparisons :: "'g libs \<Rightarrow> labelled_row list \<Rightarrow> ComparisonResult list res" where
  "run_all_pairwise_comparisons np df = compare_cells np df comparison_cells []"

section \<open>Migration pauses\<close>

definition summarize_m4_migration_pauses :: "'g libs \<Rightarrow> labelled_row list \<Rightarrow> (string \<times> real option) list" where
  "summarize_m4_migration_pauses np df =
     (let pauses = filter (\<lambda>x. 0 < x) (map (\<lambda>(r, _). rr_m4 r) df);
          if_any = (\<lambda>x. if pauses \<noteq> [] then Some x else None)
      in [(''count'', Some (of_nat (length pauses))), (''min_ms'', if_any (Min (set pauses))),
          (''median_ms'', if_any (pd_median np pauses)), (''p95_ms'', if_any (pd_quantile np pauses (95/100))),
          (''max_ms'', if_any (Max (set pauses))), (''mean_ms'', if_any (mean_of pauses))])"

section \<open>What the results say\<close>

lemma wilcoxon_comparison_ok:
  assumes "length a = length b"
  shows "\<exists>c. wilcoxon_comparison np nb alpha a b m la lb k = Inr c"
  unfolding wilcoxon_comparison_def Let_def using assms by (cases "sc_wilcoxon np a b") simp

lemma wilcoxon_comparison_fields:
  assumes "wilcoxon_comparison np nb alpha a b m la lb k = Inr c"
  shows "cr_metric c = m" "cr_group_a_label c = la" "cr_group_b_label c = lb"
    "cr_bonferroni_p c = (if a = b then 1 else min (snd (sc_wilcoxon np a b) * of_nat k) 1)"
    "cr_significant c \<longleftrightarrow> a \<noteq> b \<and> cr_bonferroni_p c < alpha"
    "cr_effect_size_r c = (if a = b then 0 else effect_size (fst (sc_wilcoxon np a b)) (length a))"
    "cr_effect_magnitude c = magnitude_of (cr_effect_size_r c)"
    "cr_median_diff c = (if a = b then 0 else np_median np a - np_median np b)"
    "cr_median_a c = np_median np a" "cr_median_b c = np_median np b"
proof -
  have len: "length a = length b" using assms by (simp add: wilcoxon_comparison_def split: if_splits)
  have "list_all (\<lambda>d. d = (0::real)) (map2 (-) a b) \<longleftrightarrow> a = b"
    using len by (induction a b rule: list_induct2) auto
  note eq = this
  obtain stat p where w: "sc_wilcoxon np a b = (stat, p)" by (rule prod.exhaust)
  show "cr_metric c = m" "cr_group_a_label c = la" "cr_group_b_label c = lb"
    "cr_bonferroni_p c = (if a = b then 1 else min (snd (sc_wilcoxon np a b) * of_nat k) 1)"
    "cr_significant c \<longleftrightarrow> a \<noteq> b \<and> cr_bonferroni_p c < alpha"
    "cr_effect_size_r c = (if a = b then 0 else effect_size (fst (sc_wilcoxon np a b)) (length a))"
    "cr_effect_magnitude c = magnitude_of (cr_effect_size_r c)"
    "cr_median_diff c = (if a = b then 0 else np_median np a - np_median np b)"
    "cr_median_a c = np_median np a" "cr_median_b c = np_median np b"
    using assms unfolding wilcoxon_comparison_def Let_def eq w prod.case
    by (auto simp: w len magnitude_of_def split: if_splits)
qed

lemma effect_size_range:
  assumes "0 \<le> stat" "stat \<le> of_nat n * (of_nat n + 1) / 4" "0 < n"
  shows "0 \<le> effect_size stat n \<and> effect_size stat n \<le> 1 \<and>
    effect_size stat n = 1 - 4 * stat / (of_nat n * (of_nat n + 1))"
proof -
  let ?q = "of_nat n * (of_nat n + 1) :: real"
  have q: "0 < ?q" using assms(3) by simp
  have "4 * stat / ?q \<le> 1" "0 \<le> 4 * stat / ?q" using assms q by (simp_all add: field_simps)
  note range = this
  have "effect_size stat n = max (- 1) (min 1 (1 - 4 * stat / ?q))" using q by (simp add: effect_size_def Let_def)
  also have "min 1 (1 - 4 * stat / ?q) = 1 - 4 * stat / ?q" using range(2) by (intro min_absorb2) linarith
  also have "max (- 1) (1 - 4 * stat / ?q) = 1 - 4 * stat / ?q" using range(1) by (intro max_absorb2) linarith
  finally show ?thesis using range by linarith
qed

text \<open>C36: A comparison corrects its level and its effect has no direction.  With a two-sided test, whose statistic is the
  smaller rank sum and does not change when the groups are swapped, the corrected p-value is within 0 and 1, the
  result is significant exactly when the groups differ and the p-value is below the level divided by the number
  of comparisons, and the effect size is between 0 and 1; swapping the groups changes none of them, only the
  sign of the difference of the medians.\<close>

theorem comparison_corrected:
  assumes "wilcoxon_comparison np nb alpha a b m la lb k = Inr c" "wilcoxon_comparison np nb alpha b a m la lb k = Inr c'"
    and "sc_wilcoxon np a b = (stat, p)" "sc_wilcoxon np b a = (stat, p)" "0 \<le> p"
    and "0 \<le> stat" "stat \<le> of_nat (length a) * (of_nat (length a) + 1) / 4"
    and "0 < k" "alpha \<le> 1"
  shows "0 \<le> cr_bonferroni_p c \<and> cr_bonferroni_p c \<le> 1 \<and>
    cr_significant c = (a \<noteq> b \<and> p < alpha / of_nat k) \<and>
    0 \<le> cr_effect_size_r c \<and> cr_effect_size_r c \<le> 1 \<and>
    cr_effect_magnitude c = (if cr_effect_size_r c < 3/10 then ''small'' else if cr_effect_size_r c < 1/2 then ''medium'' else ''large'') \<and>
    cr_effect_size_r c' = cr_effect_size_r c \<and> cr_bonferroni_p c' = cr_bonferroni_p c \<and>
    cr_significant c' = cr_significant c \<and> cr_median_diff c' = - cr_median_diff c"
proof -
  note f = wilcoxon_comparison_fields [OF assms(1)] and f' = wilcoxon_comparison_fields [OF assms(2)]
  have len: "length a = length b" using assms(1) by (simp add: wilcoxon_comparison_def split: if_splits)
  have r: "0 \<le> cr_effect_size_r c \<and> cr_effect_size_r c \<le> 1"
  proof (cases "a = b")
    case False
    then have "0 < length a" using len by auto
    from effect_size_range [OF assms(6,7) this] show ?thesis using False by (simp add: f(6) assms(3))
  qed (simp add: f(6))
  have "min (p * of_nat k) 1 < alpha \<longleftrightarrow> p < alpha / of_nat k"
    using assms(8,9) by (auto simp: field_simps min_def)
  then have sig: "cr_significant c = (a \<noteq> b \<and> p < alpha / of_nat k)" using f(4,5) assms(3) by auto
  show ?thesis
  proof (intro conjI)
    show "0 \<le> cr_bonferroni_p c" "cr_bonferroni_p c \<le> 1" using assms(5) by (simp_all add: f(4) assms(3))
    show "cr_effect_magnitude c = (if cr_effect_size_r c < 3/10 then ''small'' else if cr_effect_size_r c < 1/2 then ''medium'' else ''large'')"
      using r by (simp add: f(7) magnitude_of_def)
    show "cr_significant c' = cr_significant c" using assms(3,4) by (auto simp: f(4,5) f'(4,5))
  qed (use r sig assms(3,4) len f f' in auto)
qed

definition demo_libs :: "unit libs" where
  "demo_libs = \<lparr>np_median = (\<lambda>xs. if xs = [] then 0 else hd xs), np_percentile = (\<lambda>xs q. 0), default_rng = (\<lambda>_. ()),
     rng_choice = (\<lambda>g xs n. (xs, g)), sc_wilcoxon = (\<lambda>a b. (0, 1/64)), pd_median = (\<lambda>xs. 0), pd_quantile = (\<lambda>xs q. 0),
     group_means = (\<lambda>xs. [])\<rparr>"

theorem comparison_corrected_witness:
  "\<exists>c. wilcoxon_comparison demo_libs 9999 (5/100) [1, 2] [3, 5] ''m1_p95_latency_ms'' ''a'' ''b'' 2 = Inr c \<and>
     cr_significant c \<and> cr_effect_size_r c \<le> 1"
proof -
  have list_len: "length [1, 2 :: real] = length [3, 5 :: real]" "length [3, 5 :: real] = length [1, 2 :: real]" by simp_all
  obtain c where c: "wilcoxon_comparison demo_libs 9999 (5/100) [1, 2] [3, 5] ''m1_p95_latency_ms'' ''a'' ''b'' 2 = Inr c"
    using wilcoxon_comparison_ok [OF list_len(1)] by blast
  obtain c' where c': "wilcoxon_comparison demo_libs 9999 (5/100) [3, 5] [1, 2] ''m1_p95_latency_ms'' ''a'' ''b'' 2 = Inr c'"
    using wilcoxon_comparison_ok [OF list_len(2)] by blast
  have "sc_wilcoxon demo_libs [1, 2] [3, 5] = (0, 1/64)" "sc_wilcoxon demo_libs [3, 5] [1, 2] = (0, 1/64)"
    by (simp_all add: demo_libs_def)
  from comparison_corrected [OF c c' this] c show ?thesis by (intro exI [of _ c]) simp
qed

text \<open>The comparisons that are made of a cell, and the key of one.\<close>

definition complete_cell :: "'g libs \<Rightarrow> labelled_row list \<Rightarrow> string \<times> string \<times> string \<Rightarrow> bool" where
  "complete_cell np df = (\<lambda>(w, n, m).
     list_all (\<lambda>s. length (get_reps np df w n s m) = 10) [''HybridStream'', ''B1'', ''B2''])"

definition cell_keys :: "string \<times> string \<times> string \<Rightarrow> (string \<times> string \<times> string) list" where
  "cell_keys = (\<lambda>(w, n, m). map (\<lambda>s. (m, w @ ''/'' @ n @ ''/HybridStream'', w @ ''/'' @ n @ ''/'' @ s)) [''B1'', ''B2''])"

definition key_of :: "ComparisonResult \<Rightarrow> string \<times> string \<times> string" where
  "key_of c = (cr_metric c, cr_group_a_label c, cr_group_b_label c)"

definition corrected :: "ComparisonResult \<Rightarrow> bool" where
  "corrected c \<longleftrightarrow> (cr_significant c = (cr_bonferroni_p c < 5/100)) \<and> cr_bonferroni_p c \<le> 1 \<and> cr_median_diff c = cr_median_a c - cr_median_b c"

lemma compare_metric_ok:
  obtains new where "compare_metric np df w n m results = Inr (results @ new)" "list_all corrected new"
    "map key_of new = (if complete_cell np df (w, n, m) then cell_keys (w, n, m) else [])"
proof (cases "complete_cell np df (w, n, m)")
  case False
  then show ?thesis
    by (intro that [of "[]"]) (auto simp: compare_metric_def complete_cell_def Let_def)
next
  case True
  let ?g = "\<lambda>s. get_reps np df w n s m"
  have lens: "length (?g ''HybridStream'') = 10" "length (?g ''B1'') = 10" "length (?g ''B2'') = 10"
    using True by (simp_all add: complete_cell_def)
  let ?cmp = "\<lambda>s. wilcoxon_comparison np 9999 (5/100) (?g ''HybridStream'') (?g s) m (w @ ''/'' @ n @ ''/HybridStream'')
      (w @ ''/'' @ n @ ''/'' @ s) 54"
  obtain c1 where c1: "?cmp ''B1'' = Inr c1" using wilcoxon_comparison_ok [OF trans [OF lens(1) lens(2) [symmetric]]] by blast
  obtain c2 where c2: "?cmp ''B2'' = Inr c2" using wilcoxon_comparison_ok [OF trans [OF lens(1) lens(3) [symmetric]]] by blast
  note f = wilcoxon_comparison_fields [OF c1] wilcoxon_comparison_fields [OF c2]
  have "compare_metric np df w n m results = Inr (results @ [c1, c2])"
    using c1 c2 by (simp add: compare_metric_def Let_def lens)
  moreover have "list_all corrected [c1, c2]" using f by (auto simp: corrected_def)
  ultimately show ?thesis by (rule that) (simp add: True key_of_def cell_keys_def f)
qed

lemma compare_cells_ok:
  "\<exists>new. compare_cells np df cells results = Inr (results @ new) \<and> list_all corrected new \<and>
     map key_of new = concat (map cell_keys (filter (complete_cell np df) cells))"
proof (induction cells arbitrary: results)
  case (Cons cell cells)
  obtain w n m where cell: "cell = (w, n, m)" by (rule prod_cases3)
  obtain new where new: "compare_metric np df w n m results = Inr (results @ new)" "list_all corrected new"
      "map key_of new = (if complete_cell np df cell then cell_keys cell else [])"
    unfolding cell by (rule compare_metric_ok)
  obtain new' where "compare_cells np df cells (results @ new) = Inr ((results @ new) @ new')" "list_all corrected new'"
      "map key_of new' = concat (map cell_keys (filter (complete_cell np df) cells))"
    using Cons.IH [of "results @ new"] by blast
  then show ?case using new by (intro exI [of _ "new @ new'"]) (simp add: cell)
qed simp

text \<open>Every complete cell is compared, once with each baseline, at the level for 54 comparisons.  Whatever the results
  hold, the comparisons do not raise; they are those of the workloads, networks and metrics for which all three
  systems have ten repetitions, in the order of the loops and all different, and 54 when every cell is complete.\<close>

theorem comparisons_complete:
  "\<exists>results. run_all_pairwise_comparisons np df = Inr results \<and>
     map key_of results = concat (map cell_keys (filter (complete_cell np df) comparison_cells)) \<and>
     distinct (map key_of results) \<and> list_all corrected results \<and>
     length results = 54 - 2 * length (filter (\<lambda>cell. \<not> complete_cell np df cell) comparison_cells)"
proof -
  obtain new where new: "run_all_pairwise_comparisons np df = Inr new" "list_all corrected new"
      "map key_of new = concat (map cell_keys (filter (complete_cell np df) comparison_cells))"
    using compare_cells_ok [of np df comparison_cells "[]"] unfolding run_all_pairwise_comparisons_def by auto
  have d: "distinct (concat (map cell_keys (filter P cells)))" if "distinct (concat (map cell_keys cells))" for P cells
    using that by (induction cells) auto
  have all: "distinct (concat (map cell_keys comparison_cells))" by code_simp
  have "length (concat (map cell_keys cells)) = 2 * length cells" for cells
    by (induction cells) (auto simp: cell_keys_def)
  then have "length new = 2 * length (filter (complete_cell np df) comparison_cells)"
    using arg_cong [OF new(3), of length] by simp
  moreover have "length comparison_cells = 27" by (simp add: comparison_cells_def)
  ultimately have "length new = 54 - 2 * length (filter (\<lambda>cell. \<not> complete_cell np df cell) comparison_cells)"
    using sum_length_filter_compl [of "complete_cell np df" comparison_cells] by simp
  then show ?thesis using new d [OF all] by auto
qed

end
