(* ===== verification/Tables.thy ===== *)
theory Tables
  imports Stats
begin

text \<open>
  The tables of the experiment (\<open>experiments/analysis/tables.py\<close>) as the texts that are written; the CSV file that
  \<open>pandas\<close> writes of the same rows is left out.
\<close>

section \<open>Numbers\<close>

text \<open>\<open>f"{x:.nf}"\<close>: rounded to \<open>n\<close> places, ties to even, with the sign of a negative number also when it rounds to zero.\<close>

definition fixed :: "nat \<Rightarrow> real \<Rightarrow> string" where
  "fixed n x =
     (let r = nat (round_half_even (\<bar>x\<bar> * 10 ^ n));
          digits = show_nat (r div 10 ^ n) @ (if n = 0 then [] else CHR ''.'' # pad0 n (show_nat (r mod 10 ^ n)))
      in if x < 0 then CHR ''-'' # digits else digits)"

definition newline :: char where
  "newline = CHR 0x0A"

definition row_end :: string where
  "row_end = [CHR '' '', CHR 0x5C, CHR 0x5C]"

abbreviation bs :: "string \<Rightarrow> string" where
  "bs s \<equiv> CHR 0x5C # s"

section \<open>Comparisons\<close>

definition metric_short :: "string \<Rightarrow> string" where
  "metric_short m =
     dict_get_default [(''m1_p95_latency_ms'', ''M1 (p95 ms)''), (''m2_slo_compliance'', ''M2 (SLO %)''), (''m3_throughput_eps'', ''M3 (ev/s)'')] m m"

definition comparison_row :: "ComparisonResult \<Rightarrow> string" where
  "comparison_row r =
     (let parts_a = py_split (CHR ''/'') (cr_group_a_label r);
          workload = parts_a ! 0;
          network = (if 1 < length parts_a then parts_a ! 1 else []);
          sys_a = (if 2 < length parts_a then parts_a ! 2 else cr_group_a_label r);
          sys_b = last (py_split (CHR ''/'') (cr_group_b_label r));
          row = workload @ '' & '' @ network @ '' & '' @ sys_a @ '' vs '' @ sys_b @ '' & '' @
                metric_short (cr_metric r) @ '' & '' @ fixed 2 (cr_median_a r) @ '' & '' @ fixed 2 (cr_median_b r) @ '' & '' @
                fixed 4 (cr_bonferroni_p r) @ '' & '' @ fixed 3 (cr_effect_size_r r)
      in (if cr_significant r then bs ''textbf{'' @ row @ ''}'' else row) @ row_end)"

definition comparison_head :: "string list" where
  "comparison_head =
     [bs ''begin{table}[htbp]'', bs ''centering'',
      bs ''caption{Pairwise statistical comparisons (Wilcoxon signed-rank, Bonferroni-corrected). Significant results ($p_{'' @
        bs ''text{Bonf.}} < 0.05$) shown in bold.}'',
      bs ''label{tab:statistical_comparisons}'', bs ''small'', bs ''begin{tabular}{lllrrrrr}'', bs ''toprule'',
      ''Workload & Network & Comparison & Metric & Median A & Median B & $p_{'' @ bs ''text{Bonf.}}$ & $r$'' @ row_end,
      bs ''midrule'']"

definition generate_comparison_table_latex :: "ComparisonResult list \<Rightarrow> string" where
  "generate_comparison_table_latex results =
     join_with [newline] (comparison_head @ map comparison_row results @
       [bs ''bottomrule'', bs ''end{tabular}'', bs ''end{table}''])"

section \<open>Summary\<close>

record summary_row =
  su_workload :: string
  su_network :: string
  su_system :: string
  su_m1 :: string
  su_m2 :: string
  su_m3 :: string
  su_m4 :: string
  su_m5 :: string
  su_m6 :: string

text \<open>A statistic skips missing values, and is not a number when there is no other.\<close>

definition stat_text :: "nat \<Rightarrow> (real list \<Rightarrow> real) \<Rightarrow> real option list \<Rightarrow> string" where
  "stat_text n f xs = (let ys = List.map_filter (\<lambda>x. x) xs in if ys = [] then ''nan'' else fixed n (f ys))"

text \<open>The dash, in the encoding in which the table is written.\<close>

definition em_dash :: string where
  "em_dash = [CHR 0xE2, CHR 0x80, CHR 0x94]"

definition summary_of :: "'g libs \<Rightarrow> labelled_row list \<Rightarrow> string \<Rightarrow> string \<Rightarrow> string \<Rightarrow> summary_row list" where
  "summary_of np df workload network system =
     (let subset = map fst (filter (\<lambda>(r, w, s, n). w = Some workload \<and> n = Some network \<and> s = Some system) df);
          pauses = filter (\<lambda>x. 0 < x) (map rr_m4 subset)
      in if subset = [] then []
         else [\<lparr>su_workload = workload, su_network = network, su_system = system,
                su_m1 = stat_text 1 (pd_median np) (map rr_m1 subset),
                su_m2 = stat_text 1 (\<lambda>xs. mean_of xs * 100) (map rr_m2 subset),
                su_m3 = stat_text 1 (\<lambda>xs. pd_median np xs / 1000) (map (\<lambda>r. Some (rr_m3 r)) subset),
                su_m4 = (if pauses \<noteq> [] then fixed 0 (pd_median np pauses) else em_dash),
                su_m5 = stat_text 1 mean_of (map (\<lambda>r. Some (rr_m5 r)) subset),
                su_m6 = stat_text 2 mean_of (map (\<lambda>r. Some (rr_m6 r)) subset)\<rparr>])"

definition summary_rows :: "'g libs \<Rightarrow> labelled_row list \<Rightarrow> summary_row list" where
  "summary_rows np df =
     concat (map (\<lambda>w. concat (map (\<lambda>n. concat (map (summary_of np df w n) [''HybridStream'', ''B1'', ''B2'']))
       [''N1'', ''N2'', ''N3''])) [''W1'', ''W2'', ''W3''])"

definition summary_line :: "summary_row \<Rightarrow> string" where
  "summary_line r =
     join_with '' & '' [su_workload r, su_network r, su_system r, su_m1 r, su_m2 r, su_m3 r, su_m4 r, su_m5 r, su_m6 r] @ row_end"

definition generate_summary_table :: "'g libs \<Rightarrow> labelled_row list \<Rightarrow> summary_row list \<times> string" where
  "generate_summary_table np df =
     (let summary = summary_rows np df
      in (summary, join_with [newline]
            ([bs ''begin{table*}[htbp]'', bs ''centering'',
              bs ''caption{Median metrics across all experimental configurations (10 repetitions each).}'',
              bs ''label{tab:summary_results}'', bs ''small'', bs ''begin{tabular}{lll|rrrrrr}'', bs ''toprule'',
              ''W & Net & System & M1 p95 (ms) & M2 SLO ('' @ bs ''%) & M3 (k ev/s) & M4 Pause (ms) & M5 AODE (ms) & M6 Edge'' @ row_end,
              bs ''midrule''] @
             map summary_line summary @ [bs ''bottomrule'', bs ''end{tabular}'', bs ''end{table*}''])))"

text \<open>Both tables, as the texts of the files in the order in which they are written.\<close>

definition generate_all_tables :: "'g libs \<Rightarrow> labelled_row list \<Rightarrow> (string \<times> string) list res" where
  "generate_all_tables np df =
     bind_res (run_all_pairwise_comparisons np df) (\<lambda>comparisons.
       Inr [(''comparison_table.tex'', generate_comparison_table_latex comparisons),
            (''summary_table.tex'', snd (generate_summary_table np df))])"

section \<open>What the tables show\<close>

text \<open>A comparison is shown in bold exactly when it is significant, under the names of its cell.\<close>

definition starts_with :: "string \<Rightarrow> string \<Rightarrow> bool" where
  "starts_with p s \<longleftrightarrow> take (length p) s = p"

theorem bold_iff_significant:
  assumes "cr_group_a_label r = w @ ''/'' @ n @ ''/HybridStream''" "CHR ''/'' \<notin> set w" "CHR ''/'' \<notin> set n" "CHR 0x5C \<notin> set w"
  shows "starts_with (bs ''textbf{'') (comparison_row r) = cr_significant r \<and>
    comparison_row r = (let row = w @ '' & '' @ n @ '' & HybridStream vs '' @ last (py_split (CHR ''/'') (cr_group_b_label r)) @
        '' & '' @ metric_short (cr_metric r) @ '' & '' @ fixed 2 (cr_median_a r) @ '' & '' @ fixed 2 (cr_median_b r) @ '' & '' @
        fixed 4 (cr_bonferroni_p r) @ '' & '' @ fixed 3 (cr_effect_size_r r)
      in (if cr_significant r then bs ''textbf{'' @ row @ ''}'' else row) @ row_end)"
proof -
  have parts: "py_split (CHR ''/'') (w @ CHR ''/'' # n @ ''/HybridStream'') = [w, n, ''HybridStream'']"
    using assms(2,3) by (simp add: py_split_sep)
  have "\<not> starts_with (bs ''textbf{'') (w @ '' & '' @ x)" for x
    using assms(4) by (cases w) (auto simp: starts_with_def)
  then show ?thesis
    by (auto simp: comparison_row_def assms(1) parts Let_def) (auto simp: starts_with_def)
qed

text \<open>Both tables are always written, whatever the results hold.\<close>

theorem tables_written:
  "\<exists>comparisons. run_all_pairwise_comparisons np df = Inr comparisons \<and>
     generate_all_tables np df = Inr [(''comparison_table.tex'', generate_comparison_table_latex comparisons),
       (''summary_table.tex'', snd (generate_summary_table np df))]"
proof -
  obtain new where "run_all_pairwise_comparisons np df = Inr new"
    using compare_cells_ok [of np df comparison_cells "[]"] unfolding run_all_pairwise_comparisons_def by auto
  then show ?thesis by (simp add: generate_all_tables_def)
qed

end
