(* ===== verification/Figures.thy ===== *)
theory Figures
  imports Tables
begin

text \<open>
  The figures of the experiment (\<open>experiments/analysis/plots.py\<close>) as what is drawn on them: the lines, bars, boxes and
  histograms with their data, labels and colours, and the file they are saved to.  Sizes, fonts and grids are
  left out.
\<close>

section \<open>What is drawn\<close>

datatype artist =
    Line "(real \<times> real) list" string string
  | Bars "real list" "real list" string string
  | Boxes "real list list" "string list"
  | Histogram "real list" nat string
  | VerticalLine real string string
  | Message string

record panel =
  pn_title :: string
  pn_xlabel :: string
  pn_ylabel :: string
  pn_xticks :: "string list"
  pn_artists :: "artist list"

record figure =
  fg_file :: string
  fg_panels :: "panel list"

definition SYSTEM_COLORS :: "(string, string) dict" where
  "SYSTEM_COLORS = [(''HybridStream'', ''#1f77b4''), (''B1'', ''#ff7f0e''), (''B2'', ''#2ca02c'')]"

definition SYSTEM_LABELS :: "(string, string) dict" where
  "SYSTEM_LABELS = [(''HybridStream'', ''HybridStream''), (''B1'', ''B1 (Cloud-Only)''), (''B2'', ''B2 (Static Hybrid)'')]"

text \<open>Every system that is drawn has a label and a colour.\<close>

abbreviation label_of :: "string \<Rightarrow> string" where
  "label_of s \<equiv> the (dict_get SYSTEM_LABELS s)"

abbreviation color_of :: "string \<Rightarrow> string" where
  "color_of s \<equiv> the (dict_get SYSTEM_COLORS s)"

text \<open>The values of a column that are present, in the rows of a workload, a system and, where one is given, a network.\<close>

definition column_values ::
    "(result_row \<Rightarrow> real option) \<Rightarrow> labelled_row list \<Rightarrow> string \<Rightarrow> string option \<Rightarrow> string \<Rightarrow> real list" where
  "column_values col df workload network system =
     List.map_filter (\<lambda>(r, w, s, n).
         if w = Some workload \<and> (network = None \<or> n = network) \<and> s = Some system then col r else None) df"

section \<open>The figures\<close>

definition cdf_points :: "real list \<Rightarrow> (real \<times> real) list" where
  "cdf_points vs = (let n = length vs in zip (sort vs) (map (\<lambda>i. of_nat i / of_nat n) [1..<Suc n]))"

definition plot_latency_cdf :: "labelled_row list \<Rightarrow> string \<Rightarrow> string \<Rightarrow> figure" where
  "plot_latency_cdf df workload network =
     \<lparr>fg_file = ''latency_cdf_'' @ workload @ ''_'' @ network @ ''.pdf'',
      fg_panels = [\<lparr>pn_title = workload @ '' '' @ em_dash @ '' '' @ network, pn_xlabel = ''p95 Latency (ms)'', pn_ylabel = ''CDF'',
        pn_xticks = [],
        pn_artists = concat (map (\<lambda>system.
          (let values = column_values rr_m1 df workload (Some network) system
           in if values = [] then [] else [Line (cdf_points values) (label_of system) (color_of system)]))
          [''HybridStream'', ''B1'', ''B2''])\<rparr>]\<rparr>"

definition compliance_height :: "labelled_row list \<Rightarrow> string \<Rightarrow> string \<Rightarrow> string \<Rightarrow> real" where
  "compliance_height df workload network system =
     (let vals = column_values rr_m2 df workload (Some network) system in if vals \<noteq> [] then mean_of vals * 100 else 0)"

definition plot_slo_compliance_bar :: "labelled_row list \<Rightarrow> figure" where
  "plot_slo_compliance_bar df =
     (let networks = [''N1'', ''N2'', ''N3'']; bw = 1/4 :: real
      in \<lparr>fg_file = ''slo_compliance_bar.pdf'',
          fg_panels = map (\<lambda>(k, workload).
            \<lparr>pn_title = workload, pn_xlabel = [], pn_ylabel = (if k = 0 then ''SLO Compliance (%)'' else []), pn_xticks = networks,
             pn_artists = map (\<lambda>(i, system).
                 Bars (map (\<lambda>j. of_nat j + of_nat i * bw) [0..<3])
                   (map (\<lambda>network. compliance_height df workload network system) networks) (label_of system) (color_of system))
               (enumerate 0 [''HybridStream'', ''B1'', ''B2''])\<rparr>)
            (enumerate (0::nat) [''W1'', ''W2'', ''W3''])\<rparr>)"

definition plot_throughput_boxplot :: "labelled_row list \<Rightarrow> figure" where
  "plot_throughput_boxplot df =
     \<lparr>fg_file = ''throughput_boxplot.pdf'',
      fg_panels = map (\<lambda>workload.
        \<lparr>pn_title = workload, pn_xlabel = [], pn_ylabel = (if workload = ''W1'' then ''Throughput (M ev/s)'' else []),
         pn_xticks = [''HS'', ''B1'', ''B2''],
         pn_artists = [Boxes
             (map (\<lambda>system. map (\<lambda>x. x / 1000000) (column_values (\<lambda>r. Some (rr_m3 r)) df workload None system)) [''HybridStream'', ''B1'', ''B2''])
             (map color_of [''HybridStream'', ''B1'', ''B2''])]\<rparr>)
        [''W1'', ''W2'', ''W3'']\<rparr>"

definition plot_migration_pause_distribution :: "'g libs \<Rightarrow> labelled_row list \<Rightarrow> figure" where
  "plot_migration_pause_distribution np df =
     (let pauses = map (\<lambda>(r, _). rr_m4 r) (filter (\<lambda>(r, w, s, n). s = Some ''HybridStream'' \<and> 0 < rr_m4 r) df)
      in \<lparr>fg_file = ''migration_pause_dist.pdf'',
          fg_panels = [\<lparr>pn_title = ''PCTR Migration Pause Distribution (M4)'', pn_xlabel = ''Migration Pause Duration (ms)'', pn_ylabel = ''Count'',
            pn_xticks = [],
            pn_artists =
              (if pauses \<noteq> []
               then [Histogram pauses 30 (color_of ''HybridStream''),
                     VerticalLine (pd_median np pauses) ''red'' (''Median: '' @ fixed 0 (pd_median np pauses) @ ''ms''),
                     VerticalLine (pd_quantile np pauses (95/100)) ''orange'' (''p95: '' @ fixed 0 (pd_quantile np pauses (95/100)) @ ''ms'')]
               else [Message ''No migration data''])\<rparr>]\<rparr>)"

text \<open>All figures in the order in which they are saved.\<close>

definition generate_all_figures :: "'g libs \<Rightarrow> labelled_row list \<Rightarrow> figure list" where
  "generate_all_figures np df =
     concat (map (\<lambda>workload. map (\<lambda>network. plot_latency_cdf df workload network) [''N1'', ''N2'', ''N3'']) [''W1'', ''W2'', ''W3'']) @
     [plot_slo_compliance_bar df, plot_throughput_boxplot df, plot_migration_pause_distribution np df]"

section \<open>The latency curves\<close>

text \<open>The share of the values that are below, and at most, a bound.\<close>

definition share_below :: "real list \<Rightarrow> real \<Rightarrow> real" where
  "share_below vs x = of_nat (length (filter (\<lambda>v. v < x) vs)) / of_nat (length vs)"

definition share_up_to :: "real list \<Rightarrow> real \<Rightarrow> real" where
  "share_up_to vs x = of_nat (length (filter (\<lambda>v. v \<le> x) vs)) / of_nat (length vs)"

lemma length_filter_prefix:
  assumes "filter P (drop i xs) = []"
  shows "length (filter P xs) \<le> i"
proof -
  have "filter P xs = filter P (take i xs)"
    using assms by (metis append_Nil2 append_take_drop_id filter_append)
  then show ?thesis using length_filter_le [of P "take i xs"] by simp
qed

text \<open>In a sorted list the values below one at position \<open>i\<close> come before it, and the values before it are at most it.\<close>

lemma sorted_count_below:
  assumes "sorted xs" "i < length xs"
  shows "length (filter (\<lambda>v. v < xs ! i) xs) \<le> i"
  using assms by (intro length_filter_prefix) (auto simp: filter_empty_conv in_set_conv_nth sorted_iff_nth_mono not_less)

lemma sorted_count_up_to:
  assumes "sorted xs" "i < length xs"
  shows "Suc i \<le> length (filter (\<lambda>v. v \<le> xs ! i) xs)"
proof -
  have "filter (\<lambda>v. v \<le> xs ! i) (take (Suc i) xs) = take (Suc i) xs"
    using assms by (auto simp: filter_id_conv in_set_conv_nth sorted_iff_nth_mono)
  then have "filter (\<lambda>v. v \<le> xs ! i) xs = take (Suc i) xs @ filter (\<lambda>v. v \<le> xs ! i) (drop (Suc i) xs)"
    by (metis append_take_drop_id filter_append)
  then show ?thesis using assms(2) by simp
qed

lemma sorted_last_of_value:
  assumes "sorted xs" "i < length xs" "j = length (filter (\<lambda>v. v \<le> xs ! i) xs) - 1"
  shows "j < length xs" "xs ! j = xs ! i" "Suc j = length (filter (\<lambda>v. v \<le> xs ! i) xs)"
proof -
  let ?k = "length (filter (\<lambda>v. v \<le> xs ! i) xs)"
  have k: "Suc i \<le> ?k" "?k \<le> length xs" by (rule sorted_count_up_to [OF assms(1,2)], rule length_filter_le)
  then show j: "j < length xs" "Suc j = ?k" using assms(3) by linarith+
  have "i \<le> j" using j(2) k(1) by linarith
  then have "xs ! i \<le> xs ! j" using assms(1) j(1) by (simp add: sorted_iff_nth_mono)
  moreover have "xs ! j \<le> xs ! i"
  proof (rule ccontr)
    assume "\<not> xs ! j \<le> xs ! i"
    moreover have "xs ! j \<le> v" if "v \<in> set (drop j xs)" for v
      using that assms(1) j(1) by (auto simp: in_set_conv_nth sorted_iff_nth_mono)
    ultimately have "filter (\<lambda>v. v \<le> xs ! i) (drop j xs) = []"
      by (force simp: filter_empty_conv)
    then have "?k \<le> j" by (rule length_filter_prefix)
    then show False using j(2) by simp
  qed
  ultimately show "xs ! j = xs ! i" by simp
qed

lemma cdf_points_nth:
  assumes "i < length vs"
  shows "cdf_points vs ! i = (sort vs ! i, of_nat (Suc i) / of_nat (length vs))"
  using assms by (simp add: cdf_points_def Let_def del: upt_Suc)

lemma cdf_points_length [simp]: "length (cdf_points vs) = length vs"
  by (cases vs) (simp_all add: cdf_points_def Let_def del: upt_Suc)

lemma cdf_points_fst: "map fst (cdf_points vs) = sort vs"
  by (cases vs) (simp_all add: cdf_points_def Let_def del: upt_Suc)

lemma cdf_points_bounds: "list_all (\<lambda>(x, y). share_below vs x < y \<and> y \<le> share_up_to vs x) (cdf_points vs)"
  unfolding list_all_length
proof (intro allI impI)
  fix i assume "i < length (cdf_points vs)"
  then have i: "i < length vs" "i < length (sort vs)" by simp_all
  have "length (filter (\<lambda>v. v < sort vs ! i) vs) < Suc i"
    using sorted_count_below [OF sorted_sort i(2)] by (simp add: length_filter_sort)
  moreover have "Suc i \<le> length (filter (\<lambda>v. v \<le> sort vs ! i) vs)"
    using sorted_count_up_to [OF sorted_sort i(2)] by (simp add: length_filter_sort)
  ultimately show "case cdf_points vs ! i of (x, y) \<Rightarrow> share_below vs x < y \<and> y \<le> share_up_to vs x"
    using i(1) unfolding cdf_points_nth [OF i(1)] prod.case share_below_def share_up_to_def
    by (intro conjI divide_strict_right_mono divide_right_mono) (simp_all only: of_nat_less_iff of_nat_le_iff of_nat_0_le_iff of_nat_0_less_iff length_greater_0_conv, auto)
qed

lemma cdf_points_reach:
  assumes "x \<in> set vs"
  shows "(x, share_up_to vs x) \<in> set (cdf_points vs)"
proof -
  obtain i where i: "i < length (sort vs)" "sort vs ! i = x" using assms by (metis in_set_conv_nth set_sort)
  define j where "j = length (filter (\<lambda>v. v \<le> sort vs ! i) (sort vs)) - 1"
  note j = sorted_last_of_value [OF sorted_sort i(1) j_def]
  have "cdf_points vs ! j = (x, share_up_to vs x)"
    using j i(2) by (simp add: cdf_points_nth share_up_to_def length_filter_sort)
  moreover have "j < length (cdf_points vs)" using j(1) by simp
  ultimately show ?thesis by (metis nth_mem)
qed

text \<open>C37: The latency figures show the distributions.  The curve of a system is drawn exactly when it has latencies; it
  passes through all of them in order, at every latency it reaches the share of the values that are at most it,
  and no point of it is outside the step of the distribution there.\<close>

theorem latency_curve_exact:
  assumes "s \<in> set [''HybridStream'', ''B1'', ''B2'']" "vs = column_values rr_m1 df w (Some n) s"
  shows "(Line (cdf_points vs) (label_of s) (color_of s) \<in> set (concat (map pn_artists (fg_panels (plot_latency_cdf df w n)))) \<longleftrightarrow> vs \<noteq> []) \<and>
    map fst (cdf_points vs) = sort vs \<and>
    list_all (\<lambda>(x, y). share_below vs x < y \<and> y \<le> share_up_to vs x) (cdf_points vs) \<and>
    list_all (\<lambda>x. (x, share_up_to vs x) \<in> set (cdf_points vs)) vs"
proof -
  have "Line (cdf_points vs) (label_of s) (color_of s) \<in> set (concat (map pn_artists (fg_panels (plot_latency_cdf df w n)))) \<longleftrightarrow> vs \<noteq> []"
    using assms by (auto simp: plot_latency_cdf_def Let_def SYSTEM_LABELS_def SYSTEM_COLORS_def split: if_splits)
  then show ?thesis using cdf_points_fst cdf_points_bounds cdf_points_reach by (simp add: list_all_iff)
qed

text \<open>Two rows of a run on the second network, one without a compliance.\<close>

definition figure_row :: "real \<Rightarrow> real option \<Rightarrow> labelled_row" where
  "figure_row lat slo =
     (\<lparr>rr_timestamp_s = 120, rr_config_id = ''W1-B1-N2'', rr_repetition = 1, rr_operator_type = ''RiskCheck'', rr_m1 = Some lat,
       rr_m2 = slo, rr_m3 = 5, rr_m4 = 0, rr_m5 = 0, rr_m6 = 0\<rparr>, Some ''W1'', Some ''B1'', Some ''N2'')"

theorem latency_curve_exact_witness:
  "Line (cdf_points [9, 4]) ''B1 (Cloud-Only)'' ''#ff7f0e'' \<in>
     set (concat (map pn_artists (fg_panels (plot_latency_cdf [figure_row 9 None, figure_row 4 (Some 1)] ''W1'' ''N2''))))"
proof -
  let ?df = "[figure_row 9 None, figure_row 4 (Some 1)]"
  have b1: "''B1'' \<in> set [''HybridStream'', ''B1'', ''B2'']" by simp
  have vs: "[9, 4] = column_values rr_m1 ?df ''W1'' (Some ''N2'') ''B1''"
    by (simp add: column_values_def figure_row_def map_filter_simps)
  have "label_of ''B1'' = ''B1 (Cloud-Only)''" "color_of ''B1'' = ''#ff7f0e''" by (simp_all add: SYSTEM_LABELS_def SYSTEM_COLORS_def)
  with latency_curve_exact [OF b1 vs] show ?thesis by simp
qed

section \<open>The compliance bars\<close>

text \<open>C38: The compliance bars show the table.  Where a cell has a compliance, the height of its bar is the number that the
  summary table prints for it, and it is a percentage when the values are shares; a cell without one, which the
  table shows as not a number, is drawn as zero compliance.\<close>

theorem compliance_bars_match_table:
  assumes "summary_of np df w n s = [row]"
    and "\<And>v. v \<in> set (column_values rr_m2 df w (Some n) s) \<Longrightarrow> 0 \<le> v \<and> v \<le> 1"
  shows "0 \<le> compliance_height df w n s \<and> compliance_height df w n s \<le> 100 \<and>
    su_m2 row = (if column_values rr_m2 df w (Some n) s = [] then ''nan'' else fixed 1 (compliance_height df w n s)) \<and>
    (column_values rr_m2 df w (Some n) s = [] \<longrightarrow> compliance_height df w n s = 0)"
proof -
  let ?vals = "column_values rr_m2 df w (Some n) s"
  have vals: "List.map_filter (\<lambda>x. x) (map rr_m2 (map fst (filter (\<lambda>(r, w', s', n'). w' = Some w \<and> n' = Some n \<and> s' = Some s) df))) = ?vals"
    unfolding column_values_def
  proof (induction df)
    case (Cons x df)
    then show ?case by (cases x rule: prod_cases4) (auto simp: map_filter_simps split: option.split)
  qed (simp add: map_filter_simps)
  have "su_m2 row = stat_text 1 (\<lambda>xs. mean_of xs * 100)
      (map rr_m2 (map fst (filter (\<lambda>(r, w', s', n'). w' = Some w \<and> n' = Some n \<and> s' = Some s) df)))"
    using assms(1) by (auto simp: summary_of_def Let_def split: if_splits)
  then have row: "su_m2 row = (if ?vals = [] then ''nan'' else fixed 1 (mean_of ?vals * 100))"
    unfolding stat_text_def Let_def vals .
  have "0 \<le> sum_list vs \<and> sum_list vs \<le> of_nat (length vs)" if "\<And>v. v \<in> set vs \<Longrightarrow> 0 \<le> v \<and> v \<le> (1 :: real)" for vs
    using that by (induction vs) (auto, smt (verit))
  from this [of ?vals] assms(2) have "0 \<le> sum_list ?vals \<and> sum_list ?vals \<le> of_nat (length ?vals)" by blast
  then have "?vals \<noteq> [] \<Longrightarrow> 0 \<le> mean_of ?vals \<and> mean_of ?vals \<le> 1" by (simp add: mean_of_def divide_simps)
  then show ?thesis using row by (auto simp: compliance_height_def Let_def)
qed

theorem compliance_bars_match_table_witness:
  "\<exists>row. summary_of demo_libs [figure_row 9 None, figure_row 4 (Some 1)] ''W1'' ''N2'' ''B1'' = [row] \<and>
     su_m2 row = fixed 1 (compliance_height [figure_row 9 None, figure_row 4 (Some 1)] ''W1'' ''N2'' ''B1'')"
proof -
  let ?df = "[figure_row 9 None, figure_row 4 (Some 1)]"
  obtain row where row: "summary_of demo_libs ?df ''W1'' ''N2'' ''B1'' = [row]"
    by (simp add: summary_of_def figure_row_def Let_def)
  have vals: "column_values rr_m2 ?df ''W1'' (Some ''N2'') ''B1'' = [1]"
    by (simp add: column_values_def figure_row_def map_filter_simps)
  from compliance_bars_match_table [OF row] row show ?thesis by (simp add: vals)
qed

end
