(* ===== verification/Synthetic.thy ===== *)
theory Synthetic
  imports Collector
begin

text \<open>
  The generator of synthetic results (\<open>experiments/scripts/generate_synthetic.py\<close>): the models of the six metrics
  and the 270 result files it writes, in the rows that \<open>storage.py\<close> reads.  The draws of the random generator are a
  parameter: a uniform number between two bounds, a normal number with a mean and a deviation, and a number
  from 0 to 1, each with the generator's next state.
\<close>

section \<open>Tables\<close>

record synth_workload =
  sw_name :: string
  sw_operators :: "string list"
  sw_slo_ms :: real
  sw_base_rate_eps :: real
  sw_duration_s :: nat
  sw_warmup_s :: nat

definition WORKLOADS :: "(string, synth_workload) dict" where
  "WORKLOADS =
     [(''W1'', \<lparr>sw_name = ''Smart City'', sw_operators = [''NormalizerOperator'', ''FeatureAggWindow'', ''MultiStreamJoin'', ''BinaryClassifier''],
         sw_slo_ms = 200, sw_base_rate_eps = 50000, sw_duration_s = 600, sw_warmup_s = 120\<rparr>),
      (''W2'', \<lparr>sw_name = ''Traffic Monitoring'', sw_operators = [''VehicleDetector'', ''ZoneAggregator'', ''PatternDetector''],
         sw_slo_ms = 500, sw_base_rate_eps = 30000, sw_duration_s = 600, sw_warmup_s = 120\<rparr>),
      (''W3'', \<lparr>sw_name = ''Financial Risk'', sw_operators = [''RiskCheck'', ''AnomalyDetector'', ''StatAggregator'', ''ComplianceLogger''],
         sw_slo_ms = 50, sw_base_rate_eps = 100000, sw_duration_s = 600, sw_warmup_s = 120\<rparr>)]"

record synth_network =
  sx_rtt_ms :: real
  sx_bw_mbps :: real
  sx_loss_pct :: real
  sx_label :: string

definition NETWORKS :: "(string, synth_network) dict" where
  "NETWORKS =
     [(''N1'', \<lparr>sx_rtt_ms = 2, sx_bw_mbps = 1000, sx_loss_pct = 1/100, sx_label = ''LAN''\<rparr>),
      (''N2'', \<lparr>sx_rtt_ms = 50, sx_bw_mbps = 100, sx_loss_pct = 1/10, sx_label = ''WAN''\<rparr>),
      (''N3'', \<lparr>sx_rtt_ms = 15, sx_bw_mbps = 200, sx_loss_pct = 1/2, sx_label = ''5G''\<rparr>)]"

definition SYSTEMS :: "string list" where
  "SYSTEMS = [''HybridStream'', ''B1'', ''B2'']"

record 'g rng_ops =
  rg_uniform :: "real \<Rightarrow> real \<Rightarrow> 'g \<Rightarrow> real \<times> 'g"
  rg_normal :: "real \<Rightarrow> real \<Rightarrow> 'g \<Rightarrow> real \<times> 'g"
  rg_random :: "'g \<Rightarrow> real \<times> 'g"
  rg_seed :: "int \<Rightarrow> 'g"

definition lookup :: "(string, 'v) dict \<Rightarrow> string \<Rightarrow> 'v res" where
  "lookup d k = (case dict_get d k of None \<Rightarrow> Inl (KeyError k) | Some v \<Rightarrow> Inr v)"

fun list_index :: "'a list \<Rightarrow> 'a \<Rightarrow> nat res" where
  "list_index [] x = Inl (ValueError ''x is not in list'')"
| "list_index (y # ys) x = (if y = x then Inr 0 else bind_res (list_index ys x) (\<lambda>i. Inr (Suc i)))"

section \<open>Latency\<close>

definition base_latencies :: "(string, real list) dict" where
  "base_latencies = [(''W1'', [8, 15, 25, 12]), (''W2'', [20, 12, 35]), (''W3'', [5, 18, 8, 3])]"

text \<open>The latency before the noise, and the deviation of the noise; without a known system neither is ever set.\<close>

definition latency_of :: "real \<Rightarrow> string \<Rightarrow> string \<Rightarrow> real \<Rightarrow> (real \<times> real) res" where
  "latency_of rtt system network base_latency =
     (if system = ''HybridStream''
      then (let latency = base_latency + rtt * (3/10);
                latency = (if network = ''N2'' then latency * (11/10) else if network = ''N3'' then latency * (115/100) else latency)
            in Inr (latency, latency * (8/100)))
      else if system = ''B1''
      then (let latency = base_latency * (12/10) + rtt;
                latency = (if network = ''N2'' then latency * (14/10) else if network = ''N3'' then latency * (125/100) else latency)
            in Inr (latency, latency * (12/100)))
      else if system = ''B2''
      then (let latency = base_latency + rtt * (5/10);
                latency = (if network = ''N1'' then latency * (105/100) else if network = ''N2'' then latency * (135/100)
                           else if network = ''N3'' then latency * (145/100) else latency)
            in Inr (latency, latency * (10/100)))
      else Inl (Exc ''UnboundLocalError''))"

definition generate_p95_latency :: "'g rng_ops \<Rightarrow> string \<Rightarrow> string \<Rightarrow> string \<Rightarrow> string \<Rightarrow> 'g \<Rightarrow> (real \<times> 'g) res" where
  "generate_p95_latency R workload system network operator rng =
     bind_res (lookup WORKLOADS workload) (\<lambda>wl.
     bind_res (lookup NETWORKS network) (\<lambda>net.
     bind_res (list_index (sw_operators wl) operator) (\<lambda>op_idx.
     bind_res (lookup base_latencies workload) (\<lambda>bases.
     if length bases \<le> op_idx then Inl (IndexError)
     else bind_res (latency_of (sx_rtt_ms net) system network (bases ! op_idx)) (\<lambda>(latency, spread).
       case rg_normal R 0 spread rng of (noise, rng) \<Rightarrow> Inr (max 1 (latency + noise), rng))))))"

section \<open>The other metrics\<close>

definition compliance_bounds :: "string \<Rightarrow> real \<Rightarrow> real \<times> real" where
  "compliance_bounds system ratio =
     (if system = ''HybridStream''
      then (if ratio < 1/2 then (97/100, 995/1000) else if ratio < 8/10 then (93/100, 98/100)
            else if ratio < 1 then (88/100, 95/100) else (75/100, 90/100))
      else if system = ''B1''
      then (if ratio < 1/2 then (94/100, 98/100) else if ratio < 8/10 then (85/100, 93/100)
            else if ratio < 1 then (72/100, 87/100) else (55/100, 75/100))
      else (if ratio < 1/2 then (95/100, 985/1000) else if ratio < 8/10 then (88/100, 95/100)
            else if ratio < 1 then (78/100, 90/100) else (60/100, 80/100)))"

definition generate_slo_compliance :: "'g rng_ops \<Rightarrow> real \<Rightarrow> real \<Rightarrow> string \<Rightarrow> 'g \<Rightarrow> real \<times> 'g" where
  "generate_slo_compliance R p95_latency slo_ms system rng =
     (case compliance_bounds system (p95_latency / slo_ms) of
        (lo, hi) \<Rightarrow> (case rg_uniform R lo hi rng of (compliance, rng) \<Rightarrow> (min 1 (max 0 compliance), rng)))"

definition generate_throughput :: "'g rng_ops \<Rightarrow> string \<Rightarrow> string \<Rightarrow> string \<Rightarrow> 'g \<Rightarrow> (real \<times> 'g) res" where
  "generate_throughput R workload system network rng =
     bind_res (lookup WORKLOADS workload) (\<lambda>wl.
     bind_res (lookup NETWORKS network) (\<lambda>net.
     if system = ''HybridStream''
     then (case rg_uniform R (92/100) (102/100) rng of (factor, rng) \<Rightarrow>
             Inr (sw_base_rate_eps wl * (if network = ''N2'' then factor * (88/100) else if network = ''N3'' then factor * (91/100) else factor), rng))
     else if system = ''B1''
     then (case rg_uniform R (85/100) (95/100) rng of (factor, rng) \<Rightarrow>
             Inr (sw_base_rate_eps wl * (if network = ''N2'' then factor * (72/100) else if network = ''N3'' then factor * (80/100) else factor), rng))
     else (case rg_uniform R (88/100) (97/100) rng of (factor, rng) \<Rightarrow>
             Inr (sw_base_rate_eps wl * (if network = ''N2'' then factor * (78/100) else if network = ''N3'' then factor * (82/100) else factor), rng))))"

definition generate_migration_pause :: "'g rng_ops \<Rightarrow> string \<Rightarrow> string \<Rightarrow> 'g \<Rightarrow> real \<times> 'g" where
  "generate_migration_pause R system network rng =
     (if system \<noteq> ''HybridStream'' then (0, rng)
      else
        (let migration_prob = (if network = ''N3'' then 5/100 else 3/100)
         in case rg_random R rng of (draw, rng) \<Rightarrow>
              if draw < migration_prob
              then (case rg_uniform R 45 180 rng of (base_pause, rng) \<Rightarrow>
                      (if network = ''N2'' then base_pause * (13/10) else if network = ''N3'' then base_pause * (115/100) else base_pause, rng))
              else (0, rng)))"

definition generate_aode_overhead :: "'g rng_ops \<Rightarrow> string \<Rightarrow> 'g \<Rightarrow> real \<times> 'g" where
  "generate_aode_overhead R system rng =
     (if system = ''HybridStream'' then rg_uniform R (25/10) 8 rng
      else if system = ''B2'' then (0, rng) else (0, rng))"

definition generate_edge_utilization :: "'g rng_ops \<Rightarrow> string \<Rightarrow> string \<Rightarrow> string \<Rightarrow> 'g \<Rightarrow> (real \<times> 'g) res" where
  "generate_edge_utilization R system workload network rng =
     (if system = ''B1'' then Inr (rg_uniform R (2/100) (8/100) rng)
      else bind_res (lookup WORKLOADS workload) (\<lambda>wl.
        (let n_ops = of_nat (length (sw_operators wl))
         in if system = ''HybridStream''
            then (let base = 55/100 + n_ops * (5/100);
                      base = (if network = ''N2'' then base + 8/100 else base)
                  in case rg_normal R 0 (4/100) rng of (noise, rng) \<Rightarrow> Inr (min (95/100) (max (15/100) (base + noise)), rng))
            else (let base = 50/100 + n_ops * (4/100)
                  in case rg_normal R 0 (6/100) rng of (noise, rng) \<Rightarrow> Inr (min (95/100) (max (10/100) (base + noise)), rng)))))"

section \<open>Files\<close>

definition synth_row ::
    "'g rng_ops \<Rightarrow> synth_workload \<Rightarrow> string \<Rightarrow> string \<Rightarrow> string \<Rightarrow> int \<Rightarrow> real \<Rightarrow> string \<Rightarrow> 'g \<Rightarrow> (result_row \<times> 'g) res" where
  "synth_row R wl workload system network rep timestamp operator rng =
     bind_res (generate_p95_latency R workload system network operator rng) (\<lambda>(p95, rng).
     case generate_slo_compliance R p95 (sw_slo_ms wl) system rng of (slo_comp, rng) \<Rightarrow>
     bind_res (generate_throughput R workload system network rng) (\<lambda>(throughput, rng).
     case generate_migration_pause R system network rng of (migration, rng) \<Rightarrow>
     case generate_aode_overhead R system rng of (aode, rng) \<Rightarrow>
     bind_res (generate_edge_utilization R system workload network rng) (\<lambda>(edge_util, rng).
       Inr (\<lparr>rr_timestamp_s = timestamp, rr_config_id = workload @ ''-'' @ system @ ''-'' @ network, rr_repetition = rep,
             rr_operator_type = operator, rr_m1 = Some (py_round 2 p95), rr_m2 = Some (py_round 4 slo_comp),
             rr_m3 = py_round 1 throughput, rr_m4 = py_round 1 migration, rr_m5 = py_round 2 aode,
             rr_m6 = py_round 4 edge_util\<rparr>, rng))))"

fun for_each :: "('a \<Rightarrow> 'g \<Rightarrow> ('b \<times> 'g) res) \<Rightarrow> 'a list \<Rightarrow> 'g \<Rightarrow> ('b list \<times> 'g) res" where
  "for_each f [] rng = Inr ([], rng)"
| "for_each f (x # xs) rng =
     bind_res (f x rng) (\<lambda>(y, rng). bind_res (for_each f xs rng) (\<lambda>(ys, rng). Inr (y # ys, rng)))"

definition synth_file ::
    "'g rng_ops \<Rightarrow> synth_workload \<Rightarrow> string \<Rightarrow> string \<Rightarrow> string \<Rightarrow> nat \<Rightarrow> 'g \<Rightarrow> ((string \<times> nat \<times> result_row list) \<times> 'g) res" where
  "synth_file R wl workload system network rep rng =
     (let n_snapshots = sw_duration_s wl div 5
      in bind_res
           (for_each (\<lambda>(snap_idx, operator).
               synth_row R wl workload system network (int rep) (of_nat snap_idx * 5) operator)
             (List.product [0..<n_snapshots] (sw_operators wl)) rng)
           (\<lambda>(rows, rng). Inr ((workload @ ''-'' @ system @ ''-'' @ network, rep, rows), rng)))"

definition generate_all :: "'g rng_ops \<Rightarrow> (string \<times> nat \<times> result_row list) list res" where
  "generate_all R =
     bind_res
       (for_each (\<lambda>(workload, system, network, rep) rng.
           bind_res (lookup WORKLOADS workload) (\<lambda>wl. synth_file R wl workload system network rep rng))
         (List.product [''W1'', ''W2'', ''W3''] (List.product SYSTEMS (List.product [''N1'', ''N2'', ''N3''] [1..<11])))
         (rg_seed R 42))
       (\<lambda>(files, rng). Inr files)"

section \<open>What the files hold\<close>

definition honest :: "'g rng_ops \<Rightarrow> bool" where
  "honest R \<longleftrightarrow> (\<forall>lo hi g. lo \<le> hi \<longrightarrow> lo \<le> fst (rg_uniform R lo hi g) \<and> fst (rg_uniform R lo hi g) \<le> hi)"

lemma honest_uniform: "honest R \<Longrightarrow> lo \<le> hi \<Longrightarrow> rg_uniform R lo hi g = (x, g') \<Longrightarrow> lo \<le> x \<and> x \<le> hi"
  unfolding honest_def by (metis fst_conv)

lemma round_half_even_mono_int: "of_int k \<le> x \<Longrightarrow> k \<le> round_half_even x" "x \<le> of_int k \<Longrightarrow> round_half_even x \<le> k"
  using round_half_even_bound [of x] by linarith+

lemma py_round_ge: "of_int k \<le> x * 10 ^ n \<Longrightarrow> of_int k / 10 ^ n \<le> py_round n x"
  unfolding py_round_def by (intro divide_right_mono) (simp_all add: round_half_even_mono_int)

lemma py_round_le: "x * 10 ^ n \<le> of_int k \<Longrightarrow> py_round n x \<le> of_int k / 10 ^ n"
  unfolding py_round_def by (intro divide_right_mono) (simp_all add: round_half_even_mono_int)

text \<open>The cells for which rows are generated; all their table lookups succeed.\<close>

definition cells :: "(string \<times> string \<times> string \<times> string) list" where
  "cells = concat (map (\<lambda>(w, wl). List.product [w] (List.product SYSTEMS (List.product (map fst NETWORKS) (sw_operators wl)))) WORKLOADS)"

definition lookups_succeed :: "string \<times> string \<times> string \<times> string \<Rightarrow> bool" where
  "lookups_succeed = (\<lambda>(w, s, n, op).
     case (lookup WORKLOADS w, lookup NETWORKS n, lookup base_latencies w) of
       (Inr wl, Inr net, Inr bases) \<Rightarrow>
         (case list_index (sw_operators wl) op of Inr i \<Rightarrow> i < length bases | Inl _ \<Rightarrow> False) \<and>
         0 < sw_base_rate_eps wl \<and> s \<in> set SYSTEMS
     | _ \<Rightarrow> False)"

lemma cells_lookups: "list_all lookups_succeed cells"
  by code_simp

definition known :: "string \<Rightarrow> string \<Rightarrow> string \<Rightarrow> string \<Rightarrow> bool" where
  "known w s n op \<longleftrightarrow> (w, s, n, op) \<in> set cells"

lemma known_lookup:
  assumes "known w s n op"
  obtains wl net i bases where "lookup WORKLOADS w = Inr wl" "lookup NETWORKS n = Inr net" "lookup base_latencies w = Inr bases"
    "list_index (sw_operators wl) op = Inr i" "i < length bases" "0 < sw_base_rate_eps wl" "s \<in> set SYSTEMS"
proof -
  have "lookups_succeed (w, s, n, op)" using assms cells_lookups unfolding known_def list_all_iff by blast
  then obtain wl net bases i where "lookup WORKLOADS w = Inr wl" "lookup NETWORKS n = Inr net" "lookup base_latencies w = Inr bases"
      "list_index (sw_operators wl) op = Inr i" "i < length bases" "0 < sw_base_rate_eps wl" "s \<in> set SYSTEMS"
    unfolding lookups_succeed_def prod.case
    by (cases "lookup WORKLOADS w"; cases "lookup NETWORKS n"; cases "lookup base_latencies w";
        cases "list_index (sw_operators (projr (lookup WORKLOADS w))) op") simp_all
  then show ?thesis by (rule that)
qed

lemma p95_generated:
  assumes "known w s n op"
  shows "\<exists>x g'. generate_p95_latency R w s n op g = Inr (x, g') \<and> 1 \<le> x"
  using assms
proof (rule known_lookup)
  fix wl net i bases
  assume k: "lookup WORKLOADS w = Inr wl" "lookup NETWORKS n = Inr net" "lookup base_latencies w = Inr bases"
    "list_index (sw_operators wl) op = Inr i" "i < length bases" "s \<in> set SYSTEMS"
  have "\<not> isl (latency_of (sx_rtt_ms net) s n (bases ! i))"
    using k(6) unfolding SYSTEMS_def latency_of_def Let_def by (simp only: list.set) auto
  then obtain l d where "latency_of (sx_rtt_ms net) s n (bases ! i) = Inr (l, d)"
    by (cases "latency_of (sx_rtt_ms net) s n (bases ! i)") auto
  then show ?thesis using k(5) by (cases "rg_normal R 0 d g") (simp add: generate_p95_latency_def k(1-4))
qed

lemma compliance_generated:
  assumes "honest R"
  shows "0 \<le> fst (generate_slo_compliance R x slo s g) \<and> fst (generate_slo_compliance R x slo s g) \<le> 1"
  by (simp add: generate_slo_compliance_def split: prod.split)

lemma throughput_generated:
  assumes "known w s n op" "honest R"
  shows "\<exists>x g'. generate_throughput R w s n g = Inr (x, g') \<and> 0 \<le> x"
  using assms(1)
proof (rule known_lookup)
  fix wl net
  assume k: "lookup WORKLOADS w = Inr wl" "lookup NETWORKS n = Inr net" "0 < sw_base_rate_eps wl"
  have nonneg: "0 \<le> x" if "rg_uniform R lo hi g = (x, g')" "0 \<le> lo" "lo \<le> hi" for lo hi x g'
    using honest_uniform [OF assms(2) that(3) that(1)] that(2) by linarith
  obtain x1 g1 where x1: "rg_uniform R (92/100) (102/100) g = (x1, g1)" by (rule prod.exhaust)
  obtain x2 g2 where x2: "rg_uniform R (85/100) (95/100) g = (x2, g2)" by (rule prod.exhaust)
  obtain x3 g3 where x3: "rg_uniform R (88/100) (97/100) g = (x3, g3)" by (rule prod.exhaust)
  have "0 \<le> x1" "0 \<le> x2" "0 \<le> x3" using nonneg [OF x1] nonneg [OF x2] nonneg [OF x3] by simp_all
  then show ?thesis unfolding generate_throughput_def k(1,2) x1 x2 x3 bind_res.simps prod.case using k(3) by auto
qed

lemma pause_generated:
  assumes "honest R"
  shows "fst (generate_migration_pause R s n g) = 0 \<or>
    s = ''HybridStream'' \<and> 45 \<le> fst (generate_migration_pause R s n g) \<and> fst (generate_migration_pause R s n g) \<le> 234"
proof -
  obtain draw g1 where d: "rg_random R g = (draw, g1)" by (rule prod.exhaust)
  obtain x g2 where x: "rg_uniform R 45 180 g1 = (x, g2)" by (rule prod.exhaust)
  have "45 \<le> x \<and> x \<le> 180" using honest_uniform [OF assms _ x] by simp
  then show ?thesis unfolding generate_migration_pause_def Let_def d prod.case x by auto
qed

lemma overhead_generated:
  assumes "honest R"
  shows "if s = ''HybridStream'' then 25/10 \<le> fst (generate_aode_overhead R s g) \<and> fst (generate_aode_overhead R s g) \<le> 8
    else fst (generate_aode_overhead R s g) = 0"
  using assms [unfolded honest_def, rule_format, of "25/10" 8 g] by (simp add: generate_aode_overhead_def)

lemma utilization_generated:
  assumes "known w s n op" "honest R"
  shows "\<exists>x g'. generate_edge_utilization R s w n g = Inr (x, g') \<and> 2/100 \<le> x \<and> x \<le> 95/100"
  using assms(1)
proof (rule known_lookup)
  fix wl
  assume k: "lookup WORKLOADS w = Inr wl"
  have clamp: "2/100 \<le> min (95/100) (max lo y) \<and> min (95/100) (max lo y) \<le> 95/100" if "2/100 \<le> lo" for lo y :: real
    using that by (simp add: le_max_iff_disj)
  obtain x g1 where x: "rg_uniform R (2/100) (8/100) g = (x, g1)" by (rule prod.exhaust)
  have "2/100 \<le> x \<and> x \<le> 8/100" using honest_uniform [OF assms(2) _ x] by simp
  note x_range = this
  obtain y g2 where y: "rg_normal R 0 (4/100) g = (y, g2)" by (rule prod.exhaust)
  obtain z g3 where z: "rg_normal R 0 (6/100) g = (z, g3)" by (rule prod.exhaust)
  show ?thesis
  proof (cases "s = ''B1''")
    case True
    then show ?thesis using x_range unfolding generate_edge_utilization_def x by simp
  next
    case False
    then have "\<exists>lo v g'. generate_edge_utilization R s w n g = Inr (min (95/100) (max lo v), g') \<and> 2/100 \<le> lo"
      unfolding generate_edge_utilization_def k bind_res.simps Let_def y z prod.case
      by (cases "s = ''HybridStream''") auto
    then show ?thesis using clamp by blast
  qed
qed

text \<open>A row whose metrics are within the ranges of its system.\<close>

definition plausible :: "string \<Rightarrow> result_row \<Rightarrow> bool" where
  "plausible s r \<longleftrightarrow>
     (case rr_m1 r of None \<Rightarrow> False | Some x \<Rightarrow> 1 \<le> x) \<and> (case rr_m2 r of None \<Rightarrow> False | Some x \<Rightarrow> 0 \<le> x \<and> x \<le> 1) \<and>
     0 \<le> rr_m3 r \<and> (rr_m4 r = 0 \<or> s = ''HybridStream'' \<and> 45 \<le> rr_m4 r \<and> rr_m4 r \<le> 234) \<and>
     (if s = ''HybridStream'' then 25/10 \<le> rr_m5 r \<and> rr_m5 r \<le> 8 else rr_m5 r = 0) \<and> 2/100 \<le> rr_m6 r \<and> rr_m6 r \<le> 95/100"

lemma synth_row_ok:
  assumes "known w s n op" "honest R" "lookup WORKLOADS w = Inr wl"
  shows "\<exists>r g'. synth_row R wl w s n rep t op g = Inr (r, g') \<and> rr_timestamp_s r = t \<and> rr_operator_type r = op \<and>
    rr_config_id r = w @ ''-'' @ s @ ''-'' @ n \<and> rr_repetition r = rep \<and> plausible s r"
proof -
  obtain x1 g1 where x1: "generate_p95_latency R w s n op g = Inr (x1, g1)" "1 \<le> x1" using p95_generated [OF assms(1), of R g] by blast
  obtain x2 g2 where x2: "generate_slo_compliance R x1 (sw_slo_ms wl) s g1 = (x2, g2)" by (rule prod.exhaust)
  obtain x3 g3 where x3: "generate_throughput R w s n g2 = Inr (x3, g3)" "0 \<le> x3" using throughput_generated [OF assms(1,2), of g2] by blast
  obtain x4 g4 where x4: "generate_migration_pause R s n g3 = (x4, g4)" by (rule prod.exhaust)
  obtain x5 g5 where x5: "generate_aode_overhead R s g4 = (x5, g5)" by (rule prod.exhaust)
  obtain x6 g6 where x6: "generate_edge_utilization R s w n g5 = Inr (x6, g6)" "2/100 \<le> x6" "x6 \<le> 95/100"
    using utilization_generated [OF assms(1,2), of g5] by blast
  have r1: "1 \<le> py_round 2 x1" using py_round_ge [of 100 x1 2] x1(2) by simp
  have "0 \<le> x2 \<and> x2 \<le> 1" using compliance_generated [OF assms(2), of x1 "sw_slo_ms wl" s g1] x2 by simp
  then have r2: "0 \<le> py_round 4 x2 \<and> py_round 4 x2 \<le> 1" using py_round_ge [of 0 x2 4] py_round_le [of x2 4 10000] by simp
  have r3: "0 \<le> py_round 1 x3" using py_round_ge [of 0 x3 1] x3(2) by simp
  have "x4 = 0 \<or> s = ''HybridStream'' \<and> 45 \<le> x4 \<and> x4 \<le> 234" using pause_generated [OF assms(2), of s n g3] x4 by simp
  then have r4: "py_round 1 x4 = 0 \<or> s = ''HybridStream'' \<and> 45 \<le> py_round 1 x4 \<and> py_round 1 x4 \<le> 234"
    using py_round_ge [of 450 x4 1] py_round_le [of x4 1 2340] by (auto simp: py_round_def round_half_even_def)
  have "if s = ''HybridStream'' then 25/10 \<le> x5 \<and> x5 \<le> 8 else x5 = 0" using overhead_generated [OF assms(2), of s g4] unfolding x5 fst_conv .
  then have r5: "if s = ''HybridStream'' then 25/10 \<le> py_round 2 x5 \<and> py_round 2 x5 \<le> 8 else py_round 2 x5 = 0"
    using py_round_ge [of 250 x5 2] py_round_le [of x5 2 800] by (auto simp: py_round_def round_half_even_def split: if_splits)
  have r6: "2/100 \<le> py_round 4 x6 \<and> py_round 4 x6 \<le> 95/100"
    using py_round_ge [of 200 x6 4] py_round_le [of x6 4 9500] x6(2,3) by simp
  show ?thesis
    unfolding synth_row_def x1(1) x2 x3(1) x4 x5 x6(1) bind_res.simps prod.case
    using r1 r2 r3 r4 r5 r6 by (auto simp: plausible_def split: if_splits)
qed

lemma for_each_ok:
  assumes "\<And>x g. x \<in> set xs \<Longrightarrow> \<exists>y g'. f x g = Inr (y, g') \<and> Q x y"
  shows "\<exists>ys g'. for_each f xs g = Inr (ys, g') \<and> list_all2 Q xs ys"
  using assms
proof (induction xs arbitrary: g)
  case (Cons x xs)
  obtain y g1 where y: "f x g = Inr (y, g1)" "Q x y" using Cons.prems [of x g] by auto
  obtain ys g2 where "for_each f xs g1 = Inr (ys, g2)" "list_all2 Q xs ys"
    using Cons.IH [of g1] Cons.prems by (meson list.set_intros(2))
  then show ?case using y by simp
qed simp

lemma list_all2_maps: "list_all2 (\<lambda>x y. f x = g y \<and> P x y) xs ys \<Longrightarrow> map f xs = map g ys"
  by (induction rule: list_all2_induct) simp_all

text \<open>A file of a run: a row for every window and every operator in order, all within the ranges of the system.\<close>

definition full_file :: "string \<Rightarrow> string \<Rightarrow> string \<Rightarrow> nat \<Rightarrow> string \<times> nat \<times> result_row list \<Rightarrow> bool" where
  "full_file w s n rep = (\<lambda>(cid, rep', rows).
     cid = w @ ''-'' @ s @ ''-'' @ n \<and> rep' = rep \<and>
     list_all (\<lambda>r. rr_config_id r = cid \<and> rr_repetition r = int rep \<and> plausible s r) rows \<and>
     map (\<lambda>r. (rr_timestamp_s r, rr_operator_type r)) rows =
       map (\<lambda>(i, op). (of_nat i * 5, op)) (List.product [0..<120] (case dict_get WORKLOADS w of Some wl \<Rightarrow> sw_operators wl | None \<Rightarrow> [])))"

lemma in_cells:
  assumes "dict_get WORKLOADS w = Some wl" "s \<in> set SYSTEMS" "n \<in> set (map fst NETWORKS)" "op \<in> set (sw_operators wl)"
  shows "known w s n op"
proof -
  have "(w, wl) \<in> set WORKLOADS" using assms(1) by (rule map_of_SomeD)
  then show ?thesis unfolding known_def cells_def set_concat set_map UN_simps
    by (rule UN_I) (use assms(2-4) in simp)
qed

lemma synth_file_ok:
  assumes "dict_get WORKLOADS w = Some wl" "s \<in> set SYSTEMS" "n \<in> set (map fst NETWORKS)" "honest R"
  shows "\<exists>f g'. synth_file R wl w s n rep g = Inr (f, g') \<and> full_file w s n rep f"
proof -
  have wl: "lookup WORKLOADS w = Inr wl" using assms(1) by (simp add: lookup_def)
  have dur: "sw_duration_s wl div 5 = 120" using assms(1) by (auto simp: WORKLOADS_def split: if_splits)
  let ?xs = "List.product [0..<120] (sw_operators wl)"
  let ?Q = "\<lambda>(i, op) r. (of_nat i * 5, op) = (rr_timestamp_s r, rr_operator_type r) \<and>
      rr_config_id r = w @ ''-'' @ s @ ''-'' @ n \<and> rr_repetition r = int rep \<and> plausible s r"
  let ?f = "\<lambda>(i, op). synth_row R wl w s n (int rep) (of_nat i * 5) op"
  have "\<exists>r g'. ?f x g = Inr (r, g') \<and> ?Q x r" if "x \<in> set ?xs" for x g
  proof -
    obtain i op where x: "x = (i, op)" by (rule prod.exhaust)
    have "op \<in> set (sw_operators wl)" using that by (auto simp: x)
    from synth_row_ok [OF in_cells [OF assms(1-3) this] assms(4) wl, of "int rep" "of_nat i * 5" g]
    show ?thesis unfolding x prod.case by (elim exE) (auto intro!: exI)
  qed
  from for_each_ok [of ?xs ?f ?Q g, OF this]
  obtain rows g' where rows: "for_each ?f ?xs g = Inr (rows, g')" "list_all2 ?Q ?xs rows" by blast
  have "map (\<lambda>(i, op). (of_nat i * 5, op)) xs = map (\<lambda>r. (rr_timestamp_s r, rr_operator_type r)) rs \<and>
      list_all (\<lambda>r. rr_config_id r = w @ ''-'' @ s @ ''-'' @ n \<and> rr_repetition r = int rep \<and> plausible s r) rs"
    if "list_all2 ?Q xs rs" for xs rs
    using that by (induction rule: list_all2_induct) auto
  from this [OF rows(2)] show ?thesis
    unfolding synth_file_def Let_def dur rows(1) bind_res.simps prod.case full_file_def by (simp add: assms(1))
qed

lemma generate_all_full:
  assumes "honest R"
  shows "\<exists>files. generate_all R = Inr files \<and> length files = 270 \<and>
    list_all2 (\<lambda>(w, s, n, rep). full_file w s n rep)
      (List.product [''W1'', ''W2'', ''W3''] (List.product [''HybridStream'', ''B1'', ''B2''] (List.product [''N1'', ''N2'', ''N3''] [1..<11])))
      files"
proof -
  let ?runs = "List.product [''W1'', ''W2'', ''W3''] (List.product SYSTEMS (List.product [''N1'', ''N2'', ''N3''] [1..<11]))"
  let ?f = "\<lambda>(w, s, n, rep) g. bind_res (lookup WORKLOADS w) (\<lambda>wl. synth_file R wl w s n rep g)"
  have "\<exists>f g'. ?f x g = Inr (f, g') \<and> (\<lambda>(w, s, n, rep). full_file w s n rep) x f" if "x \<in> set ?runs" for x g
  proof -
    obtain w s n rep where x: "x = (w, s, n, rep)" by (rule prod_cases4)
    have mem: "w \<in> set [''W1'', ''W2'', ''W3'']" "s \<in> set SYSTEMS" "n \<in> set [''N1'', ''N2'', ''N3'']"
      using that unfolding x by (auto simp del: upt_rec_numeral)
    have n: "n \<in> set (map fst NETWORKS)" using mem(3) by (simp add: NETWORKS_def)
    obtain wl where wl: "dict_get WORKLOADS w = Some wl" using mem(1) by (auto simp: WORKLOADS_def)
    from synth_file_ok [OF wl mem(2) n assms, of rep g] show ?thesis
      unfolding x prod.case by (simp add: lookup_def wl)
  qed
  from for_each_ok [of ?runs ?f "\<lambda>(w, s, n, rep). full_file w s n rep" "rg_seed R 42", OF this]
  obtain files g' where files: "for_each ?f ?runs (rg_seed R 42) = Inr (files, g')"
      "list_all2 (\<lambda>(w, s, n, rep). full_file w s n rep) ?runs files" by blast
  have "length ?runs = 270" by (simp add: SYSTEMS_def length_product del: upt_rec_numeral)
  then have "length files = 270" using list_all2_lengthD [OF files(2)] by simp
  then show ?thesis
    unfolding generate_all_def files(1) bind_res.simps prod.case using files(2) unfolding SYSTEMS_def by blast
qed

text \<open>C40: The generator writes every run.  Unless a draw leaves its bounds it writes the 270 files of the matrix, ten
  repetitions of every configuration, each with a row for every operator in each of its 120 windows of five
  seconds, and every row is within the ranges its metrics have: latencies of at least a millisecond, compliance
  within 0 and 1, utilization within 0.02 and 0.95, and pauses and overhead for HybridStream only.\<close>

theorem synthetic_results_complete:
  assumes "honest R"
  shows "\<exists>files. generate_all R = Inr files \<and> length files = 270 \<and>
    list_all2 (\<lambda>(w, s, n, rep). full_file w s n rep)
      (List.product [''W1'', ''W2'', ''W3''] (List.product [''HybridStream'', ''B1'', ''B2''] (List.product [''N1'', ''N2'', ''N3''] [1..<11])))
      files"
  by (rule generate_all_full [OF assms])

text \<open>A generator whose draws are the lowest they can be.\<close>

definition low_rng :: "unit rng_ops" where
  "low_rng = \<lparr>rg_uniform = (\<lambda>lo hi g. (lo, g)), rg_normal = (\<lambda>mu sigma g. (mu, g)), rg_random = (\<lambda>g. (0, g)), rg_seed = (\<lambda>_. ())\<rparr>"

theorem synthetic_results_complete_witness:
  "\<exists>files. generate_all low_rng = Inr files \<and> length files = 270"
proof -
  have "honest low_rng" by (simp add: honest_def low_rng_def)
  from synthetic_results_complete [OF this] show ?thesis by blast
qed

definition noiseless_p95 :: "string \<Rightarrow> string \<Rightarrow> string \<Rightarrow> string \<Rightarrow> real" where
  "noiseless_p95 w s n op = (case generate_p95_latency low_rng w s n op () of Inr (x, _) \<Rightarrow> x | Inl _ \<Rightarrow> 0)"

text \<open>The comparison is decided by the generator.  Without noise, the latency it gives HybridStream is below that of
  the static placement, which is below that of the cloud, for every operator of every workload on every
  network.\<close>

theorem synthetic_latency_order:
  "list_all (\<lambda>(w, n, op). noiseless_p95 w ''HybridStream'' n op < noiseless_p95 w ''B2'' n op \<and>
       noiseless_p95 w ''B2'' n op < noiseless_p95 w ''B1'' n op)
     (concat (map (\<lambda>(w, wl). List.product [w] (List.product [''N1'', ''N2'', ''N3''] (sw_operators wl))) WORKLOADS))"
  by code_simp

end
