(* ===== verification/Report.thy ===== *)
theory Report
  imports Figures Synthetic
begin

text \<open>
  The analysis of all results (\<open>experiments/scripts/run_analysis.py\<close>): the lines it prints, from loading the result
  files to the names of the figures and tables.  Characters outside ASCII are their UTF-8 bytes.
\<close>

section \<open>Formats\<close>

text \<open>\<open>{s:nw}\<close> of a text is filled on the right, \<open>{x:w.nf}\<close> of a number on the left.\<close>

definition pad_right :: "nat \<Rightarrow> string \<Rightarrow> string" where
  "pad_right w s = s @ replicate (w - length s) (CHR '' '')"

definition pad_left :: "nat \<Rightarrow> string \<Rightarrow> string" where
  "pad_left w s = replicate (w - length s) (CHR '' '') @ s"

definition rule_line :: string where
  "rule_line = concat (replicate 60 [CHR 0xE2, CHR 0x94, CHR 0x80])"

text \<open>The pictures that the headings start with.\<close>

definition pictures :: "(string \<times> string) list" where
  "pictures =
     [(''bars'', [CHR 0xF0, CHR 0x9F, CHR 0x93, CHR 0x8A]), (''rising'', [CHR 0xF0, CHR 0x9F, CHR 0x93, CHR 0x88]),
      (''arrows'', [CHR 0xF0, CHR 0x9F, CHR 0x94, CHR 0x84]), (''falling'', [CHR 0xF0, CHR 0x9F, CHR 0x93, CHR 0x89]),
      (''clipboard'', [CHR 0xF0, CHR 0x9F, CHR 0x93, CHR 0x8B]), (''check'', [CHR 0xE2, CHR 0x9C, CHR 0x85])]"

abbreviation heading :: "string \<Rightarrow> string \<Rightarrow> string" where
  "heading picture s \<equiv> the (map_of pictures picture) @ '' '' @ s"

section \<open>The summary\<close>

text \<open>The line of a cell, when it has rows.\<close>

definition cell_line :: "'g libs \<Rightarrow> labelled_row list \<Rightarrow> string \<Rightarrow> string \<Rightarrow> string \<Rightarrow> string list" where
  "cell_line np df workload network system =
     (let subset = map fst (filter (\<lambda>(r, w, s, n). w = Some workload \<and> n = Some network \<and> s = Some system) df)
      in if subset = [] then []
         else [''    '' @ pad_right 15 system @ ''  p95='' @ pad_left 6 (stat_text 1 (pd_median np) (map rr_m1 subset)) @
                ''ms  SLO='' @ pad_left 5 (stat_text 1 (\<lambda>xs. mean_of xs * 100) (map rr_m2 subset)) @
                ''%  throughput='' @ pad_left 6 (stat_text 1 (\<lambda>xs. pd_median np xs / 1000) (map (\<lambda>r. Some (rr_m3 r)) subset)) @ ''k eps''])"

definition summary_lines :: "'g libs \<Rightarrow> labelled_row list \<Rightarrow> string list" where
  "summary_lines np df =
     concat (map (\<lambda>workload. [[], rule_line, ''  '' @ workload, rule_line] @
       concat (map (\<lambda>network. [[], ''  Network: '' @ network] @
         concat (map (cell_line np df workload network) [''HybridStream'', ''B1'', ''B2'']))
       [''N1'', ''N2'', ''N3''])) [''W1'', ''W2'', ''W3''])"

section \<open>The tests\<close>

definition contains :: "string \<Rightarrow> string \<Rightarrow> bool" where
  "contains sub s \<longleftrightarrow> list_ex (\<lambda>i. take (length sub) (drop i s) = sub) [0..<Suc (length s)]"

definition percent_of :: "ComparisonResult \<Rightarrow> real" where
  "percent_of c = (if cr_median_b c \<noteq> 0 then \<bar>cr_median_diff c / cr_median_b c\<bar> * 100 else 0)"

definition direction_of :: "ComparisonResult \<Rightarrow> string" where
  "direction_of c = (if cr_median_diff c < 0 then ''lower'' else ''higher'')"

definition key_line :: "ComparisonResult \<Rightarrow> string" where
  "key_line c =
     ''    '' @ cr_group_a_label c @ '' vs '' @ cr_group_b_label c @ '': '' @ fixed 1 (percent_of c) @ ''% '' @ direction_of c @
     '' latency (p='' @ fixed 4 (cr_bonferroni_p c) @ '', r='' @ fixed 3 (cr_effect_size_r c) @ '')''"

definition key_comparison :: "ComparisonResult \<Rightarrow> bool" where
  "key_comparison c \<longleftrightarrow> cr_significant c \<and> contains ''m1_p95_latency_ms'' (cr_metric c)"

definition test_lines :: "ComparisonResult list \<Rightarrow> string list" where
  "test_lines comparisons =
     [[], heading ''rising'' (''STATISTICAL TESTS: '' @ show_nat (length (filter cr_significant comparisons)) @ ''/'' @
            show_nat (length comparisons) @ '' significant (Bonferroni-corrected)''),
      [], ''  Key comparisons (HybridStream vs baselines):''] @
     map key_line (filter key_comparison comparisons)"

section \<open>The whole report\<close>

text \<open>
  In the column of a data frame that has a number, a missing value becomes not a number, so the test for \<open>None\<close>
  never succeeds.
\<close>

definition pause_line :: "string \<times> real option \<Rightarrow> string" where
  "pause_line = (\<lambda>(metric, v). ''    '' @ pad_right 12 metric @ '': '' @ (case v of Some x \<Rightarrow> fixed 1 x | None \<Rightarrow> ''nan''))"

text \<open>The second table is reported under the name of its CSV file.\<close>

definition table_names :: "(string \<times> string) list \<Rightarrow> string list" where
  "table_names tables = map (\<lambda>(name, _). if name = ''summary_table.tex'' then ''summary_table.csv'' else name) tables"

definition report_lines :: "'g libs \<Rightarrow> labelled_row list \<Rightarrow> ComparisonResult list \<Rightarrow> (string \<times> string) list \<Rightarrow> string list" where
  "report_lines np df comparisons tables =
     [[], heading ''bars'' ''EXPERIMENT SUMMARY'', replicate 60 (CHR ''='')] @ summary_lines np df @ test_lines comparisons @
     [[], heading ''arrows'' ''MIGRATION PAUSES (M4):''] @ map pause_line (summarize_m4_migration_pauses np df) @
     (let figures = generate_all_figures np df
      in [[], heading ''falling'' (''FIGURES: '' @ show_nat (length figures) @ '' generated'')] @ map (\<lambda>f. ''    '' @ fg_file f) figures) @
     [[], heading ''clipboard'' (''TABLES: '' @ show_nat (length tables) @ '' generated'')] @ map (\<lambda>t. ''    '' @ t) (table_names tables) @
     [[], heading ''check'' ''Analysis complete! Results in experiments/results/'']"

definition run_analysis :: "'g libs \<Rightarrow> result_row list list \<Rightarrow> string list res" where
  "run_analysis np files =
     bind_res (load_all_results files) (\<lambda>df.
     bind_res (run_all_pairwise_comparisons np df) (\<lambda>comparisons.
     bind_res (generate_all_tables np df) (\<lambda>tables.
       Inr (report_lines np df comparisons tables))))"

section \<open>What the report says of the tests\<close>

lemma report_printed:
  assumes "load_all_results files = Inr df" "run_all_pairwise_comparisons np df = Inr cs"
  shows "\<exists>tables. run_analysis np files = Inr (report_lines np df cs tables) \<and> length tables = 2"
proof -
  let ?tables = "[(''comparison_table.tex'', generate_comparison_table_latex cs), (''summary_table.tex'', snd (generate_summary_table np df))]"
  have "run_analysis np files = Inr (report_lines np df cs ?tables)"
    using assms by (simp add: run_analysis_def generate_all_tables_def)
  moreover have "length ?tables = 2" by simp
  ultimately show ?thesis by blast
qed

text \<open>The report names the right winner.  Whatever results are loaded, the report is printed, its lines on latencies are
  those of the significant comparisons of the latency, in order, and each says that the first system of the
  comparison has the lower latency exactly when its median is below that of the other.\<close>

theorem report_key_lines:
  assumes "load_all_results files = Inr df"
  shows "\<exists>cs tables. run_analysis np files = Inr (report_lines np df cs tables) \<and> run_all_pairwise_comparisons np df = Inr cs \<and>
    drop 4 (test_lines cs) = map key_line (filter key_comparison cs) \<and>
    list_all (\<lambda>c. key_comparison c = (cr_bonferroni_p c < 5/100 \<and> cr_metric c = ''m1_p95_latency_ms'')) cs \<and>
    list_all (\<lambda>c. direction_of c = (if cr_median_a c < cr_median_b c then ''lower'' else ''higher'')) cs"
proof -
  obtain cs where cs: "run_all_pairwise_comparisons np df = Inr cs" "list_all corrected cs"
      "map key_of cs = concat (map cell_keys (filter (complete_cell np df) comparison_cells))"
    using compare_cells_ok [of np df comparison_cells "[]"] unfolding run_all_pairwise_comparisons_def by auto
  obtain tables where run: "run_analysis np files = Inr (report_lines np df cs tables)"
    using report_printed [OF assms cs(1)] by blast
  have "list_all (\<lambda>(w, n, m). m \<in> {''m1_p95_latency_ms'', ''m2_slo_compliance'', ''m3_throughput_eps''}) comparison_cells"
    by (simp add: comparison_cells_def)
  then have "cr_metric c \<in> {''m1_p95_latency_ms'', ''m2_slo_compliance'', ''m3_throughput_eps''}" if "c \<in> set cs" for c
  proof -
    have "key_of c \<in> set (map key_of cs)" using that by simp
    then obtain w n m where "(w, n, m) \<in> set comparison_cells" "fst (key_of c) = m"
      unfolding cs(3) by (auto simp: cell_keys_def)
    with \<open>list_all _ comparison_cells\<close> show ?thesis by (fastforce simp: list_all_iff key_of_def)
  qed
  moreover have "contains ''m1_p95_latency_ms'' ''m1_p95_latency_ms''" "\<not> contains ''m1_p95_latency_ms'' ''m2_slo_compliance''"
    "\<not> contains ''m1_p95_latency_ms'' ''m3_throughput_eps''"
    by code_simp+
  ultimately have metric: "contains ''m1_p95_latency_ms'' (cr_metric c) = (cr_metric c = ''m1_p95_latency_ms'')" if "c \<in> set cs" for c
    using that by fastforce
  have "list_all (\<lambda>c. key_comparison c = (cr_bonferroni_p c < 5/100 \<and> cr_metric c = ''m1_p95_latency_ms'')) cs"
    using metric cs(2) by (auto simp: list_all_iff key_comparison_def corrected_def)
  moreover have "list_all (\<lambda>c. direction_of c = (if cr_median_a c < cr_median_b c then ''lower'' else ''higher'')) cs"
    using cs(2) by (auto simp: list_all_iff direction_of_def corrected_def)
  moreover have "drop 4 (test_lines cs) = map key_line (filter key_comparison cs)" by (simp add: test_lines_def)
  ultimately show ?thesis using run cs(1) by blast
qed

theorem report_key_lines_witness:
  "\<not> isl (run_analysis demo_libs [[fst (figure_row 9 None)]])"
proof -
  have "split_at_most 2 ''W1-B1-N2'' = [''W1'', ''B1'', ''N2'']" by code_simp
  then have "load_all_results [[fst (figure_row 9 None)]] = Inr [figure_row 9 None]"
    by (simp add: load_all_results_def figure_row_def Let_def)
  from report_key_lines [OF this, of demo_libs] show ?thesis by (auto simp: isl_def)
qed

section \<open>The report on the synthetic results\<close>

lemma split_config:
  assumes "CHR ''-'' \<notin> set w" "CHR ''-'' \<notin> set s" "CHR ''-'' \<notin> set n"
  shows "split_at_most 2 (w @ ''-'' @ s @ ''-'' @ n) = [w, s, n]"
proof -
  have drop: "dropWhile (\<lambda>c. c \<noteq> CHR ''-'') (a @ CHR ''-'' # b) = CHR ''-'' # b"
    and take: "takeWhile (\<lambda>c. c \<noteq> CHR ''-'') (a @ CHR ''-'' # b) = a" if "CHR ''-'' \<notin> set a" for a b
    using that by (induction a) auto
  show ?thesis by (simp add: numeral_2_eq_2 drop [OF assms(1)] take [OF assms(1)] drop [OF assms(2)] take [OF assms(2)])
qed

definition synth_runs :: "(string \<times> string \<times> string \<times> nat) list" where
  "synth_runs = List.product [''W1'', ''W2'', ''W3''] (List.product SYSTEMS (List.product [''N1'', ''N2'', ''N3''] [1..<11]))"

definition rows_of :: "string \<times> nat \<times> result_row list \<Rightarrow> result_row list" where
  "rows_of = (\<lambda>(cid, rep, rows). rows)"

lemma synth_runs_iff:
  "(w, s, n, rep) \<in> set synth_runs \<longleftrightarrow> w \<in> {''W1'', ''W2'', ''W3''} \<and> s \<in> {''HybridStream'', ''B1'', ''B2''} \<and> n \<in> {''N1'', ''N2'', ''N3''} \<and> rep \<in> {1..<11}"
  by (auto simp: synth_runs_def SYSTEMS_def simp del: upt_rec_numeral)

lemma full_file_rows:
  assumes "full_file w s n rep f" "(w, s, n, rep) \<in> set synth_runs" "r \<in> set (rows_of f)"
  shows "split_at_most 2 (rr_config_id r) = [w, s, n]" "rr_repetition r = int rep"
proof -
  obtain cid rep' rows where f: "f = (cid, rep', rows)" by (rule prod_cases3)
  have r: "rr_config_id r = w @ ''-'' @ s @ ''-'' @ n \<and> rr_repetition r = int rep"
    using assms(1,3) by (auto simp: f full_file_def rows_of_def list_all_iff)
  have "CHR ''-'' \<notin> set w" "CHR ''-'' \<notin> set s" "CHR ''-'' \<notin> set n"
    using assms(2) unfolding synth_runs_iff by auto
  from split_config [OF this] r show "split_at_most 2 (rr_config_id r) = [w, s, n]" "rr_repetition r = int rep" by simp_all
qed

lemma full_file_late_row:
  assumes "full_file w s n rep f" "(w, s, n, rep) \<in> set synth_runs"
  shows "\<exists>r \<in> set (rows_of f). 120 \<le> rr_timestamp_s r"
proof -
  obtain cid rep' rows where f: "f = (cid, rep', rows)" by (rule prod_cases3)
  have "w \<in> {''W1'', ''W2'', ''W3''}" using assms(2) unfolding synth_runs_iff by blast
  then obtain wl where wl: "dict_get WORKLOADS w = Some wl" "sw_operators wl \<noteq> []" by (auto simp: WORKLOADS_def)
  obtain op where op: "op \<in> set (sw_operators wl)" using wl(2) by (cases "sw_operators wl") auto
  have "(24, op) \<in> set (List.product [0..<120] (sw_operators wl))" using op by (simp del: upt_rec_numeral)
  then have "(120, op) \<in> (\<lambda>(i, op). (of_nat i * 5, op)) ` set (List.product [0..<120] (sw_operators wl))"
    by (rule rev_image_eqI) simp
  then have "(120, op) \<in> set (map (\<lambda>r. (rr_timestamp_s r, rr_operator_type r)) rows)"
    using assms(1) unfolding f full_file_def prod.case by (simp add: wl(1) del: upt_rec_numeral)
  then obtain r where "r \<in> set rows" "rr_timestamp_s r = 120" by auto
  then show ?thesis by (intro bexI [of _ r]) (simp_all add: f rows_of_def)
qed

lemma list_all2_partner:
  "list_all2 P xs ys \<Longrightarrow> y \<in> set ys \<Longrightarrow> \<exists>x \<in> set xs. P x y"
  "list_all2 P xs ys \<Longrightarrow> x \<in> set xs \<Longrightarrow> \<exists>y \<in> set ys. P x y"
  by (induction rule: list_all2_induct) auto

text \<open>The synthetic files, by the runs they are of.\<close>

lemma synth_files:
  assumes "honest R"
  obtains files where "generate_all R = Inr files" "files \<noteq> []"
    "\<And>f. f \<in> set files \<Longrightarrow> \<exists>w s n rep. (w, s, n, rep) \<in> set synth_runs \<and> full_file w s n rep f"
    "\<And>w s n rep. (w, s, n, rep) \<in> set synth_runs \<Longrightarrow> \<exists>f \<in> set files. full_file w s n rep f"
proof -
  obtain files where files: "generate_all R = Inr files" "length files = 270"
    "list_all2 (\<lambda>(w, s, n, rep). full_file w s n rep) synth_runs files"
    using generate_all_full [OF assms] unfolding synth_runs_def SYSTEMS_def by blast
  show ?thesis
  proof (rule that [OF files(1)])
    show "files \<noteq> []" using files(2) by auto
    show "\<exists>w s n rep. (w, s, n, rep) \<in> set synth_runs \<and> full_file w s n rep f" if f: "f \<in> set files" for f
    proof -
      obtain x where "x \<in> set synth_runs" "(\<lambda>(w, s, n, rep). full_file w s n rep) x f"
        using list_all2_partner(1) [OF files(3) f] by blast
      then show ?thesis by (cases x rule: prod_cases4) auto
    qed
    show "\<exists>f \<in> set files. full_file w s n rep f" if "(w, s, n, rep) \<in> set synth_runs" for w s n rep
      using list_all2_partner(2) [OF files(3) that] by simp
  qed
qed

definition synth_label :: "result_row \<Rightarrow> labelled_row" where
  "synth_label r = (let parts = split_at_most 2 (rr_config_id r) in (r, Some (parts ! 0), Some (parts ! 1), Some (parts ! 2)))"

lemma synth_loaded:
  assumes "files \<noteq> []" "\<And>f. f \<in> set files \<Longrightarrow> \<exists>w s n rep. (w, s, n, rep) \<in> set synth_runs \<and> full_file w s n rep f"
  shows "load_all_results (map rows_of files) = Inr (map synth_label (filter (\<lambda>r. 120 \<le> rr_timestamp_s r) (concat (map rows_of files))))"
proof -
  have three: "length (split_at_most 2 (rr_config_id r)) = 3" if "r \<in> set (concat (map rows_of files))" for r
    using that assms(2) full_file_rows(1) by fastforce
  obtain f where f: "f \<in> set files" using assms(1) by (cases files) auto
  then obtain w s n rep where "(w, s, n, rep) \<in> set synth_runs" "full_file w s n rep f" using assms(2) by blast
  then obtain r where r: "r \<in> set (rows_of f)" using full_file_late_row by blast
  have late: "\<not> list_all (\<lambda>r. length (split_at_most 2 (rr_config_id r)) < 3) (concat (map rows_of files))"
    using three f r by (fastforce simp: list_all_iff)
  let ?part = "\<lambda>r i. if i < length (split_at_most 2 (rr_config_id r)) then Some (split_at_most 2 (rr_config_id r) ! i) else None"
  let ?late = "filter (\<lambda>r. 120 \<le> rr_timestamp_s r) (concat (map rows_of files))"
  have "map (\<lambda>r. (r, ?part r 0, ?part r 1, ?part r 2)) ?late = map synth_label ?late"
  proof (rule map_cong [OF refl])
    fix r assume "r \<in> set ?late"
    then have "length (split_at_most 2 (rr_config_id r)) = 3" using three by simp
    then show "(r, ?part r 0, ?part r 1, ?part r 2) = synth_label r" by (simp add: synth_label_def Let_def)
  qed
  then show ?thesis
    unfolding load_all_results_def Let_def by (simp only: late assms(1) map_is_Nil_conv if_False)
qed

lemma synth_repetitions:
  assumes "w \<in> {''W1'', ''W2'', ''W3''}" "s \<in> {''HybridStream'', ''B1'', ''B2''}" "n \<in> {''N1'', ''N2'', ''N3''}"
    and "\<And>f. f \<in> set files \<Longrightarrow> \<exists>w s n rep. (w, s, n, rep) \<in> set synth_runs \<and> full_file w s n rep f"
    and "\<And>w s n rep. (w, s, n, rep) \<in> set synth_runs \<Longrightarrow> \<exists>f \<in> set files. full_file w s n rep f"
  shows "rr_repetition ` fst ` set (filter (\<lambda>(r, w', s', n'). w' = Some w \<and> n' = Some n \<and> s' = Some s)
      (map synth_label (filter (\<lambda>r. 120 \<le> rr_timestamp_s r) (concat (map rows_of files))))) = int ` {1..<11}"
    (is "rr_repetition ` fst ` set (filter ?P (map synth_label ?rows)) = _")
proof (intro equalityI subsetI)
  fix k assume "k \<in> rr_repetition ` fst ` set (filter ?P (map synth_label ?rows))"
  then obtain r f where r: "k = rr_repetition r" "r \<in> set (rows_of f)" "f \<in> set files" "?P (synth_label r)"
    by (auto simp: synth_label_def Let_def)
  obtain w' s' n' rep where run: "(w', s', n', rep) \<in> set synth_runs" "full_file w' s' n' rep f" using assms(4) [OF r(3)] by blast
  then show "k \<in> int ` {1..<11}" using full_file_rows(2) [OF run(2,1) r(2)] r(1) unfolding synth_runs_iff by auto
next
  fix k assume "k \<in> int ` {1..<11}"
  then obtain rep where rep: "k = int rep" "rep \<in> {1..<11}" by blast
  then have run: "(w, s, n, rep) \<in> set synth_runs" using assms(1-3) unfolding synth_runs_iff by blast
  obtain f where f: "f \<in> set files" "full_file w s n rep f" using assms(5) [OF run] by blast
  obtain r where r: "r \<in> set (rows_of f)" "120 \<le> rr_timestamp_s r" using full_file_late_row [OF f(2) run] by blast
  have "?P (synth_label r)" "rr_repetition r = k" "fst (synth_label r) = r"
    using full_file_rows [OF f(2) run r(1)] rep(1) by (simp_all add: synth_label_def Let_def)
  moreover have "synth_label r \<in> set (map synth_label ?rows)" using f(1) r by auto
  ultimately have "synth_label r \<in> set (filter ?P (map synth_label ?rows))" "rr_repetition (fst (synth_label r)) = k"
    by (simp_all only: set_filter mem_Collect_eq simp_thms)
  then show "k \<in> rr_repetition ` fst ` set (filter ?P (map synth_label ?rows))" by (blast intro: sym)
qed

text \<open>A cell whose rows are of ten repetitions has ten repetition means and one row of the summary.\<close>

lemma cell_repetitions:
  assumes "\<And>xs. length (group_means np xs) = card (fst ` set xs)"
    and reps: "rr_repetition ` fst ` set (filter (\<lambda>(r, w', s', n'). w' = Some w \<and> n' = Some n \<and> s' = Some s) df) = int ` {1..<11}"
  shows "length (get_reps np df w n s m) = 10"
proof -
  let ?cell = "filter (\<lambda>(r, w', s', n'). w' = Some w \<and> n' = Some n \<and> s' = Some s) df"
  have "fst ` set (map (\<lambda>(r, _). (rr_repetition r, metric_column m r)) ?cell) = rr_repetition ` fst ` set ?cell"
    by (auto simp: image_image split_def)
  then show ?thesis unfolding get_reps_def assms(1) reps by (simp add: card_image)
qed

lemma cell_summary:
  assumes "rr_repetition ` fst ` set (filter (\<lambda>(r, w', s', n'). w' = Some w \<and> n' = Some n \<and> s' = Some s) df) = int ` {1..<11}"
  shows "map (\<lambda>row. (su_workload row, su_network row, su_system row)) (summary_of np df w n s) = [(w, n, s)]"
proof -
  have "filter (\<lambda>(r, w', s', n'). w' = Some w \<and> n' = Some n \<and> s' = Some s) df \<noteq> []"
  proof
    assume "filter (\<lambda>(r, w', s', n'). w' = Some w \<and> n' = Some n \<and> s' = Some s) df = []"
    from assms [unfolded this] show False by simp
  qed
  then show ?thesis by (simp add: summary_of_def Let_def)
qed

text \<open>C39: The synthetic results make a complete report.  Unless a draw leaves its bounds, the generated files load, every one
  of the 27 cells is in the summary, all 54 comparisons are made, and the report is printed with both tables; it
  is what \<open>pandas\<close> documents that the means of a column have one entry for each repetition.\<close>

theorem synthetic_report_complete:
  assumes "honest R" "\<And>xs. length (group_means np xs) = card (fst ` set xs)"
  shows "\<exists>files df cs tables. generate_all R = Inr files \<and> load_all_results (map rows_of files) = Inr df \<and>
    run_all_pairwise_comparisons np df = Inr cs \<and> map key_of cs = concat (map cell_keys comparison_cells) \<and> length cs = 54 \<and>
    map (\<lambda>row. (su_workload row, su_network row, su_system row)) (summary_rows np df) =
      List.product [''W1'', ''W2'', ''W3''] (List.product [''N1'', ''N2'', ''N3''] [''HybridStream'', ''B1'', ''B2'']) \<and>
    run_analysis np (map rows_of files) = Inr (report_lines np df cs tables) \<and> length tables = 2"
proof -
  obtain files where gen: "generate_all R = Inr files" "files \<noteq> []"
    and runs: "\<And>f. f \<in> set files \<Longrightarrow> \<exists>w s n rep. (w, s, n, rep) \<in> set synth_runs \<and> full_file w s n rep f"
      "\<And>w s n rep. (w, s, n, rep) \<in> set synth_runs \<Longrightarrow> \<exists>f \<in> set files. full_file w s n rep f"
    using synth_files [OF assms(1)] by blast
  define df where "df = map synth_label (filter (\<lambda>r. 120 \<le> rr_timestamp_s r) (concat (map rows_of files)))"
  have load: "load_all_results (map rows_of files) = Inr df" unfolding df_def by (rule synth_loaded [OF gen(2) runs(1)])
  let ?cell = "\<lambda>w s n. filter (\<lambda>(r, w', s', n'). w' = Some w \<and> n' = Some n \<and> s' = Some s) df"
  have reps: "rr_repetition ` fst ` set (?cell w s n) = int ` {1..<11}"
    if "w \<in> {''W1'', ''W2'', ''W3''}" "s \<in> {''HybridStream'', ''B1'', ''B2''}" "n \<in> {''N1'', ''N2'', ''N3''}" for w s n
    unfolding df_def using synth_repetitions [OF that runs] .
  have ten: "length (get_reps np df w n s m) = 10"
    if "w \<in> {''W1'', ''W2'', ''W3''}" "s \<in> {''HybridStream'', ''B1'', ''B2''}" "n \<in> {''N1'', ''N2'', ''N3''}" for w s n m
    by (rule cell_repetitions [OF assms(2) reps [OF that]])
  have "list_all (\<lambda>(w, n, m). w \<in> {''W1'', ''W2'', ''W3''} \<and> n \<in> {''N1'', ''N2'', ''N3''}) comparison_cells"
    by (simp add: comparison_cells_def)
  then have complete: "filter (complete_cell np df) comparison_cells = comparison_cells"
    by (auto simp: filter_id_conv list_all_iff complete_cell_def ten)
  obtain cs where cs: "run_all_pairwise_comparisons np df = Inr cs" "map key_of cs = concat (map cell_keys comparison_cells)"
    using compare_cells_ok [of np df comparison_cells "[]"] complete unfolding run_all_pairwise_comparisons_def by auto
  have "length cs = length (concat (map cell_keys comparison_cells))" using arg_cong [OF cs(2), of length] by simp
  also have "\<dots> = 54" by code_simp
  finally have len: "length cs = 54" .
  have one: "map (\<lambda>row. (su_workload row, su_network row, su_system row)) (summary_of np df w n s) = [(w, n, s)]"
    if "w \<in> {''W1'', ''W2'', ''W3''}" "s \<in> {''HybridStream'', ''B1'', ''B2''}" "n \<in> {''N1'', ''N2'', ''N3''}" for w s n
    by (rule cell_summary [OF reps [OF that]])
  have rows: "map (\<lambda>row. (su_workload row, su_network row, su_system row)) (summary_rows np df) =
      List.product [''W1'', ''W2'', ''W3''] (List.product [''N1'', ''N2'', ''N3''] [''HybridStream'', ''B1'', ''B2''])"
    by (simp add: summary_rows_def one)
  from report_printed [OF load cs(1)] obtain tables where
    "run_analysis np (map rows_of files) = Inr (report_lines np df cs tables)" "length tables = 2" by blast
  with gen(1) load cs len rows show ?thesis by blast
qed

theorem synthetic_report_complete_witness:
  "\<exists>files. generate_all low_rng = Inr files \<and>
     \<not> isl (run_analysis (demo_libs\<lparr>group_means := (\<lambda>xs. map (\<lambda>_. 0) (remdups (map fst xs)))\<rparr>) (map rows_of files))"
proof -
  have "honest low_rng" by (simp add: honest_def low_rng_def)
  moreover have "length (group_means (demo_libs\<lparr>group_means := (\<lambda>xs. map (\<lambda>_. 0) (remdups (map fst xs)))\<rparr>) xs) = card (fst ` set xs)" for xs
    by (simp add: length_remdups_card_conv)
  ultimately obtain files df cs tables where "generate_all low_rng = Inr files"
    "run_analysis (demo_libs\<lparr>group_means := (\<lambda>xs. map (\<lambda>_. 0) (remdups (map fst xs)))\<rparr>) (map rows_of files) =
       Inr (report_lines (demo_libs\<lparr>group_means := (\<lambda>xs. map (\<lambda>_. 0) (remdups (map fst xs)))\<rparr>) df cs tables)"
    using synthetic_report_complete [of low_rng] by blast
  then show ?thesis by (intro exI [of _ files]) (simp only: isl_def, simp)
qed

end
