(* ===== verification/Spec2Isabelle.thy ===== *)
theory Spec2Isabelle
  imports Handover Relocation Harness Report
begin

text \<open>
  HybridStream runs pipelines of stateful stream operators on edge nodes and in the cloud and moves operators
  between them.  This library models its Python code.  All paths are under \<open>src/\<close>.

  \<^bold>\<open>The program.\<close>  A workload (\<open>workloads/w1\<close>, \<open>w2\<close>, \<open>w3\<close>) is a graph of operators
  (\<open>hybridstream-common/hybridstream/common/dag_model.py\<close>).  An edge node, the HEA (\<open>hea/hea\<close>), runs operators in
  an engine that reads Kafka topics, hands records to the operators, sends their results on, pauses topics whose
  queues fill up, and can take the state of an operator as a snapshot in an object store.  The decision engine,
  the AODE (\<open>aode/aode\<close>), collects the telemetry of the nodes, scores every operator on every tier, finds a placement
  within the capacities, and migrates an operator in four phases (drain, snapshot, restore, terminate) when a tier
  is better by a threshold.  It keeps the placement in etcd and elects a leader there.  The experiments
  (\<open>experiments\<close>) run every workload under every network and system, store metrics, and compare them.

  \<^bold>\<open>Conventions\<close> (\<open>Prelude\<close>, \<open>Pyval\<close>, \<open>Numerics\<close>).  A class is a record, a method a function of the record that
  returns it changed.  An exception is a value: \<open>'a res\<close> is \<open>py_error + 'a\<close>, and every raise and early return is a
  branch.  A dict is an association list with Python's order (\<open>dict\<close>, \<open>wf_dict\<close>); a dynamically typed record of
  a stream is a \<open>pyval\<close>.  Python's unbounded ints are \<open>int\<close> or \<open>nat\<close>; the two-byte header of a snapshot and the bytes of
  UTF-8 are words.  Floats are reals: there is no rounding but that of \<open>round\<close>, no infinity and no NaN, except where
  a definition says so (the running minimum and maximum of \<open>W3\<close>).  A coroutine is one step where it awaits nothing
  that lets another task change what it reads; where it does, it is several steps and the theorems hold for all
  interleavings (\<open>Migration.orch_step\<close>, \<open>Engine.engine_step\<close>).  What Kafka, MessagePack, S3, etcd, gRPC, the shell,
  \<open>numpy\<close>, \<open>scipy\<close>, \<open>pandas\<close>, a random generator and the clocks answer are parameters; what is assumed of
  them is a hypothesis or a locale, with an instance that satisfies it.

  \<^bold>\<open>Operator graphs\<close> (\<open>Dag\<close>): \<open>dag_model.py\<close>; \<open>topological_order\<close> as Kahn's algorithm with its queue.  Its order is
  topological, it returns one exactly when the graph is well formed and acyclic, and its errors are characterised.

  \<^bold>\<open>Decision engine.\<close>  \<open>Weights\<close> (\<open>scoring/weights.py\<close>), \<open>Telemetry\<close> (\<open>telemetry/collector.py\<close>, \<open>config.py\<close>) and \<open>Scoring\<close>
  (\<open>scoring/algorithm.py\<close>): the score matrix and the greedy placement, which places every operator, respects the
  capacities and leaves no justified envy.  \<open>Etcd\<close> and \<open>Placement\<close> (\<open>etcd/client.py\<close>, \<open>placement/state.py\<close>): the
  client, the election and the cached placement against the contracts of a key-value server.  \<open>Migration\<close>
  (\<open>migration/pctr.py\<close>, \<open>grpc/clients.py\<close>): the four phases for every behaviour of the nodes, and the orchestrator's
  tasks as an inductive step relation with its invariants.  \<open>Optimizer\<close> (\<open>placement/optimizer.py\<close>, \<open>grpc/server.py\<close>):
  which migrations a recalibration starts, and that it is stable.  \<open>AodeMain\<close> (\<open>main.py\<close>): the process from its
  start on, which never decides anything, and that telemetry comes from the node it is filed under.

  \<^bold>\<open>Operators.\<close>  \<open>Operators\<close> (\<open>hea/execution/base_operator.py\<close>) has the contract of an operator as the locale
  \<open>stream_operator\<close> and the run of an operator over its input; \<open>W1\<close>, \<open>W2\<close> and \<open>W3\<close> model the eleven operators and the
  three pipelines, interpret the locale and show what the operators compute.  \<open>Workloads\<close> puts them into one type
  and models the registry (\<open>hea/operator_registry.py\<close>); migrating an operator at any point of its input is
  invisible, for those whose \<open>get_state\<close> is complete.

  \<^bold>\<open>Edge node.\<close>  \<open>Metrics\<close> (\<open>hea/metrics.py\<close>, \<open>config.py\<close>), \<open>Bridge\<close> (\<open>kafka/producer.py\<close>), \<open>Engine\<close>
  (\<open>execution/engine.py\<close>, \<open>decorators.py\<close>) with the engine as a machine of events.  \<open>Delivery\<close> refines a turn of the
  consumer to the operator's own run; \<open>Backpressure\<close> and \<open>Lifecycle\<close> hold the invariants over all interleavings and what
  becomes of queues, pauses and registrations.  \<open>Snapshot\<close> (\<open>common/schema_registry.py\<close>, \<open>snapshot.py\<close>,
  \<open>object_store.py\<close>, \<open>hea/state/snapshot.py\<close>): schemas, serialisation, the store behind the locale \<open>s3_server\<close>, and the
  round trip of a state.  \<open>Relocation\<close> extends the locale of operators to moves through the store and shows that they
  lose nothing under a complete schema.  \<open>StateStore\<close> (\<open>hea/state/store.py\<close>, \<open>checkpoint.py\<close>) refines the key-value store behind the
  locale \<open>kv_store\<close> to maps.  \<open>HeaServer\<close> (\<open>hea/grpc/server.py\<close>, \<open>main.py\<close>): the management calls and the node
  from its start on.  \<open>Json\<close> is the part of the standard library that a node reads drained offsets with, and reads
  back what the engine writes.

  \<^bold>\<open>The two processes together.\<close>  \<open>Serving\<close> (both \<open>main.py\<close> and \<open>grpc/server.py\<close>): the steps of the two main
  coroutines as their event loops see them; serving blocks the loop of a node, which from then on stands still.
  \<open>Handover\<close> runs the migration protocol of \<open>Migration\<close> against nodes that answer as \<open>HeaServer\<close> does: what a
  successful migration has moved, what becomes of a snapshot that times out, that no operator leaves a deployed
  node, and that the engine never learns of any load.

  \<^bold>\<open>Experiments.\<close>  \<open>Collector\<close> (\<open>metrics/collector.py\<close>, \<open>storage.py\<close>): a snapshot is exactly its window.  \<open>Harness\<close>
  (\<open>harness\<close>): the matrix, the network commands and the runs as a list of actions, in order and on their network
  whatever fails; nothing reports to the collector of a run, and reading the results back labels them.  \<open>Stats\<close> and
  \<open>Tables\<close> (\<open>analysis/stats.py\<close>, \<open>tables.py\<close>): the corrected comparisons and the texts made of them.  \<open>Synthetic\<close>
  (\<open>scripts/generate_synthetic.py\<close>): the generated files and the order of latencies that the generator decides.
  \<open>Figures\<close> (\<open>analysis/plots.py\<close>): what is drawn, the latency curves as the distributions and the bars as the table.
  \<open>Report\<close> (\<open>scripts/run_analysis.py\<close>): the printed report, and that of the synthetic results from generator to table.

  \<^bold>\<open>Bounds and termination.\<close>  Only reading JSON uses fuel, as much as the text has characters, and more changes
  nothing (\<open>Json.read_fuel\<close>).  Loops over lists are structural, the loop of Kahn's algorithm has a measure, and endless loops (consumer, optimizer, telemetry, checkpoints) are modelled turn by turn, with
  sequences of turns of any length.  Concrete sizes (windows of 100 and 1000, batches of 500, capacities, the 27
  configurations) are those of the code.

  \<^bold>\<open>Not modelled.\<close>  The generated gRPC modules (\<open>hybridstream_pb2.py\<close>, \<open>hybridstream_pb2_grpc.py\<close>), which hold no logic
  of the program; the drawing, fonts and grids of the figures; logging, signals and
  measured durations; the load generators under \<open>workloads/generators\<close>, which the repository leaves empty; and the
  Flink connector, the cloud side of a migration in Java, which is a remote service to the code modelled here.
\<close>

end
